theory Spec2Isabelle
  imports Complex_Main "HOL-Library.Char_ord" "HOL-Library.List_Lexorder"
begin

section \<open>Python values, errors and warnings\<close>

text \<open>
  Every \<^verbatim>\<open>raise\<close> of \<^verbatim>\<open>statsmodels/tsa/ardl.py\<close> is a value \<open>Inl e\<close> of the result type
  \<open>error + 'a\<close>; a normal return is \<open>Inr v\<close>. Warnings issued through
  \<^verbatim>\<open>warnings.warn\<close> are collected in a list that is returned beside the result.
\<close>

datatype error =
    ValueError string
  | TypeError string
  | IndexError string
  | KeyError string
  | AttributeError string
  | UnboundLocalError string

datatype warning = SpecificationWarning string

fun ebind :: "error + 'a \<Rightarrow> ('a \<Rightarrow> error + 'b) \<Rightarrow> error + 'b" where
  "ebind (Inl e) f = Inl e"
| "ebind (Inr v) f = f v"

text \<open>\<^verbatim>\<open>str\<close> of a Python integer and of a Boolean, as the f-strings of the source use them.\<close>

definition digit :: "nat \<Rightarrow> char" where
  "digit d = ''0123456789'' ! (d mod 10)"

function str_nat :: "nat \<Rightarrow> string" where
  "str_nat n = (if n < 10 then [digit n] else str_nat (n div 10) @ [digit n])"
  by pat_completeness auto
termination
  by (relation "measure (\<lambda>n. n)") auto

declare str_nat.simps [simp del]

definition str_int :: "int \<Rightarrow> string" where
  "str_int i = (if i < 0 then CHR ''-'' # str_nat (nat (- i)) else str_nat (nat i))"

definition str_bool :: "bool \<Rightarrow> string" where
  "str_bool b = (if b then ''True'' else ''False'')"

definition int_of_bool :: "bool \<Rightarrow> int" where
  "int_of_bool b = (if b then 1 else 0)"

text \<open>\<^verbatim>\<open>", ".join(parts)\<close>.\<close>

fun join :: "string \<Rightarrow> string list \<Rightarrow> string" where
  "join sep [] = []"
| "join sep [s] = s"
| "join sep (s # t # ss) = s @ sep @ join sep (t # ss)"

text \<open>
  A Python \<^verbatim>\<open>dict\<close> keeps its keys in insertion order; it is an association list with
  distinct keys. Assigning to a key that is present replaces the value in place.
\<close>

type_synonym ('k, 'v) dict = "('k \<times> 'v) list"

fun dict_set :: "('k, 'v) dict \<Rightarrow> 'k \<Rightarrow> 'v \<Rightarrow> ('k, 'v) dict" where
  "dict_set [] k v = [(k, v)]"
| "dict_set ((k', v') # d) k v =
     (if k' = k then (k, v) # d else (k', v') # dict_set d k v)"

text \<open>The comprehension \<^verbatim>\<open>{k: f(k) for k in keys}\<close>.\<close>

definition dict_comp :: "('k \<Rightarrow> 'v) \<Rightarrow> 'k list \<Rightarrow> ('k, 'v) dict" where
  "dict_comp f ks = foldl (\<lambda>d k. dict_set d k (f k)) [] ks"

section \<open>Lag-order specifications\<close>

text \<open>
  The order argument is \<^verbatim>\<open>None\<close>, an integer, a sequence, or a mapping from the exogenous
  variables to one of the former. An integer is a Python \<^verbatim>\<open>int\<close> (\<open>OInt\<close>) or a NumPy
  integer (\<open>ONpInt\<close>): \<^verbatim>\<open>_check_order\<close> and the plain-integer branch of \<^verbatim>\<open>_format_order\<close>
  accept both (\<^verbatim>\<open>isinstance(order, (int, np.integer))\<close>), the last loop of
  \<^verbatim>\<open>_format_order\<close> tests \<^verbatim>\<open>isinstance(exog_order[key], int)\<close> only. An entry of a
  sequence is an integer (of either kind; it is converted with \<^verbatim>\<open>int\<close>) or something else
  (which \<^verbatim>\<open>_check_order\<close> rejects with a \<^verbatim>\<open>TypeError\<close>). The keys of a mapping and the
  column labels of the data are of one totally ordered type \<open>'k\<close> (positions or names), so
  that \<^verbatim>\<open>sorted\<close> is defined on them.
\<close>

datatype elem = IntV int | OtherV

datatype order = ONone | OInt int | ONpInt int | OSeq "elem list"

datatype 'k ardl_order = Plain order | Mapping "('k, order) dict"

definition is_int :: "elem \<Rightarrow> bool" where
  "is_int v = (case v of IntV _ \<Rightarrow> True | OtherV \<Rightarrow> False)"

fun ints_of :: "elem list \<Rightarrow> int list" where
  "ints_of [] = []"
| "ints_of (IntV i # vs) = i # ints_of vs"
| "ints_of (OtherV # vs) = ints_of vs"

text \<open>\<^verbatim>\<open>_check_order\<close> (lines 60--84). \<^verbatim>\<open>min\<close> of an empty sequence raises.\<close>

definition check_order :: "order \<Rightarrow> bool \<Rightarrow> error + bool" where
  "check_order ord causal =
     (case ord of
        ONone \<Rightarrow> Inr True
      | OInt k \<Rightarrow>
          if k < int_of_bool causal
          then Inl (ValueError (''integer orders must be at least '' @ str_int (int_of_bool causal)
                 @ '' when causal is '' @ str_bool causal @ ''.''))
          else Inr True
      | ONpInt k \<Rightarrow>
          if k < int_of_bool causal
          then Inl (ValueError (''integer orders must be at least '' @ str_int (int_of_bool causal)
                 @ '' when causal is '' @ str_bool causal @ ''.''))
          else Inr True
      | OSeq vs \<Rightarrow>
          if \<not> list_all is_int vs
          then Inl (TypeError ''sequence orders must contain non-negative integer values'')
          else let order = ints_of vs in
            if length (remdups order) \<noteq> length order
            then Inl (ValueError ''sequence orders must contain distinct non-negative values'')
            else if order = [] then Inl (ValueError ''min() arg is an empty sequence'')
            else if min_list order < 0
            then Inl (ValueError ''sequence orders must contain distinct non-negative values'')
            else if int_of_bool causal \<noteq> 0 \<and> min_list order < 1
            then Inl (ValueError ''sequence orders must be strictly positive when causal is True'')
            else Inr True)"


text \<open>
  The exogenous data: a \<^verbatim>\<open>DataFrame\<close> (\<open>frame = True\<close>, \<open>columns\<close> its labels) or a plain
  two-dimensional array (\<open>frame = False\<close>, \<open>columns\<close> its positions \<^verbatim>\<open>range(shape[1])\<close>).
  Numbers are real numbers or NaN; rounding is not modelled.
\<close>

datatype num = NaN | Num real

record arr2 =
  ncols :: nat
  rws :: "num list list"

definition nrows :: "arr2 \<Rightarrow> nat" where
  "nrows a = length (rws a)"

record 'k exog =
  frame :: bool
  columns :: "'k list"
  vals :: arr2

text \<open>
  \<^verbatim>\<open>_format_order\<close> (lines 87--136). \<open>kstr\<close> is \<^verbatim>\<open>str\<close> on keys. With no data and an order
  other than \<^verbatim>\<open>0\<close> or \<^verbatim>\<open>None\<close>, \<^verbatim>\<open>array_like(None, ...)\<close> has no second dimension and
  \<^verbatim>\<open>exog.shape[1]\<close> raises.

  \<open>final_order\<close> is the last loop (lines 127--134), over the entries of \<^verbatim>\<open>exog_order\<close> with
  the dictionary \<^verbatim>\<open>final_order\<close> built so far. A value that is a NumPy integer is no
  \<^verbatim>\<open>int\<close>, so the loop takes the branch for sequences and iterates over it, which raises
  (the message names the NumPy type of the value).
\<close>

fun final_order ::
  "bool \<Rightarrow> ('k, order) dict \<Rightarrow> ('k, int list) dict \<Rightarrow> error + ('k, int list) dict" where
  "final_order causal [] final = Inr final"
| "final_order causal ((key, v) # rest) final =
     (case v of
        ONone \<Rightarrow> final_order causal rest final
      | OInt k \<Rightarrow> final_order causal rest (dict_set final key [int_of_bool causal .. k])
      | ONpInt k \<Rightarrow>
          Inl (TypeError ([CHR 0x27] @ ''numpy.int64'' @ [CHR 0x27] @ '' object is not iterable''))
      | OSeq vs \<Rightarrow> final_order causal rest (dict_set final key (ints_of vs)))"

definition expand_order :: "bool \<Rightarrow> ('k, order) dict \<Rightarrow> error + ('k, int list) dict" where
  "expand_order causal exog_order = final_order causal exog_order []"

fun check_all :: "bool \<Rightarrow> ('k, order) dict \<Rightarrow> error + bool" where
  "check_all causal [] = Inr True"
| "check_all causal ((key, v) # rest) =
     ebind (check_order v causal) (\<lambda>_. check_all causal rest)"

definition format_order ::
  "('k::linorder \<Rightarrow> string) \<Rightarrow> 'k exog option \<Rightarrow> 'k ardl_order \<Rightarrow> bool
     \<Rightarrow> error + (('k, int list) dict \<times> warning list)" where
  "format_order kstr exog ord causal =
     (case exog of
        None \<Rightarrow>
          if ord = Plain (OInt 0) \<or> ord = Plain (ONpInt 0) \<or> ord = Plain ONone
          then Inr ([], [])
          else Inl (IndexError ''tuple index out of range'')
      | Some ex \<Rightarrow>
          let keys = columns ex in
          (case ord of
             Plain ONone \<Rightarrow>
               ebind (expand_order causal (dict_comp (\<lambda>k. ONone) keys))
                 (\<lambda>final. Inr (final, []))
           | Mapping m \<Rightarrow>
               let missing = sort (remdups (filter (\<lambda>k. k \<notin> set (map fst m)) keys));
                   extra = sort (remdups (filter (\<lambda>k. k \<notin> set keys) (map fst m)))
               in if extra \<noteq> []
                  then Inl (ValueError
                    (''order dictionary contains keys for exogenous ''
                      @ ''variable(s) that are not contained in exog''
                      @ '' Extra keys: '' @ join '', '' (map kstr extra) @ ''.''))
                  else
                    let ws = (if missing \<noteq> []
                              then [SpecificationWarning
                                (''exog contains variables that are missing from the order ''
                                  @ ''dictionary.  Missing keys: ''
                                  @ join '', '' (map kstr missing) @ ''.'')]
                              else [])
                    in ebind (check_all causal m) (\<lambda>_.
                       ebind (expand_order causal m) (\<lambda>final. Inr (final, ws)))
           | Plain (OInt k) \<Rightarrow>
               ebind (check_order (OInt k) causal) (\<lambda>_.
               ebind (expand_order causal (dict_comp (\<lambda>key. OInt k) keys))
                 (\<lambda>final. Inr (final, [])))
           | Plain (ONpInt k) \<Rightarrow>
               ebind (check_order (ONpInt k) causal) (\<lambda>_.
               ebind (expand_order causal (dict_comp (\<lambda>key. OInt k) keys))
                 (\<lambda>final. Inr (final, [])))
           | Plain (OSeq vs) \<Rightarrow>
               ebind (check_order (OSeq vs) causal) (\<lambda>_.
               ebind (expand_order causal (dict_comp (\<lambda>key. OSeq vs) keys))
                 (\<lambda>final. Inr (final, [])))))"


section \<open>Arrays\<close>

text \<open>
  Python indexing: a negative index counts from the end, an index out of range raises; a
  slice bound is clamped instead.
\<close>

definition py_idx :: "nat \<Rightarrow> int \<Rightarrow> nat option" where
  "py_idx n i =
     (if 0 \<le> i \<and> i < int n then Some (nat i)
      else if - int n \<le> i \<and> i < 0 then Some (nat (i + int n))
      else None)"

definition getitem :: "'a list \<Rightarrow> int \<Rightarrow> error + 'a" where
  "getitem xs i =
     (case py_idx (length xs) i of
        None \<Rightarrow> Inl (IndexError ''index out of bounds'')
      | Some j \<Rightarrow> Inr (xs ! j))"

definition setitem :: "'a list \<Rightarrow> int \<Rightarrow> 'a \<Rightarrow> error + 'a list" where
  "setitem xs i v =
     (case py_idx (length xs) i of
        None \<Rightarrow> Inl (IndexError ''index out of bounds'')
      | Some j \<Rightarrow> Inr (xs[j := v]))"

definition slice_idx :: "nat \<Rightarrow> int \<Rightarrow> nat" where
  "slice_idx n i = (if i < 0 then nat (max 0 (i + int n)) else min (nat i) n)"

text \<open>\<^verbatim>\<open>xs[lo:hi]\<close>, \<^verbatim>\<open>xs[lo:]\<close> and \<^verbatim>\<open>xs[:hi]\<close>.\<close>

definition slice :: "'a list \<Rightarrow> int \<Rightarrow> int \<Rightarrow> 'a list" where
  "slice xs lo hi = drop (slice_idx (length xs) lo) (take (slice_idx (length xs) hi) xs)"

definition slice_from :: "'a list \<Rightarrow> int \<Rightarrow> 'a list" where
  "slice_from xs lo = drop (slice_idx (length xs) lo) xs"

definition slice_to :: "'a list \<Rightarrow> int \<Rightarrow> 'a list" where
  "slice_to xs hi = take (slice_idx (length xs) hi) xs"

definition py_max :: "int list \<Rightarrow> error + int" where
  "py_max xs =
     (case xs of
        [] \<Rightarrow> Inl (ValueError ''max() arg is an empty sequence'')
      | v # vs \<Rightarrow> Inr (fold max vs v))"

definition py_min :: "int list \<Rightarrow> error + int" where
  "py_min xs =
     (case xs of
        [] \<Rightarrow> Inl (ValueError ''min() arg is an empty sequence'')
      | v # vs \<Rightarrow> Inr (fold min vs v))"

text \<open>\<^verbatim>\<open>a[:, idxs]\<close>: the listed columns of every row.\<close>

definition col_at :: "num list \<Rightarrow> int \<Rightarrow> num" where
  "col_at r i = (case py_idx (length r) i of None \<Rightarrow> NaN | Some j \<Rightarrow> r ! j)"

definition take_cols :: "arr2 \<Rightarrow> int list \<Rightarrow> error + arr2" where
  "take_cols a idxs =
     (if list_all (\<lambda>i. py_idx (ncols a) i \<noteq> None) idxs
      then Inr \<lparr>ncols = length idxs, rws = map (\<lambda>r. map (col_at r) idxs) (rws a)\<rparr>
      else Inl (IndexError ''index out of bounds''))"

text \<open>
  \<^verbatim>\<open>np.column_stack\<close> of two-dimensional blocks: the blocks side by side; it raises when
  their row counts differ.
\<close>

definition column_stack :: "arr2 list \<Rightarrow> error + arr2" where
  "column_stack bs =
     (case bs of
        [] \<Rightarrow> Inl (ValueError ''need at least one array to concatenate'')
      | b # _ \<Rightarrow>
          if list_all (\<lambda>c. nrows c = nrows b) bs
          then Inr \<lparr>ncols = sum_list (map ncols bs),
                    rws = map (\<lambda>t. concat (map (\<lambda>c. rws c ! t) bs)) [0 ..< nrows b]\<rparr>
          else Inl (ValueError ''all the input array dimensions must match exactly''))"

text \<open>\<^verbatim>\<open>np.vstack([a, b])\<close>: it raises when the column counts differ.\<close>

definition vstack :: "arr2 \<Rightarrow> arr2 \<Rightarrow> error + arr2" where
  "vstack a b =
     (if ncols a = ncols b then Inr \<lparr>ncols = ncols a, rws = rws a @ rws b\<rparr>
      else Inl (ValueError ''all the input array dimensions must match exactly''))"

text \<open>\<^verbatim>\<open>np.full((n, k), np.nan)\<close> and \<^verbatim>\<open>np.empty((n, 0))\<close>.\<close>

definition full_nan :: "nat \<Rightarrow> nat \<Rightarrow> arr2" where
  "full_nan n k = \<lparr>ncols = k, rws = replicate n (replicate k NaN)\<rparr>"

definition row_slice_from :: "arr2 \<Rightarrow> int \<Rightarrow> arr2" where
  "row_slice_from a lo = \<lparr>ncols = ncols a, rws = slice_from (rws a) lo\<rparr>"

definition row_slice :: "arr2 \<Rightarrow> int \<Rightarrow> int \<Rightarrow> arr2" where
  "row_slice a lo hi = \<lparr>ncols = ncols a, rws = slice (rws a) lo hi\<rparr>"

definition row_slice_to :: "arr2 \<Rightarrow> int \<Rightarrow> arr2" where
  "row_slice_to a hi = \<lparr>ncols = ncols a, rws = slice_to (rws a) hi\<rparr>"

section \<open>Lag matrices\<close>

text \<open>
  Modelled from the spec: \<^verbatim>\<open>lagmat\<close> of \<^verbatim>\<open>statsmodels.tsa.tsatools\<close> is not among the
  sources. It is the Lag Matrix Builder of the specification: from one column it builds the
  lags \<open>1..maxlag\<close> (and lag \<open>0\<close>, the column itself, when \<open>original\<close> is \<^verbatim>\<open>"in"\<close>), one row
  per observation; the leading rows of a lag column, for which the lagged observation does
  not exist, hold padding (zero). It refuses a lag that is not smaller than the number of
  observations.
\<close>

definition lag_entry :: "num list \<Rightarrow> nat \<Rightarrow> nat \<Rightarrow> num" where
  "lag_entry col t l = (if l \<le> t then col ! (t - l) else Num 0)"

definition lagmat :: "num list \<Rightarrow> int \<Rightarrow> bool \<Rightarrow> error + arr2" where
  "lagmat col maxlag original_in =
     (if maxlag < 0 then Inl (ValueError ''negative dimensions are not allowed'')
      else if int (length col) \<le> maxlag then Inl (ValueError ''maxlag should be < nobs'')
      else let ls = (if original_in then [0 ..< Suc (nat maxlag)] else [1 ..< Suc (nat maxlag)])
           in Inr \<lparr>ncols = length ls,
                    rws = map (\<lambda>t. map (lag_entry col t) ls) [0 ..< length col]\<rparr>)"

text \<open>
  \<^verbatim>\<open>_format_exog\<close> (lines 139--163). A column is taken by position from an array and by
  label from a \<^verbatim>\<open>DataFrame\<close>; here both are the place of the key among \<open>columns\<close>.
\<close>

definition index_of :: "'k list \<Rightarrow> 'k \<Rightarrow> nat option" where
  "index_of ks k = (case filter (\<lambda>i. ks ! i = k) [0 ..< length ks] of [] \<Rightarrow> None | i # _ \<Rightarrow> Some i)"

definition exog_col :: "'k exog \<Rightarrow> 'k \<Rightarrow> error + num list" where
  "exog_col ex key =
     (case index_of (columns ex) key of
        None \<Rightarrow> if frame ex then Inl (KeyError ''column'') else Inl (IndexError ''index out of bounds'')
      | Some j \<Rightarrow>
          if j < ncols (vals ex) then Inr (map (\<lambda>r. r ! j) (rws (vals ex)))
          else Inl (IndexError ''index out of bounds''))"

fun max_order_of :: "('k, int list) dict \<Rightarrow> int \<Rightarrow> error + int" where
  "max_order_of [] acc = Inr acc"
| "max_order_of ((key, val) # rest) acc =
     ebind (py_max val) (\<lambda>m. max_order_of rest (max m acc))"

definition lag_names :: "string \<Rightarrow> int list \<Rightarrow> string list" where
  "lag_names base ls = map (\<lambda>lag. base @ ''.L'' @ str_int lag) ls"

fun format_exog_loop ::
  "('k \<Rightarrow> string) \<Rightarrow> 'k exog \<Rightarrow> int \<Rightarrow> ('k, int list) dict
     \<Rightarrow> ('k, arr2) dict \<times> ('k, string list) dict
     \<Rightarrow> error + (('k, arr2) dict \<times> ('k, string list) dict)" where
  "format_exog_loop kstr ex max_order [] acc = Inr acc"
| "format_exog_loop kstr ex max_order ((key, ls) # rest) (exog_lags, exog_names) =
     ebind (exog_col ex key) (\<lambda>col.
     ebind (lagmat col max_order True) (\<lambda>lagged_col.
     ebind (take_cols lagged_col ls) (\<lambda>blk.
       format_exog_loop kstr ex max_order rest
         (dict_set exog_lags key blk,
          dict_set exog_names key
            (lag_names (if frame ex then kstr key else ''x'' @ kstr key) ls)))))"

definition format_exog ::
  "('k \<Rightarrow> string) \<Rightarrow> 'k exog option \<Rightarrow> ('k, int list) dict
     \<Rightarrow> error + (('k, arr2) dict \<times> ('k, string list) dict)" where
  "format_exog kstr exog ord =
     (if ord = [] then Inr ([], [])
      else ebind (max_order_of ord 0) (\<lambda>max_order.
        case exog of
          None \<Rightarrow> Inl (IndexError ''too many indices for array'')
        | Some ex \<Rightarrow> format_exog_loop kstr ex max_order ord ([], [])))"


section \<open>The model and its construction\<close>

text \<open>
  The deterministic terms come from a \<^verbatim>\<open>DeterministicProcess\<close>, an external collaborator
  that is consumed through \<^verbatim>\<open>in_sample()\<close> and \<^verbatim>\<open>out_of_sample(k)\<close>; \<open>det_names\<close> are the
  column labels of both.
\<close>

record det_process =
  in_sample :: arr2
  det_names :: "string list"
  out_of_sample :: "int \<Rightarrow> arr2"

text \<open>
  The fields of an \<^verbatim>\<open>ARDL\<close> instance that the functions below read or write:
  \<^verbatim>\<open>self.data.endog\<close>, \<^verbatim>\<open>self.data.ynames\<close>, \<^verbatim>\<open>self.data.orig_exog\<close> (of which
  \<^verbatim>\<open>self.data.exog\<close> and \<^verbatim>\<open>self.exog\<close> are the values), \<^verbatim>\<open>self._deterministics\<close>,
  \<^verbatim>\<open>self._fixed\<close>, and so on.
\<close>

record 'k ardl =
  data_endog :: "num list"
  data_ynames :: string
  data_orig_exog :: "'k exog option"
  self_deterministics :: det_process
  self_fixed :: arr2
  self_fixed_names :: "string list"
  self_causal :: bool
  self_lags :: "int list"
  self_maxlag :: int
  self_order :: "('k, int list) dict"
  self_hold_back :: int
  self_deterministic_reg :: arr2
  self_endog_reg :: arr2
  self_exog :: "('k, arr2) dict"
  self_exog_names :: "string list"
  self_x :: arr2
  self_y :: "num list"

datatype lags_arg = LNone | LInt int | LSeq "int list"

definition lags_list :: "lags_arg \<Rightarrow> int list" where
  "lags_list la = (case la of LNone \<Rightarrow> [1 .. 0] | LInt k \<Rightarrow> [1 .. k] | LSeq ls \<Rightarrow> ls)"

definition max_lag_of :: "int list \<Rightarrow> int" where
  "max_lag_of ls = (case ls of [] \<Rightarrow> 0 | v # vs \<Rightarrow> fold max vs v)"

text \<open>\<^verbatim>\<open>ARDL._initialize_model\<close> (lines 376--440).\<close>

definition initialize_model ::
  "('k::linorder \<Rightarrow> string) \<Rightarrow> num list \<Rightarrow> string \<Rightarrow> 'k exog option \<Rightarrow> det_process
     \<Rightarrow> arr2 \<Rightarrow> string list \<Rightarrow> bool \<Rightarrow> int option \<Rightarrow> lags_arg \<Rightarrow> 'k ardl_order
     \<Rightarrow> error + ('k ardl \<times> warning list)" where
  "initialize_model kstr endog ynames orig_exog dets fixed fixed_names causal hold_back la ord =
     (let lags = lags_list la; maxlag0 = max_lag_of lags in
      ebind (lagmat endog maxlag0 False) (\<lambda>reg0.
      ebind (if ncols reg0 \<noteq> length lags then take_cols reg0 (map (\<lambda>l. l - 1) lags)
             else Inr reg0) (\<lambda>endog_reg.
      ebind (format_order kstr orig_exog ord causal) (\<lambda>(order, ws).
      ebind (format_exog kstr orig_exog order) (\<lambda>(exog_lags, exog_var_names).
      ebind (max_order_of order 0) (\<lambda>exog_maxlag.
      let maxlag = max maxlag0 exog_maxlag;
          deterministic_reg = in_sample dets;
          names = det_names dets @ lag_names ynames lags
                    @ concat (map snd exog_var_names) @ fixed_names
      in
      ebind (column_stack ([deterministic_reg, endog_reg] @ map snd exog_lags @ [fixed]))
        (\<lambda>xfull.
      let hb = (case hold_back of None \<Rightarrow> maxlag | Some h \<Rightarrow> h) in
      if hb < maxlag
      then Inl (ValueError
             (''hold_back must be >= the maximum lag of the endog and exog '' @ ''variables''))
      else
        let x = row_slice_from xfull hb in
        if ncols x > nrows x
        then Inl (ValueError
               (''The number of regressors ('' @ str_nat (ncols x) @ '') including ''
                 @ ''deterministics, lags of the endog, lags of the exogenous, ''
                 @ ''and fixed regressors is larer than the sample available ''
                 @ ''for estimation ('' @ str_nat (nrows x) @ '').''))
        else Inr
          (\<lparr>data_endog = endog, data_ynames = ynames, data_orig_exog = orig_exog,
            self_deterministics = dets, self_fixed = fixed, self_fixed_names = fixed_names,
            self_causal = causal, self_lags = lags, self_maxlag = maxlag,
            self_order = order, self_hold_back = hb,
            self_deterministic_reg = deterministic_reg, self_endog_reg = endog_reg,
            self_exog = exog_lags, self_exog_names = names,
            self_x = x, self_y = slice_from endog hb\<rparr>, ws))))))))"

text \<open>
  \<^verbatim>\<open>ARDL._setup_regressors\<close> (lines 372--374), the placeholder that lets the parent's
  \<^verbatim>\<open>__init__\<close> complete: \<^verbatim>\<open>np.empty\<close> refuses a negative number of rows.
\<close>

definition setup_regressors :: "nat \<Rightarrow> int \<Rightarrow> error + nat" where
  "setup_regressors nobs hb =
     (if int nobs - hb < 0 then Inl (ValueError ''negative dimensions are not allowed'')
      else Inr (nat (int nobs - hb)))"

text \<open>The \<^verbatim>\<open>fixed\<close> argument: the labels of a \<^verbatim>\<open>DataFrame\<close> (if it is one) and the values.\<close>

record fixed_arg =
  fixed_columns :: "string list option"
  fixed_vals :: arr2

definition finite_num :: "num \<Rightarrow> bool" where
  "finite_num v = (case v of NaN \<Rightarrow> False | Num _ \<Rightarrow> True)"

definition fixed_mismatch :: "nat \<Rightarrow> arr2 \<Rightarrow> bool" where
  "fixed_mismatch nobs fixed_arr =
     (nrows fixed_arr \<noteq> nobs \<or> \<not> list_all (list_all finite_num) (rws fixed_arr))"

fun min_lags_of :: "('k, int list) dict \<Rightarrow> error + int list" where
  "min_lags_of [] = Inr []"
| "min_lags_of ((key, val) # rest) =
     ebind (py_min val) (\<lambda>m. ebind (min_lags_of rest) (\<lambda>ms. Inr (m # ms)))"

text \<open>
  \<^verbatim>\<open>ARDL.__init__\<close> (lines 293--349). The parent's \<^verbatim>\<open>__init__\<close> is not among the sources;
  it stores the data and the deterministic process, which are arguments here, and on its
  way calls the placeholder \<^verbatim>\<open>_setup_regressors\<close> with the hold-back it has resolved
  (the given one or, when none is given, the largest autoregressive lag).
\<close>

definition ARDL_init ::
  "('k::linorder \<Rightarrow> string) \<Rightarrow> num list \<Rightarrow> string \<Rightarrow> lags_arg \<Rightarrow> 'k exog option
     \<Rightarrow> 'k ardl_order \<Rightarrow> det_process \<Rightarrow> fixed_arg option \<Rightarrow> bool \<Rightarrow> int option
     \<Rightarrow> error + ('k ardl \<times> warning list)" where
  "ARDL_init kstr endog ynames la exog ord dets fixed causal hold_back =
     ebind (setup_regressors (length endog)
              (case hold_back of None \<Rightarrow> max_lag_of (lags_list la) | Some h \<Rightarrow> h)) (\<lambda>_.
     ebind (case fixed of
              Some f \<Rightarrow>
                let fixed_arr = fixed_vals f in
                if fixed_mismatch (length endog) fixed_arr
                then Inl (ValueError
                       (''fixed must be an (nobs, m) array where nobs matches the ''
                         @ ''number of observations in the endog variable, and all''
                         @ ''values must be finite''))
                else Inr (fixed_arr,
                       case fixed_columns f of
                         Some cs \<Rightarrow> cs
                       | None \<Rightarrow> map (\<lambda>i. ''z.'' @ str_nat i) [0 ..< ncols fixed_arr])
            | None \<Rightarrow> Inr (\<lparr>ncols = 0, rws = replicate (length endog) []\<rparr>, []))
       (\<lambda>(fixed_arr, fixed_names).
     ebind (initialize_model kstr endog ynames exog dets fixed_arr fixed_names causal
              hold_back la ord) (\<lambda>(m, ws).
     if self_order m \<noteq> []
     then ebind (min_lags_of (self_order m)) (\<lambda>min_lags.
          ebind (py_min min_lags) (\<lambda>lo. Inr (m\<lparr>self_causal := (lo > 0)\<rparr>, ws)))
     else Inr (m\<lparr>self_causal := True\<rparr>, ws))))"


text \<open>The properties \<^verbatim>\<open>ar_lags\<close> and \<^verbatim>\<open>ardl_order\<close> (lines 351--370).\<close>

definition ar_lags :: "'k ardl \<Rightarrow> int list option" where
  "ar_lags m = (if self_lags m = [] then None else Some (self_lags m))"

definition ardl_order :: "'k ardl \<Rightarrow> error + (int \<times> int option)" where
  "ardl_order m =
     ebind (if self_lags m = [] then Inr 0 else py_max (self_lags m)) (\<lambda>ar_order.
     ebind (max_order_of (self_order m) (- 1)) (\<lambda>dl_order.
       Inr (ar_order, if dl_order < 0 then None else Some dl_order)))"

section \<open>Prediction\<close>

text \<open>
  Modelled from the spec: \<^verbatim>\<open>_prepare_prediction\<close>, \<^verbatim>\<open>_parse_dynamic\<close> and
  \<^verbatim>\<open>_wrap_prediction\<close> are inherited and not among the sources (the index bookkeeping for
  prediction ranges is an external collaborator). \<open>start\<close> and \<open>end\<close> are zero-indexed
  observation numbers (not negative), \<open>end\<close> inclusive, defaulting to the first and the last observation;
  the requested range is split at the end of the sample into the in-sample indices
  \<open>[start, end]\<close> and the number of out-of-sample steps beyond it. A dynamic request is an
  offset from \<open>start\<close> (\<^verbatim>\<open>True\<close> is offset \<open>0\<close>). The result holds one value per requested
  index.
\<close>

definition prepare_prediction ::
  "nat \<Rightarrow> int option \<Rightarrow> int option \<Rightarrow> error + (int \<times> int \<times> int)" where
  "prepare_prediction nobs start_arg end_arg =
     (let start = (case start_arg of None \<Rightarrow> 0 | Some v \<Rightarrow> v);
          end0 = (case end_arg of None \<Rightarrow> int nobs - 1 | Some v \<Rightarrow> v)
      in if end0 < start then Inl (ValueError ''Prediction must have end after start.'')
         else let num_oos = max (end0 - (int nobs - 1)) 0
              in Inr (start, end0 - num_oos, num_oos))"

datatype dyn = DFalse | DTrue | DInt int

definition parse_dynamic :: "dyn \<Rightarrow> error + int" where
  "parse_dynamic d =
     (let dynamic_loc = (case d of DFalse \<Rightarrow> 0 | DTrue \<Rightarrow> 0 | DInt k \<Rightarrow> k)
      in if dynamic_loc < 0
         then Inl (ValueError ''Dynamic prediction cannot begin prior to the first observation'')
         else Inr dynamic_loc)"

definition wrap_prediction :: "num list \<Rightarrow> int \<Rightarrow> int \<Rightarrow> num list" where
  "wrap_prediction prediction start stop = slice_from prediction (- (stop - start))"

text \<open>\<^verbatim>\<open>check_exog\<close>, the local function of \<^verbatim>\<open>predict\<close> (lines 646--670).\<close>

definition check_exog :: "'k::linorder exog \<Rightarrow> 'k exog option \<Rightarrow> bool \<Rightarrow> error + arr2" where
  "check_exog arr orig exact =
     (case orig of
        None \<Rightarrow> Inl (AttributeError ''NoneType object has no attribute shape'')
      | Some og \<Rightarrow>
          if frame og \<and> \<not> frame arr
          then Inl (TypeError ''must be a DataFrame when the original exog was a DataFrame'')
          else if frame og \<and> sort (columns arr) \<noteq> sort (columns og)
          then Inl (ValueError ''must have the same columns as the original exog'')
          else if ncols (vals arr) \<noteq> ncols (vals og)
          then Inl (ValueError ''must have the same number of columns as the original data'')
          else if exact \<and> nrows (vals arr) \<noteq> nrows (vals og)
          then Inl (ValueError ''must have the same number of rows as the original data'')
          else Inr (vals arr))"

definition check_fixed :: "arr2 \<Rightarrow> arr2 \<Rightarrow> bool \<Rightarrow> error + arr2" where
  "check_fixed arr orig exact =
     (if ncols arr \<noteq> ncols orig
      then Inl (ValueError ''must have the same number of columns as the original data'')
      else if exact \<and> nrows arr \<noteq> nrows orig
      then Inl (ValueError ''must have the same number of rows as the original data'')
      else Inr arr)"

definition check_opt :: "('a \<Rightarrow> error + 'b) \<Rightarrow> 'a option \<Rightarrow> error + 'b option" where
  "check_opt f a = (case a of None \<Rightarrow> Inr None | Some v \<Rightarrow> ebind (f v) (\<lambda>r. Inr (Some r)))"

text \<open>
  The maximum number of one-step predictions (lines 685--693); \<^verbatim>\<open>np.inf\<close> is \<open>Infinity\<close>.
\<close>

datatype bound = Finite int | Infinity

definition bound_min :: "bound \<Rightarrow> int \<Rightarrow> bound" where
  "bound_min b v = (case b of Infinity \<Rightarrow> Finite v | Finite u \<Rightarrow> Finite (min u v))"

definition exceeds :: "int \<Rightarrow> bound \<Rightarrow> bool" where
  "exceeds n b = (case b of Infinity \<Rightarrow> False | Finite u \<Rightarrow> u < n)"

definition max_1step :: "'k ardl \<Rightarrow> error + bound" where
  "max_1step m =
     (if 0 < ncols (self_fixed m) \<or> \<not> self_causal m then Inr (Finite 0)
      else
        ebind (if self_lags m = [] then Inr Infinity
               else ebind (py_min (self_lags m)) (\<lambda>v. Inr (Finite v))) (\<lambda>max_1step.
        if self_order m \<noteq> []
        then ebind (min_lags_of (self_order m)) (\<lambda>ms.
             ebind (py_min ms) (\<lambda>min_exog. Inr (bound_min max_1step min_exog)))
        else Inr max_1step))"

text \<open>The checks of the out-of-sample data (lines 694--717).\<close>

definition short_by :: "nat \<Rightarrow> bound \<Rightarrow> int \<Rightarrow> bool" where
  "short_by rows b num_oos =
     (case b of Infinity \<Rightarrow> False | Finite u \<Rightarrow> int rows + u < num_oos)"

definition str_bound :: "int \<Rightarrow> bound \<Rightarrow> string" where
  "str_bound num_oos b = (case b of Infinity \<Rightarrow> ''-inf'' | Finite u \<Rightarrow> str_int (num_oos - u))"

definition check_oos ::
  "'k ardl \<Rightarrow> bound \<Rightarrow> int \<Rightarrow> arr2 option \<Rightarrow> arr2 option \<Rightarrow> error + bool" where
  "check_oos m max1 num_oos exog_oos fixed_oos =
     (if exceeds num_oos max1
      then
        ebind (if self_order m \<noteq> [] \<and> exog_oos = None
               then Inl (ValueError
                      (''exog_oos must be provided when out-of-sample ''
                        @ ''observations require values of the exog not in the ''
                        @ ''original sample''))
               else if self_order m \<noteq> []
                       \<and> (case exog_oos of None \<Rightarrow> False
                           | Some a \<Rightarrow> short_by (nrows a) max1 num_oos)
               then Inl (ValueError
                      (''exog_oos must have at least '' @ str_bound num_oos max1
                        @ '' observations to produce '' @ str_int num_oos
                        @ '' forecasts based on '' @ ''the model specification.''))
               else Inr True) (\<lambda>_.
        if 0 < ncols (self_fixed m) \<and> fixed_oos = None
        then Inl (ValueError
               (''fixed_oos must be provided when predicting '' @ ''out-of-sample observations''))
        else if 0 < ncols (self_fixed m)
                \<and> (case fixed_oos of None \<Rightarrow> False | Some a \<Rightarrow> int (nrows a) < num_oos)
        then Inl (ValueError
               (''fixed_oos must have at least '' @ str_int num_oos @ '' observations ''
                 @ ''to produce '' @ str_int num_oos @ '' forecasts.''))
        else Inr True)
      else Inr True)"


section \<open>The forecasting design matrix\<close>

text \<open>
  The array that \<^verbatim>\<open>_forecasting_x\<close> returns is either a view of rows of \<^verbatim>\<open>self._x\<close> (a basic
  slice of a NumPy array shares its memory: \<open>View lo n\<close> is the \<open>n\<close> rows from row \<open>lo\<close>) or
  an array of its own (\<open>Local\<close>). The state that prediction works on is the pair of
  \<^verbatim>\<open>self._x\<close> and this reference; a write through a view changes \<^verbatim>\<open>self._x\<close>.
\<close>

datatype xref = View nat nat | Local arr2

type_synonym xstate = "arr2 \<times> xref"

definition x_rows :: "xstate \<Rightarrow> num list list" where
  "x_rows st =
     (case snd st of
        View lo n \<Rightarrow> take n (drop lo (rws (fst st)))
      | Local a \<Rightarrow> rws a)"

definition x_ncols :: "xstate \<Rightarrow> nat" where
  "x_ncols st = (case snd st of View lo n \<Rightarrow> ncols (fst st) | Local a \<Rightarrow> ncols a)"

definition x_put :: "xstate \<Rightarrow> num list list \<Rightarrow> xstate" where
  "x_put st rs =
     (case snd st of
        View lo n \<Rightarrow>
          ((fst st)\<lparr>rws := take lo (rws (fst st)) @ rs @ drop (lo + n) (rws (fst st))\<rparr>,
           View lo n)
      | Local a \<Rightarrow> (fst st, Local (a\<lparr>rws := rs\<rparr>)))"

text \<open>A view lies within the array it views.\<close>

definition view_ok :: "xstate \<Rightarrow> bool" where
  "view_ok st = (case snd st of View lo n \<Rightarrow> lo + n \<le> nrows (fst st) | Local a \<Rightarrow> True)"

text \<open>\<^verbatim>\<open>x[i, c] = val\<close>.\<close>

definition x_setitem :: "xstate \<Rightarrow> int \<Rightarrow> int \<Rightarrow> num \<Rightarrow> error + xstate" where
  "x_setitem st i c val =
     ebind (getitem (x_rows st) i) (\<lambda>row.
     ebind (setitem row c val) (\<lambda>row'.
     ebind (setitem (x_rows st) i row') (\<lambda>rs. Inr (x_put st rs))))"

text \<open>\<^verbatim>\<open>pad_x\<close> (lines 536--540): without padding the argument itself is returned.\<close>

definition pad_x :: "arr2 \<Rightarrow> xref \<Rightarrow> int \<Rightarrow> error + xref" where
  "pad_x sx x pad =
     (if pad = 0 then Inr x
      else if pad < 0 then Inl (ValueError ''negative dimensions are not allowed'')
      else ebind (vstack (full_nan (nat pad) (x_ncols (sx, x)))
                    \<lparr>ncols = x_ncols (sx, x), rws = x_rows (sx, x)\<rparr>) (\<lambda>a. Inr (Local a)))"

definition oos_rows :: "arr2 \<Rightarrow> arr2 option \<Rightarrow> int \<Rightarrow> error + arr2" where
  "oos_rows a oos num_oos =
     (case oos of None \<Rightarrow> Inr a | Some b \<Rightarrow> vstack a (row_slice_to b num_oos))"

definition nan_rows :: "arr2 \<Rightarrow> int \<Rightarrow> arr2" where
  "nan_rows a hb =
     a\<lparr>rws := replicate (slice_idx (nrows a) hb) (replicate (ncols a) NaN)
              @ drop (slice_idx (nrows a) hb) (rws a)\<rparr>"

text \<open>The rebuilding part of \<^verbatim>\<open>_forecasting_x\<close> (lines 551--578).\<close>

definition rebuild_x ::
  "('k \<Rightarrow> string) \<Rightarrow> 'k ardl \<Rightarrow> int \<Rightarrow> int \<Rightarrow> int \<Rightarrow> arr2 option \<Rightarrow> arr2 option
     \<Rightarrow> arr2 option \<Rightarrow> arr2 option \<Rightarrow> error + arr2" where
  "rebuild_x kstr m start end num_oos exog exog_oos fixed fixed_oos =
     ebind (let exog0 = (case exog of None \<Rightarrow> map_option vals (data_orig_exog m)
                          | Some e \<Rightarrow> Some e)
            in case exog_oos of
                 None \<Rightarrow> Inr exog0
               | Some oos \<Rightarrow>
                   (case exog0 of
                      None \<Rightarrow> Inl (ValueError ''all the input array dimensions must match exactly'')
                    | Some e \<Rightarrow> ebind (vstack e (row_slice_to oos num_oos))
                                 (\<lambda>a. Inr (Some a)))) (\<lambda>exog1.
     ebind (oos_rows (case fixed of None \<Rightarrow> self_fixed m | Some f \<Rightarrow> f) fixed_oos num_oos)
       (\<lambda>fixed1.
     ebind (if num_oos \<noteq> 0
            then vstack (in_sample (self_deterministics m))
                   (out_of_sample (self_deterministics m) num_oos)
            else Inr (in_sample (self_deterministics m))) (\<lambda>det.
     ebind (if num_oos \<noteq> 0
            then if num_oos < 0 then Inl (ValueError ''negative dimensions are not allowed'')
                 else Inr (data_endog m @ replicate (nat num_oos) NaN)
            else Inr (data_endog m)) (\<lambda>endog.
     ebind (if self_lags m \<noteq> []
            then ebind (py_max (self_lags m)) (\<lambda>p.
                 ebind (lagmat endog p False) (\<lambda>endog_reg.
                 ebind (take_cols endog_reg (map (\<lambda>lag. lag - 1) (self_lags m)))
                   (\<lambda>b. Inr [b])))
            else Inr []) (\<lambda>endog_blocks.
     ebind (ardl_order m) (\<lambda>ao.
     ebind (if snd ao \<noteq> None
            then ebind (format_exog kstr
                          (case exog1 of
                             None \<Rightarrow> None
                           | Some e \<Rightarrow>
                               map_option (\<lambda>og. og\<lparr>vals := e\<rparr>) (data_orig_exog m))
                          (self_order m)) (\<lambda>r. Inr (map snd (fst r)))
            else Inr []) (\<lambda>exog_blocks.
     ebind (column_stack ([det] @ endog_blocks @ exog_blocks
                            @ (if 0 < ncols fixed1 then [fixed1] else []))) (\<lambda>x.
       Inr (row_slice_from (nan_rows x (self_hold_back m)) start)))))))))"

text \<open>\<^verbatim>\<open>ARDL._forecasting_x\<close> (lines 526--578).\<close>

definition forecasting_x ::
  "('k \<Rightarrow> string) \<Rightarrow> 'k ardl \<Rightarrow> int \<Rightarrow> int \<Rightarrow> int \<Rightarrow> arr2 option \<Rightarrow> arr2 option
     \<Rightarrow> arr2 option \<Rightarrow> arr2 option \<Rightarrow> error + xref" where
  "forecasting_x kstr m start end num_oos exog exog_oos fixed fixed_oos =
     (let pad = (if start \<ge> self_hold_back m then 0 else self_hold_back m - start) in
      if end + 1 < int (length (data_endog m)) \<and> exog = None \<and> fixed = None
      then
        let adjusted_start = max (start - self_hold_back m) 0;
            n = nrows (self_x m);
            lo = slice_idx n adjusted_start;
            hi = slice_idx n (end + 1 - self_hold_back m)
        in pad_x (self_x m) (View lo (hi - lo)) pad
      else ebind (rebuild_x kstr m start end num_oos exog exog_oos fixed fixed_oos)
             (\<lambda>a. Inr (Local a)))"

text \<open>Products with the parameter vector; NaN propagates.\<close>

definition num_add :: "num \<Rightarrow> num \<Rightarrow> num" where
  "num_add a b = (case (a, b) of (Num u, Num v) \<Rightarrow> Num (u + v) | _ \<Rightarrow> NaN)"

definition num_mul :: "num \<Rightarrow> num \<Rightarrow> num" where
  "num_mul a b = (case (a, b) of (Num u, Num v) \<Rightarrow> Num (u * v) | _ \<Rightarrow> NaN)"

definition dotval :: "num list \<Rightarrow> num list \<Rightarrow> num" where
  "dotval r params = foldl num_add (Num 0) (map (\<lambda>(a, b). num_mul a b) (zip r params))"

definition dot :: "num list \<Rightarrow> num list \<Rightarrow> error + num" where
  "dot r params =
     (if length r = length params then Inr (dotval r params)
      else Inl (ValueError ''matmul: input operands have a mismatch in their dimensions''))"

definition matvec :: "nat \<Rightarrow> num list list \<Rightarrow> num list \<Rightarrow> error + num list" where
  "matvec k rs params =
     (if k = length params then Inr (map (\<lambda>r. dotval r params) rs)
      else Inl (ValueError ''matmul: input operands have a mismatch in their dimensions''))"

section \<open>The prediction walk\<close>

text \<open>
  The inner loop of \<^verbatim>\<open>predict\<close> (lines 740--747), over \<^verbatim>\<open>enumerate(self._lags)\<close> from
  position \<open>j\<close> on: the entry of row \<open>i\<close> for each autoregressive lag is overwritten.
\<close>

fun walk_lags ::
  "num list \<Rightarrow> int \<Rightarrow> int \<Rightarrow> num list \<Rightarrow> int \<Rightarrow> int \<Rightarrow> int \<Rightarrow> int list \<Rightarrow> xstate
     \<Rightarrow> error + xstate" where
  "walk_lags endog start dynamic_start fcasts offset i j [] st = Inr st"
| "walk_lags endog start dynamic_start fcasts offset i j (lag # rest) st =
     (let loc = i - lag in
      ebind (if loc \<ge> dynamic_start then getitem fcasts loc
             else getitem endog (start + loc)) (\<lambda>val.
      ebind (x_setitem st i (offset + j) val) (\<lambda>st'.
        walk_lags endog start dynamic_start fcasts offset i (j + 1) rest st')))"

text \<open>The outer loop (lines 739--748), over the rows \<open>is\<close> in increasing order.\<close>

fun walk_rows ::
  "num list \<Rightarrow> int list \<Rightarrow> num list \<Rightarrow> int \<Rightarrow> int \<Rightarrow> int \<Rightarrow> int list
     \<Rightarrow> xstate \<times> num list \<Rightarrow> error + (xstate \<times> num list)" where
  "walk_rows endog lags params start dynamic_start offset [] acc = Inr acc"
| "walk_rows endog lags params start dynamic_start offset (i # is) (st, fcasts) =
     ebind (walk_lags endog start dynamic_start fcasts offset i 0 lags st) (\<lambda>st'.
     ebind (getitem (x_rows st') i) (\<lambda>row.
     ebind (dot row params) (\<lambda>v.
     ebind (setitem fcasts i v) (\<lambda>fcasts'.
       walk_rows endog lags params start dynamic_start offset is (st', fcasts')))))"

text \<open>Where the dynamic region starts (lines 728--734), as an offset from \<open>start\<close>.\<close>

definition dynamic_start :: "'k ardl \<Rightarrow> int \<Rightarrow> int \<Rightarrow> dyn \<Rightarrow> error + int" where
  "dynamic_start m start end dynamic =
     (if dynamic = DFalse then Inr (end + 1 - start)
      else ebind (parse_dynamic dynamic) (\<lambda>dynamic_step.
           Inr (if start < self_hold_back m
                then max dynamic_step (self_hold_back m - start)
                else dynamic_step)))"

text \<open>
  \<^verbatim>\<open>ARDL.predict\<close> from the call of \<^verbatim>\<open>_forecasting_x\<close> on (lines 725--749), on the state:
  it returns the state it leaves behind and the forecasts before wrapping.
\<close>

definition predict_walk ::
  "'k ardl \<Rightarrow> num list \<Rightarrow> int \<Rightarrow> int \<Rightarrow> dyn \<Rightarrow> xstate \<Rightarrow> error + (xstate \<times> num list)" where
  "predict_walk m params start end dynamic st =
     ebind (dynamic_start m start end dynamic) (\<lambda>dynamic_start.
     let n = length (x_rows st);
         fcasts = replicate n NaN
     in
     ebind (matvec (x_ncols st) (slice_to (x_rows st) dynamic_start) params) (\<lambda>head.
     let fcasts = head @ drop (length head) fcasts;
         offset = int (ncols (self_deterministic_reg m))
     in walk_rows (data_endog m) (self_lags m) params start dynamic_start offset
          [dynamic_start .. int n - 1] (st, fcasts)))"

text \<open>
  \<^verbatim>\<open>ARDL.predict\<close> after \<^verbatim>\<open>_prepare_prediction\<close> (lines 646--749): the model as the call
  leaves it, and the predictions.
\<close>

definition predict_range ::
  "('k::linorder \<Rightarrow> string) \<Rightarrow> 'k ardl \<Rightarrow> num list \<Rightarrow> int \<Rightarrow> int \<Rightarrow> int \<Rightarrow> dyn
     \<Rightarrow> 'k exog option \<Rightarrow> 'k exog option \<Rightarrow> arr2 option \<Rightarrow> arr2 option
     \<Rightarrow> error + ('k ardl \<times> num list)" where
  "predict_range kstr m params start end num_oos dynamic exog exog_oos fixed fixed_oos =
     ebind (check_opt (\<lambda>a. check_exog a (data_orig_exog m) True) exog) (\<lambda>exog.
     ebind (check_opt (\<lambda>a. check_exog a (data_orig_exog m) False) exog_oos) (\<lambda>exog_oos.
     ebind (check_opt (\<lambda>a. check_fixed a (self_fixed m) True) fixed) (\<lambda>fixed.
     ebind (check_opt (\<lambda>a. check_fixed a (self_fixed m) False) fixed_oos) (\<lambda>fixed_oos.
     ebind (max_1step m) (\<lambda>max1.
     ebind (check_oos m max1 num_oos exog_oos fixed_oos) (\<lambda>_.
     ebind (case data_orig_exog m of
              None \<Rightarrow> Inr exog_oos
            | Some og \<Rightarrow>
                if exog_oos = None \<and> num_oos \<noteq> 0
                then if num_oos < 0
                     then Inl (ValueError ''negative dimensions are not allowed'')
                     else Inr (Some (full_nan (nat num_oos) (ncols (vals og))))
                else Inr exog_oos) (\<lambda>exog_oos.
     ebind (forecasting_x kstr m start end num_oos exog exog_oos fixed fixed_oos) (\<lambda>x.
     ebind (predict_walk m params start end dynamic (self_x m, x)) (\<lambda>(st, fcasts).
       Inr (m\<lparr>self_x := fst st\<rparr>,
            wrap_prediction fcasts start (end + 1 + num_oos)))))))))))"

definition predict ::
  "('k::linorder \<Rightarrow> string) \<Rightarrow> 'k ardl \<Rightarrow> num list \<Rightarrow> int option \<Rightarrow> int option \<Rightarrow> dyn
     \<Rightarrow> 'k exog option \<Rightarrow> 'k exog option \<Rightarrow> arr2 option \<Rightarrow> arr2 option
     \<Rightarrow> error + ('k ardl \<times> num list)" where
  "predict kstr m params start_arg end_arg dynamic exog exog_oos fixed fixed_oos =
     ebind (prepare_prediction (length (data_endog m)) start_arg end_arg)
       (\<lambda>(start, end, num_oos).
          predict_range kstr m params start end num_oos dynamic exog exog_oos fixed fixed_oos)"

text \<open>
  \<^verbatim>\<open>ARDLResults.predict\<close> and \<^verbatim>\<open>ARDLResults.forecast\<close> (lines 811--870), for an integer
  number of steps. A results object holds the model and the fitted parameters.
\<close>

record 'k ardl_results =
  model :: "'k ardl"
  res_params :: "num list"

definition results_predict ::
  "('k::linorder \<Rightarrow> string) \<Rightarrow> 'k ardl_results \<Rightarrow> int option \<Rightarrow> int option \<Rightarrow> dyn
     \<Rightarrow> 'k exog option \<Rightarrow> 'k exog option \<Rightarrow> arr2 option \<Rightarrow> arr2 option
     \<Rightarrow> error + ('k ardl_results \<times> num list)" where
  "results_predict kstr res start_arg end_arg dynamic exog exog_oos fixed fixed_oos =
     ebind (predict kstr (model res) (res_params res) start_arg end_arg dynamic
              exog exog_oos fixed fixed_oos)
       (\<lambda>(m, p). Inr (res\<lparr>model := m\<rparr>, p))"

definition forecast ::
  "('k::linorder \<Rightarrow> string) \<Rightarrow> 'k ardl_results \<Rightarrow> int \<Rightarrow> 'k exog option \<Rightarrow> arr2 option
     \<Rightarrow> error + ('k ardl_results \<times> num list)" where
  "forecast kstr res steps exog fixed =
     (let start = int (length (data_endog (model res)));
          end = start + steps - 1
      in results_predict kstr res (Some start) (Some end) DFalse None exog None fixed)"

section \<open>Order selection\<close>

text \<open>
  Information criteria are floating-point values that are only compared here: a number,
  an infinity or NaN, with the comparison \<^verbatim>\<open><\<close> of IEEE arithmetic (false whenever NaN
  takes part).
\<close>

datatype icval = ICNaN | NegInf | ICNum real | PosInf

definition ic_less :: "icval \<Rightarrow> icval \<Rightarrow> bool" where
  "ic_less a b =
     (case (a, b) of
        (ICNaN, _) \<Rightarrow> False
      | (_, ICNaN) \<Rightarrow> False
      | (_, NegInf) \<Rightarrow> False
      | (NegInf, _) \<Rightarrow> True
      | (PosInf, _) \<Rightarrow> False
      | (ICNum u, PosInf) \<Rightarrow> True
      | (ICNum u, ICNum v) \<Rightarrow> u < v)"

datatype ic = Aic | Bic | Hqic

definition ic_index :: "ic \<Rightarrow> nat" where
  "ic_index c = (case c of Aic \<Rightarrow> 0 | Bic \<Rightarrow> 1 | Hqic \<Rightarrow> 2)"

definition ic_pick :: "nat \<Rightarrow> icval \<times> icval \<times> icval \<Rightarrow> icval" where
  "ic_pick index v = (case v of (a, b, h) \<Rightarrow> if index = 0 then a else if index = 1 then b else h)"

text \<open>
  The selection loop of \<^verbatim>\<open>ardl_select_order\<close> (lines 1327--1333) over the criterion table
  \<^verbatim>\<open>ics\<close>, a dictionary in insertion order; \<open>selected_order\<close> is unbound until a value
  below \<open>lowest\<close> is met.
\<close>

fun select_loop ::
  "nat \<Rightarrow> ('key, icval \<times> icval \<times> icval) dict \<Rightarrow> icval \<times> 'key option
     \<Rightarrow> icval \<times> 'key option" where
  "select_loop index [] acc = acc"
| "select_loop index ((key, v) # rest) (lowest, selected_order) =
     (let val = ic_pick index v in
      if ic_less val lowest then select_loop index rest (val, Some key)
      else select_loop index rest (lowest, selected_order))"

text \<open>
  Lines 1327--1348: the selected key, and from it the arguments \<open>lags\<close> and \<open>order\<close> of the
  model that is returned. A key is the autoregressive part followed by one pair per
  exogenous variable.
\<close>

definition select_order ::
  "ic \<Rightarrow> ('a \<times> ('k \<times> 'v) list, icval \<times> icval \<times> icval) dict
     \<Rightarrow> error + ('a \<times> ('k, 'v) dict)" where
  "select_order c ics =
     (case snd (select_loop (ic_index c) ics (PosInf, None)) of
        None \<Rightarrow> Inl (UnboundLocalError
                  ''local variable selected_order referenced before assignment'')
      | Some selected_order \<Rightarrow>
          Inr (fst selected_order,
               foldl (\<lambda>d (k, v). dict_set d k v) [] (snd selected_order)))"

text \<open>
  What one entry of an order mapping contributes to the final order (the body of the loop
  at lines 128--134).
\<close>

definition expand_entry :: "bool \<Rightarrow> 'k \<times> order \<Rightarrow> ('k \<times> int list) option" where
  "expand_entry causal e =
     (case snd e of
        ONone \<Rightarrow> None
      | OInt k \<Rightarrow> Some (fst e, [int_of_bool causal .. k])
      | ONpInt k \<Rightarrow> None
      | OSeq vs \<Rightarrow> Some (fst e, ints_of vs))"

section \<open>The prediction walk as a function on lists\<close>

text \<open>
  What the two loops of \<^verbatim>\<open>predict\<close> compute when no index is out of range, written on the
  rows and the forecasts alone. \<open>lag_source\<close> is the value that the inner loop reads for one
  lag of row \<open>i\<close>; \<open>put_lags\<close> writes the values for the lags into the columns from \<open>c\<close> on;
  \<open>walk_step\<close> is one turn of the outer loop.
\<close>

definition lag_source :: "num list \<Rightarrow> num list \<Rightarrow> int \<Rightarrow> int \<Rightarrow> int \<Rightarrow> int \<Rightarrow> num" where
  "lag_source endog fcasts start ds i lag =
     (if ds \<le> i - lag then fcasts ! nat (i - lag) else endog ! nat (start + i - lag))"

fun put_lags :: "(int \<Rightarrow> num) \<Rightarrow> nat \<Rightarrow> int list \<Rightarrow> num list \<Rightarrow> num list" where
  "put_lags src c [] row = row"
| "put_lags src c (lag # rest) row = put_lags src (Suc c) rest (row[c := src lag])"

definition walk_step ::
  "num list \<Rightarrow> int list \<Rightarrow> num list \<Rightarrow> int \<Rightarrow> int \<Rightarrow> nat \<Rightarrow> int
     \<Rightarrow> num list list \<times> num list \<Rightarrow> num list list \<times> num list" where
  "walk_step endog lags params start ds offset i acc =
     (let row = put_lags (lag_source endog (snd acc) start ds i) offset lags (fst acc ! nat i)
      in ((fst acc)[nat i := row], (snd acc)[nat i := dotval row params]))"

section \<open>The search of \<^verbatim>\<open>ardl_select_order\<close>\<close>

text \<open>
  \<^verbatim>\<open>ardl_select_order\<close> (lines 1135--1348). Its arithmetic is done by NumPy and by the
  inherited criterion functions, which are not part of the sources and enter as
  parameters: \<open>residual always x\<close> is \<^verbatim>\<open>x - always @ (pinv(always) @ x)\<close> for a block \<open>x\<close>,
  \<open>residual_vec\<close> the same for the response, and \<open>compute_ics y x df\<close> is the local function
  \<^verbatim>\<open>compute_ics\<close> (lines 1224--1239), which fits \<open>y\<close> on the columns \<open>x\<close> by least squares
  and returns the three criteria AIC, BIC and HQIC.
\<close>

record numerics =
  residual :: "arr2 \<Rightarrow> arr2 \<Rightarrow> arr2"
  residual_vec :: "arr2 \<Rightarrow> num list \<Rightarrow> num list"
  compute_ics :: "num list \<Rightarrow> arr2 \<Rightarrow> nat \<Rightarrow> icval \<times> icval \<times> icval"

text \<open>
  A key of the criterion table: the autoregressive part (\<^verbatim>\<open>None\<close>, an integer or a tuple
  of lags, which becomes the argument \<^verbatim>\<open>lags\<close> of the model that is returned) followed by
  one pair per exogenous variable, whose second component is \<^verbatim>\<open>None\<close>, an integer or a
  tuple of lags (it becomes the order of that variable).
\<close>

type_synonym 'k sel_key = "lags_arg \<times> ('k \<times> order) list"

text \<open>\<^verbatim>\<open>a[:, :n]\<close> for \<open>n \<ge> 0\<close>, and \<^verbatim>\<open>itertools.combinations\<close>.\<close>

definition col_slice_to :: "arr2 \<Rightarrow> nat \<Rightarrow> arr2" where
  "col_slice_to a n = \<lparr>ncols = min n (ncols a), rws = map (take n) (rws a)\<rparr>"

fun combinations :: "'a list \<Rightarrow> nat \<Rightarrow> 'a list list" where
  "combinations xs 0 = [[]]"
| "combinations [] (Suc n) = []"
| "combinations (x # xs) (Suc n) = map (\<lambda>c. x # c) (combinations xs n) @ combinations xs (Suc n)"

text \<open>
  \<^verbatim>\<open>perm_to_tuple\<close> (lines 1276--1298). \<open>keys\<close> names the columns of the stacked blocks: the
  pair \<open>(None, lag)\<close> for a lag of the response and \<open>(Some k, lag)\<close> for a lag of the
  exogenous variable \<open>k\<close>. The dictionary \<open>d\<close> holds a list of lags or \<^verbatim>\<open>None\<close>.
\<close>

definition d_append :: "('k, int list option) dict \<Rightarrow> 'k \<Rightarrow> int \<Rightarrow> ('k, int list option) dict" where
  "d_append d k v =
     (case map_of d k of
        None \<Rightarrow> d @ [(k, Some [v])]
      | Some None \<Rightarrow> dict_set d k (Some [v])
      | Some (Some l) \<Rightarrow> dict_set d k (Some (l @ [v])))"

fun perm_loop ::
  "('k option \<times> int) list \<Rightarrow> nat list \<Rightarrow> int list \<times> ('k, int list option) dict
     \<Rightarrow> error + (int list \<times> ('k, int list option) dict)" where
  "perm_loop keys [] acc = Inr acc"
| "perm_loop keys (v # rest) (y_lags, d) =
     ebind (getitem keys (int v)) (\<lambda>key.
       case fst key of
         None \<Rightarrow> perm_loop keys rest (y_lags @ [snd key], d)
       | Some k \<Rightarrow> perm_loop keys rest (y_lags, d_append d k (snd key)))"

definition perm_to_tuple :: "('k option \<times> int) list \<Rightarrow> nat list \<Rightarrow> error + 'k sel_key" where
  "perm_to_tuple keys perm =
     (if perm = []
      then Inr (LInt 0,
             dict_comp (\<lambda>k. OInt 0) (map the (filter (\<lambda>k. k \<noteq> None) (map fst keys))))
      else
        ebind (perm_loop keys perm ([], [])) (\<lambda>(y_lags, d).
        let y = (if y_lags = [] \<or> y_lags = [0] then LInt 0 else LSeq y_lags);
            d' = foldl (\<lambda>d key.
                   case fst key of
                     None \<Rightarrow> d
                   | Some k \<Rightarrow> if k \<in> set (map fst d) then d else dict_set d k None) d keys
        in Inr (y, map (\<lambda>(k, v). (k, case v of None \<Rightarrow> ONone
                                         | Some l \<Rightarrow> OSeq (map IntV l))) d')))"

text \<open>
  The two enumerations (lines 1302--1325), each filling the table \<^verbatim>\<open>ics\<close>: all subsets of
  the columns of fewer than all columns when \<^verbatim>\<open>glob\<close> is set, and otherwise, for every
  block, the leading columns.
\<close>

fun glob_loop ::
  "numerics \<Rightarrow> num list \<Rightarrow> arr2 \<Rightarrow> nat \<Rightarrow> ('k option \<times> int) list \<Rightarrow> nat list list
     \<Rightarrow> ('k sel_key, icval \<times> icval \<times> icval) dict
     \<Rightarrow> error + ('k sel_key, icval \<times> icval \<times> icval) dict" where
  "glob_loop nm y x df keys [] ics = Inr ics"
| "glob_loop nm y x df keys (perm # rest) ics =
     ebind (perm_to_tuple keys perm) (\<lambda>key.
     ebind (take_cols x (map int perm)) (\<lambda>xp.
       glob_loop nm y x df keys rest (dict_set ics key (compute_ics nm y xp df))))"

definition nested_key :: "bool \<Rightarrow> 'k list \<Rightarrow> nat list \<Rightarrow> 'k sel_key" where
  "nested_key causal var_names io =
     (if hd io \<noteq> 0 then LInt (int (hd io)) else LNone,
      map (\<lambda>(var, val).
             if causal then (var, if val = 0 then ONone else OInt (int val))
             else (var, if int val - 1 \<ge> 0 then OInt (int val - 1) else ONone))
        (zip var_names (tl io)))"

fun nested_loop ::
  "numerics \<Rightarrow> num list \<Rightarrow> arr2 list \<Rightarrow> nat \<Rightarrow> bool \<Rightarrow> 'k list \<Rightarrow> nat list list
     \<Rightarrow> ('k sel_key, icval \<times> icval \<times> icval) dict
     \<Rightarrow> error + ('k sel_key, icval \<times> icval \<times> icval) dict" where
  "nested_loop nm y select df causal var_names [] ics = Inr ics"
| "nested_loop nm y select df causal var_names (io # rest) ics =
     ebind (column_stack (map (\<lambda>(a, n). col_slice_to a n) (zip select io))) (\<lambda>x.
       nested_loop nm y select df causal var_names rest
         (dict_set ics (nested_key causal var_names io) (compute_ics nm y x df)))"

text \<open>
  \<^verbatim>\<open>ardl_select_order\<close>: the largest model \<^verbatim>\<open>base\<close>, the blocks from its hold-back on, the
  table, the selection, and the model built from the selected key with the hold-back of
  \<^verbatim>\<open>base\<close>. The result is that model (with the warnings of its construction) and the table.
\<close>

definition ardl_select_order ::
  "numerics \<Rightarrow> ('k::linorder \<Rightarrow> string) \<Rightarrow> num list \<Rightarrow> string \<Rightarrow> int \<Rightarrow> 'k exog option
     \<Rightarrow> 'k ardl_order \<Rightarrow> det_process \<Rightarrow> fixed_arg option \<Rightarrow> bool \<Rightarrow> ic \<Rightarrow> bool
     \<Rightarrow> int option
     \<Rightarrow> error + (('k ardl \<times> warning list) \<times> ('k sel_key, icval \<times> icval \<times> icval) dict)" where
  "ardl_select_order nm kstr endog ynames maxlag exog maxorder dets fixed causal c glob hold_back =
     ebind (ARDL_init kstr endog ynames (LInt maxlag) exog maxorder dets fixed causal hold_back)
       (\<lambda>(base, ws0).
     let hold_back = self_hold_back base in
     ebind (column_stack [self_deterministic_reg base, self_fixed base]) (\<lambda>always0.
     let always = row_slice_from always0 hold_back;
         select0 = row_slice_from (self_endog_reg base) hold_back
                     # map (\<lambda>(var, blk). row_slice_from blk hold_back) (self_exog base);
         iter_orders = map (\<lambda>a. [0 ..< ncols a + 1]) select0;
         var_names = map fst (self_exog base);
         select = (if ncols always \<noteq> 0 then map (residual nm always) select0 else select0);
         y = (if ncols always \<noteq> 0 then residual_vec nm always (self_y base) else self_y base);
         always_df = ncols always
     in
     ebind (if glob
            then
              let ar_lags = (case ar_lags base of None \<Rightarrow> [] | Some ls \<Rightarrow> ls);
                  keys = map (\<lambda>i. (None, i)) ar_lags
                           @ concat (map (\<lambda>(k, v). map (\<lambda>i. (Some k, i)) v) (self_order base))
              in ebind (column_stack select) (\<lambda>x.
                 let all_columns = [0 ..< ncols x] in
                 glob_loop nm y x always_df keys
                   (concat (map (\<lambda>i. combinations all_columns i) [0 ..< ncols x])) [])
            else nested_loop nm y select always_df causal var_names
                   (product_lists iter_orders) []) (\<lambda>ics.
     ebind (select_order c ics) (\<lambda>(lags, exog_order).
     ebind (ARDL_init kstr endog ynames lags exog (Mapping exog_order) dets fixed causal
              (Some hold_back)) (\<lambda>model. Inr (model, ics))))))"

section \<open>Example data\<close>

text \<open>
  Modelled from the spec: the deterministic-process generator is an external collaborator
  and not among the sources. For the default trend (a constant) it supplies one column,
  named \<open>const\<close>, that holds \<open>1\<close> for every in-sample and out-of-sample index.
\<close>

definition const_process :: "nat \<Rightarrow> det_process" where
  "const_process nobs =
     \<lparr>in_sample = \<lparr>ncols = 1, rws = replicate nobs [Num 1]\<rparr>,
      det_names = [''const''],
      out_of_sample = (\<lambda>k. \<lparr>ncols = 1, rws = replicate (nat k) [Num 1]\<rparr>)\<rparr>"

text \<open>
  A response of five observations, and the model \<^verbatim>\<open>ARDL(y, 1)\<close> on it: a constant and the
  first autoregressive lag.
\<close>

definition ar1_endog :: "num list" where
  "ar1_endog = [Num 1, Num 2, Num 4, Num 8, Num 16]"

definition ar1_model :: "string ardl" where
  "ar1_model =
     \<lparr>data_endog = [Num 1, Num 2, Num 4, Num 8, Num 16],
      data_ynames = ''y'', data_orig_exog = None,
      self_deterministics = const_process 5,
      self_fixed = \<lparr>ncols = 0, rws = [[], [], [], [], []]\<rparr>,
      self_fixed_names = [], self_causal = True, self_lags = [1],
      self_maxlag = 1, self_order = [], self_hold_back = 1,
      self_deterministic_reg =
        \<lparr>ncols = 1, rws = [[Num 1], [Num 1], [Num 1], [Num 1], [Num 1]]\<rparr>,
      self_endog_reg =
        \<lparr>ncols = 1, rws = [[Num 0], [Num 1], [Num 2], [Num 4], [Num 8]]\<rparr>,
      self_exog = [], self_exog_names = [''const'', ''y.L1''],
      self_x = \<lparr>ncols = 2, rws = [[Num 1, Num 1], [Num 1, Num 2], [Num 1, Num 4], [Num 1, Num 8]]\<rparr>,
      self_y = [Num 2, Num 4, Num 8, Num 16]\<rparr>"

text \<open>
  The same response with one exogenous column \<open>x\<close>, and the causal model
  \<^verbatim>\<open>ARDL(y, 1, x, 1, causal=True)\<close>.
\<close>

definition x_data :: "string exog" where
  "x_data =
     \<lparr>frame = True, columns = [''x''],
      vals = \<lparr>ncols = 1, rws = [[Num 1], [Num 0], [Num 1], [Num 0], [Num 1]]\<rparr>\<rparr>"

definition x_model :: "string ardl" where
  "x_model =
     \<lparr>data_endog = [Num 1, Num 2, Num 4, Num 8, Num 16],
      data_ynames = ''y'', data_orig_exog = Some x_data,
      self_deterministics = const_process 5,
      self_fixed = \<lparr>ncols = 0, rws = [[], [], [], [], []]\<rparr>,
      self_fixed_names = [], self_causal = True, self_lags = [1],
      self_maxlag = 1, self_order = [(''x'', [1])], self_hold_back = 1,
      self_deterministic_reg =
        \<lparr>ncols = 1, rws = [[Num 1], [Num 1], [Num 1], [Num 1], [Num 1]]\<rparr>,
      self_endog_reg =
        \<lparr>ncols = 1, rws = [[Num 0], [Num 1], [Num 2], [Num 4], [Num 8]]\<rparr>,
      self_exog = [(''x'', \<lparr>ncols = 1, rws = [[Num 0], [Num 1], [Num 0], [Num 1], [Num 0]]\<rparr>)],
      self_exog_names = [''const'', ''y.L1'', ''x.L1''],
      self_x =
        \<lparr>ncols = 3,
         rws = [[Num 1, Num 1, Num 1], [Num 1, Num 2, Num 0],
                [Num 1, Num 4, Num 1], [Num 1, Num 8, Num 0]]\<rparr>,
      self_y = [Num 2, Num 4, Num 8, Num 16]\<rparr>"

text \<open>
  Modelled from the spec: the deterministic process of the trend \<^verbatim>\<open>"n"\<close> (no trend, no
  seasonal terms) has no column. With it, the same response and exogenous column give the
  model \<^verbatim>\<open>ARDL(y, 0, x, {"x": 0}, trend="n")\<close>, whose only regressor is \<open>x.L0\<close>.
\<close>

definition no_trend :: "nat \<Rightarrow> det_process" where
  "no_trend nobs =
     \<lparr>in_sample = \<lparr>ncols = 0, rws = replicate nobs []\<rparr>,
      det_names = [],
      out_of_sample = (\<lambda>k. \<lparr>ncols = 0, rws = replicate (nat k) []\<rparr>)\<rparr>"

definition x0_model :: "string ardl" where
  "x0_model =
     \<lparr>data_endog = [Num 1, Num 2, Num 4, Num 8, Num 16],
      data_ynames = ''y'', data_orig_exog = Some x_data,
      self_deterministics = no_trend 5,
      self_fixed = \<lparr>ncols = 0, rws = [[], [], [], [], []]\<rparr>,
      self_fixed_names = [], self_causal = False, self_lags = [],
      self_maxlag = 0, self_order = [(''x'', [0])], self_hold_back = 0,
      self_deterministic_reg = \<lparr>ncols = 0, rws = [[], [], [], [], []]\<rparr>,
      self_endog_reg = \<lparr>ncols = 0, rws = [[], [], [], [], []]\<rparr>,
      self_exog = [(''x'', \<lparr>ncols = 1, rws = [[Num 1], [Num 0], [Num 1], [Num 0], [Num 1]]\<rparr>)],
      self_exog_names = [''x.L0''],
      self_x = \<lparr>ncols = 1, rws = [[Num 1], [Num 0], [Num 1], [Num 0], [Num 1]]\<rparr>,
      self_y = [Num 1, Num 2, Num 4, Num 8, Num 16]\<rparr>"


section \<open>Dictionaries and order expansion\<close>

lemma dict_set_keys:
  "map fst (dict_set d k v) = (if k \<in> fst ` set d then map fst d else map fst d @ [k])"
  by (induction d) (force simp: image_iff)+

lemma dict_set_vals:
  "(k', v') \<in> set (dict_set d k v) \<Longrightarrow> (k', v') \<in> set d \<or> (k' = k \<and> v' = v)"
  by (induction d) (auto split: if_splits)

lemma dict_set_fresh: "k \<notin> fst ` set d \<Longrightarrow> dict_set d k v = d @ [(k, v)]"
  by (induction d) auto



lemma final_order_eq:
  "distinct (map fst m) \<Longrightarrow> fst ` set acc \<inter> fst ` set m = {} \<Longrightarrow>
   final_order causal m acc
     = (if list_ex (\<lambda>e. case snd e of ONpInt k \<Rightarrow> True | _ \<Rightarrow> False) m
        then Inl (TypeError ([CHR 0x27] @ ''numpy.int64'' @ [CHR 0x27] @ '' object is not iterable''))
        else Inr (acc @ List.map_filter (expand_entry causal) m))"
proof (induction m arbitrary: acc)
  case Nil show ?case by simp
next
  case (Cons e m)
  obtain k v where e: "e = (k, v)" by (cases e)
  have fresh: "k \<notin> fst ` set acc" using Cons.prems(2) by (auto simp: e)
  have d: "distinct (map fst m)" using Cons.prems(1) by simp
  show ?case
  proof (cases v)
    case ONone
    have ee: "expand_entry causal (k, ONone) = None" by (simp add: expand_entry_def)
    have "fst ` set acc \<inter> fst ` set m = {}" using Cons.prems(2) by auto
    from Cons.IH[OF d this] show ?thesis by (simp add: e ONone ee)
  next
    case (OInt n)
    have ee: "expand_entry causal (k, OInt n) = Some (k, [int_of_bool causal .. n])"
      by (simp add: expand_entry_def)
    have "fst ` set (acc @ [(k, [int_of_bool causal .. n])]) \<inter> fst ` set m = {}"
      using Cons.prems by (auto simp: e)
    from Cons.IH[OF d this] show ?thesis using fresh by (simp add: e OInt ee dict_set_fresh)
  next
    case (ONpInt n)
    then show ?thesis by (simp add: e)
  next
    case (OSeq vs)
    have ee: "expand_entry causal (k, OSeq vs) = Some (k, ints_of vs)"
      by (simp add: expand_entry_def)
    have "fst ` set (acc @ [(k, ints_of vs)]) \<inter> fst ` set m = {}"
      using Cons.prems by (auto simp: e)
    from Cons.IH[OF d this] show ?thesis using fresh by (simp add: e OSeq ee dict_set_fresh)
  qed
qed

lemma expand_order_eq:
  "distinct (map fst m) \<Longrightarrow>
   expand_order causal m
     = (if list_ex (\<lambda>e. case snd e of ONpInt k \<Rightarrow> True | _ \<Rightarrow> False) m
        then Inl (TypeError ([CHR 0x27] @ ''numpy.int64'' @ [CHR 0x27] @ '' object is not iterable''))
        else Inr (List.map_filter (expand_entry causal) m))"
  unfolding expand_order_def using final_order_eq[of m "[]" causal] by simp


lemma check_all_isl:
  "isl (check_all c m) = list_ex (\<lambda>e. isl (check_order (snd e) c)) m"
proof (induction m)
  case Nil show ?case by simp
next
  case (Cons e m)
  obtain k v where e: "e = (k, v)" by (cases e)
  show ?case using Cons by (cases "check_order v c") (simp_all add: e)
qed

lemma sort_remdups_filter:
  "sort (remdups (filter P xs)) = sorted_list_of_set {x \<in> set xs. P x}"
proof -
  have "{x \<in> set xs. P x} = set (filter P xs)" by auto
  then show ?thesis by (simp only: sorted_list_of_set_sort_remdups)
qed

lemma expand_keys_subset:
  "fst ` set (List.map_filter (expand_entry c) m) \<subseteq> fst ` set m"
  by (auto simp: map_filter_def expand_entry_def image_iff split: order.splits) force+

lemma py_min_Min: "xs \<noteq> [] \<Longrightarrow> py_min xs = Inr (Min (set xs))"
  by (cases xs) (simp_all add: py_min_def Min.set_eq_fold[symmetric])

lemma py_max_Max: "xs \<noteq> [] \<Longrightarrow> py_max xs = Inr (Max (set xs))"
  by (cases xs) (simp_all add: py_max_def Max.set_eq_fold[symmetric])


section \<open>The example models are what the constructor builds\<close>

lemmas py_defs =
  getitem_def setitem_def py_idx_def slice_idx_def slice_def slice_from_def slice_to_def
  py_max_def py_min_def col_at_def take_cols_def column_stack_def vstack_def full_nan_def
  row_slice_from_def row_slice_def row_slice_to_def nrows_def lag_entry_def lagmat_def
  index_of_def exog_col_def lag_names_def str_int_def str_bool_def int_of_bool_def digit_def
  dict_comp_def

lemmas init_defs =
  ARDL_init_def initialize_model_def setup_regressors_def lags_list_def max_lag_of_def
  format_order_def format_exog_def expand_order_def check_order_def fixed_mismatch_def
  finite_num_def

lemma replicate_5: "replicate 5 v = [v, v, v, v, v]"
  by (simp add: eval_nat_numeral)

lemma ar1_model_built:
  "ARDL_init (\<lambda>s. s) ar1_endog ''y'' (LInt 1) None (Plain (OInt 0)) (const_process 5)
     None False None = Inr (ar1_model, [])"
  by (simp add: init_defs ar1_endog_def ar1_model_def const_process_def py_defs
      upto.simps upt_rec[of _ "numeral _"] upt_rec[of _ "Suc _"] str_nat.simps Let_def
      replicate_5)

lemma x_model_built:
  "ARDL_init (\<lambda>s. s) ar1_endog ''y'' (LInt 1) (Some x_data) (Plain (OInt 1)) (const_process 5)
     None True None = Inr (x_model, [])"
  by (simp add: init_defs ar1_endog_def x_model_def x_data_def const_process_def py_defs
      upto.simps upt_rec[of _ "numeral _"] upt_rec[of _ "Suc _"] str_nat.simps Let_def
      replicate_5)

section \<open>Arrays, lag matrices and the stages of the constructor\<close>

lemma lagmat_Inr:
  assumes "lagmat col k b = Inr a"
  shows "0 \<le> k" "k < int (length col)" "nrows a = length col"
    "ncols a = (if b then Suc (nat k) else nat k)"
    "rws a = map (\<lambda>t. map (lag_entry col t)
                (if b then [0 ..< Suc (nat k)] else [1 ..< Suc (nat k)])) [0 ..< length col]"
  using assms by (auto simp: lagmat_def nrows_def Let_def split: if_splits)

lemma take_cols_Inr:
  assumes "take_cols a idxs = Inr b"
  shows "ncols b = length idxs" "nrows b = nrows a"
    "rws b = map (\<lambda>r. map (col_at r) idxs) (rws a)"
  using assms by (auto simp: take_cols_def nrows_def split: if_splits)

lemma column_stack_Inr:
  assumes "column_stack bs = Inr a"
  shows "bs \<noteq> []" "list_all (\<lambda>c. nrows c = nrows a) bs"
    "ncols a = sum_list (map ncols bs)"
    "rws a = map (\<lambda>t. concat (map (\<lambda>c. rws c ! t) bs)) [0 ..< nrows a]"
proof -
  from assms obtain b rest where bs: "bs = b # rest" by (cases bs) (auto simp: column_stack_def)
  from assms have all: "list_all (\<lambda>c. nrows c = nrows b) bs"
    and a: "a = \<lparr>ncols = sum_list (map ncols bs),
                rws = map (\<lambda>t. concat (map (\<lambda>c. rws c ! t) bs)) [0 ..< nrows b]\<rparr>"
    by (auto simp: column_stack_def bs split: if_splits)
  have n: "nrows a = nrows b" by (simp add: a nrows_def)
  show "bs \<noteq> []" by (simp add: bs)
  show "list_all (\<lambda>c. nrows c = nrows a) bs" using all n by simp
  show "ncols a = sum_list (map ncols bs)" by (simp add: a)
  show "rws a = map (\<lambda>t. concat (map (\<lambda>c. rws c ! t) bs)) [0 ..< nrows a]"
    unfolding n by (simp add: a)
qed

lemma ebind_InrE:
  assumes "ebind a f = Inr r"
  obtains v where "a = Inr v" "f v = Inr r"
  using assms by (cases a) simp_all

lemma initialize_model_fields:
  assumes "initialize_model kstr endog ynames orig_exog dets fixed fixed_names causal hold_back
             la ord = Inr (m, ws)"
  shows "self_lags m = lags_list la" "data_endog m = endog"
    "data_orig_exog m = orig_exog" "self_fixed m = fixed" "self_deterministics m = dets"
    "self_deterministic_reg m = in_sample dets" "self_causal m = causal"
    "self_hold_back m = (case hold_back of None \<Rightarrow> self_maxlag m | Some h \<Rightarrow> h)"
    "self_maxlag m \<le> self_hold_back m"
    "ncols (self_x m) \<le> nrows (self_x m)"
    "self_y m = slice_from endog (self_hold_back m)"
    "format_order kstr orig_exog ord causal = Inr (self_order m, ws)"
  using assms unfolding initialize_model_def Let_def
  by (auto elim!: ebind_InrE simp: not_less split: prod.splits if_splits option.splits)

lemma initialize_model_stages:
  assumes "initialize_model kstr endog ynames orig_exog dets fixed fixed_names causal hold_back
             la ord = Inr (m, ws)"
  shows "\<exists>reg0 exog_var_names exog_maxlag xfull.
    lagmat endog (max_lag_of (lags_list la)) False = Inr reg0
    \<and> (if ncols reg0 \<noteq> length (lags_list la)
      then take_cols reg0 (map (\<lambda>l. l - 1) (lags_list la)) else Inr reg0)
        = Inr (self_endog_reg m)
    \<and> format_exog kstr orig_exog (self_order m) = Inr (self_exog m, exog_var_names)
    \<and> max_order_of (self_order m) 0 = Inr exog_maxlag
    \<and> column_stack ([in_sample dets, self_endog_reg m] @ map snd (self_exog m) @ [fixed])
        = Inr xfull
    \<and> self_maxlag m = max (max_lag_of (lags_list la)) exog_maxlag
    \<and> self_x m = row_slice_from xfull (self_hold_back m)
    \<and> self_exog_names m = det_names dets @ lag_names ynames (lags_list la)
                    @ concat (map snd exog_var_names) @ fixed_names"
  using assms unfolding initialize_model_def Let_def
  by (auto elim!: ebind_InrE simp: not_less split: prod.splits if_splits) blast+


lemma ARDL_init_Inr:
  assumes "ARDL_init kstr endog ynames la exog ord dets fixed causal hold_back = Inr (m, ws)"
  shows "\<exists>m0 fa fn r c.
    setup_regressors (length endog)
       (case hold_back of None \<Rightarrow> max_lag_of (lags_list la) | Some h \<Rightarrow> h) = Inr r
    \<and> initialize_model kstr endog ynames exog dets fa fn causal hold_back la ord = Inr (m0, ws)
    \<and> m = m0\<lparr>self_causal := c\<rparr>
    \<and> fa = (case fixed of None \<Rightarrow> \<lparr>ncols = 0, rws = replicate (length endog) []\<rparr>
             | Some f \<Rightarrow> fixed_vals f)
    \<and> (case fixed of None \<Rightarrow> True
        | Some f \<Rightarrow> \<not> fixed_mismatch (length endog) (fixed_vals f))"
proof -
  from assms[unfolded ARDL_init_def] obtain r where
    1: "setup_regressors (length endog)
       (case hold_back of None \<Rightarrow> max_lag_of (lags_list la) | Some h \<Rightarrow> h) = Inr r"
    by (elim ebind_InrE)
  from assms[unfolded ARDL_init_def 1 ebind.simps] obtain fa fn where
    2: "(case fixed of
              Some f \<Rightarrow>
                let fixed_arr = fixed_vals f in
                if fixed_mismatch (length endog) fixed_arr
                then Inl (ValueError
                       (''fixed must be an (nobs, m) array where nobs matches the ''
                         @ ''number of observations in the endog variable, and all''
                         @ ''values must be finite''))
                else Inr (fixed_arr,
                       case fixed_columns f of
                         Some cs \<Rightarrow> cs
                       | None \<Rightarrow> map (\<lambda>i. ''z.'' @ str_nat i) [0 ..< ncols fixed_arr])
            | None \<Rightarrow> Inr (\<lparr>ncols = 0, rws = replicate (length endog) []\<rparr>, [])) = Inr (fa, fn)"
    and 3: "ebind (initialize_model kstr endog ynames exog dets fa fn causal
              hold_back la ord) (\<lambda>(m, ws).
     if self_order m \<noteq> []
     then ebind (min_lags_of (self_order m)) (\<lambda>min_lags.
          ebind (py_min min_lags) (\<lambda>lo. Inr (m\<lparr>self_causal := (lo > 0)\<rparr>, ws)))
     else Inr (m\<lparr>self_causal := True\<rparr>, ws)) = Inr (m, ws)"
    by (elim ebind_InrE) (auto split: prod.splits)
  from 3 obtain m0 where
    4: "initialize_model kstr endog ynames exog dets fa fn causal hold_back la ord = Inr (m0, ws)"
    and 5: "\<exists>c. m = m0\<lparr>self_causal := c\<rparr>"
    by (elim ebind_InrE) (auto split: prod.splits if_splits elim!: ebind_InrE)
  from 2 have 6: "fa = (case fixed of None \<Rightarrow> \<lparr>ncols = 0, rws = replicate (length endog) []\<rparr>
             | Some f \<Rightarrow> fixed_vals f)"
    and 7: "case fixed of None \<Rightarrow> True | Some f \<Rightarrow> \<not> fixed_mismatch (length endog) (fixed_vals f)"
    by (auto simp: Let_def split: option.splits if_splits)
  show ?thesis using 1 4 5 6 7 by blast
qed

lemma Max_insert_Un:
  assumes "finite A" "A \<noteq> {}" "finite S"
  shows "Max (insert acc (A \<union> S)) = Max (insert (max (Max A) (acc::int)) S)"
proof (cases "S = {}")
  case True
  then show ?thesis using assms by (simp add: max.commute)
next
  case False
  have "Max (insert acc (A \<union> S)) = max acc (Max (A \<union> S))"
    using assms by simp
  also have "\<dots> = max acc (max (Max A) (Max S))"
    using assms False by (simp add: Max_Un)
  also have "\<dots> = max (max (Max A) acc) (Max S)"
    by (simp add: max.assoc max.left_commute max.commute)
  also have "\<dots> = Max (insert (max (Max A) acc) S)"
    using assms False by simp
  finally show ?thesis .
qed

lemma max_order_of_Inr:
  "max_order_of d acc = Inr r \<Longrightarrow>
     list_all (\<lambda>e. snd e \<noteq> []) d \<and> r = Max (set (acc # concat (map snd d)))"
proof (induction d arbitrary: acc)
  case Nil then show ?case by simp
next
  case (Cons e d)
  obtain k ls where e: "e = (k, ls)" by (cases e)
  from Cons.prems obtain v where v: "py_max ls = Inr v" and r: "max_order_of d (max v acc) = Inr r"
    by (auto simp: e elim!: ebind_InrE)
  from v have ne: "ls \<noteq> []" by (auto simp: py_max_def)
  then have vm: "v = Max (set ls)" using v by (simp add: py_max_Max)
  from Cons.IH[OF r] have ih: "list_all (\<lambda>e. snd e \<noteq> []) d"
    "r = Max (set (max v acc # concat (map snd d)))" by auto
  have "Max (set (max v acc # concat (map snd d))) = Max (set (acc # concat (map snd (e # d))))"
  proof -
    have "set (acc # concat (map snd (e # d))) = insert acc (set ls \<union> set (concat (map snd d)))"
      by (auto simp: e)
    moreover have "set (max v acc # concat (map snd d))
                     = insert (max (Max (set ls)) acc) (set (concat (map snd d)))"
      by (simp add: vm)
    ultimately show ?thesis
      using Max_insert_Un[of "set ls" "set (concat (map snd d))" acc] ne by simp
  qed
  then show ?case using ih ne by (simp add: e)
qed

lemma dict_set_nonempty: "dict_set d k v \<noteq> []"
  by (cases d) (auto split: if_splits)

lemma dict_set_all:
  "list_all P (map snd d) \<Longrightarrow> P v \<Longrightarrow> list_all P (map snd (dict_set d k v))"
  by (induction d) auto

lemma format_exog_loop_rows:
  "format_exog_loop kstr ex mo ord acc = Inr res \<Longrightarrow>
   list_all (\<lambda>b. mo < int (nrows b)) (map snd (fst acc)) \<Longrightarrow>
   list_all (\<lambda>b. mo < int (nrows b)) (map snd (fst res))
   \<and> (ord \<noteq> [] \<or> fst acc \<noteq> [] \<longrightarrow> fst res \<noteq> [])"
proof (induction ord arbitrary: acc)
  case Nil then show ?case by simp
next
  case (Cons e ord)
  obtain key ls where e: "e = (key, ls)" by (cases e)
  obtain els ens where acc: "acc = (els, ens)" by (cases acc)
  from Cons.prems(1) obtain col lagged blk where
    c: "exog_col ex key = Inr col" and l: "lagmat col mo True = Inr lagged"
    and t: "take_cols lagged ls = Inr blk"
    and r: "format_exog_loop kstr ex mo ord
              (dict_set els key blk,
               dict_set ens key (lag_names (if frame ex then kstr key else ''x'' @ kstr key) ls))
            = Inr res"
    by (auto simp: e acc elim!: ebind_InrE)
  have "mo < int (nrows blk)" using lagmat_Inr(2,3)[OF l] take_cols_Inr(2)[OF t] by simp
  then have "list_all (\<lambda>b. mo < int (nrows b)) (map snd (dict_set els key blk))"
    using Cons.prems(2) by (simp add: acc dict_set_all)
  from Cons.IH[OF r] this show ?case by (simp add: dict_set_nonempty)
qed

lemma format_exog_rows:
  assumes "format_exog kstr exog order = Inr (blocks, names)"
    and "max_order_of order 0 = Inr mo"
  shows "list_all (\<lambda>b. mo < int (nrows b)) (map snd blocks)" "order \<noteq> [] \<longrightarrow> blocks \<noteq> []"
proof -
  show "list_all (\<lambda>b. mo < int (nrows b)) (map snd blocks)"
  proof (cases "order = []")
    case True then show ?thesis using assms by (simp add: format_exog_def)
  next
    case False
    then obtain ex where "format_exog_loop kstr ex mo order ([], []) = Inr (blocks, names)"
      using assms by (auto simp: format_exog_def split: option.splits)
    from format_exog_loop_rows[OF this] show ?thesis by simp
  qed
  show "order \<noteq> [] \<longrightarrow> blocks \<noteq> []"
  proof
    assume ne: "order \<noteq> []"
    then obtain ex where "format_exog_loop kstr ex mo order ([], []) = Inr (blocks, names)"
      using assms by (auto simp: format_exog_def split: option.splits)
    from format_exog_loop_rows[OF this] ne show "blocks \<noteq> []" by simp
  qed
qed

lemma slice_idx_nonneg: "0 \<le> i \<Longrightarrow> slice_idx n i = min (nat i) n"
  by (simp add: slice_idx_def)

lemma x_rows_length: "view_ok st \<Longrightarrow> (case snd st of View lo n \<Rightarrow> length (x_rows st) = n | Local a \<Rightarrow> True)"
  by (auto simp: view_ok_def x_rows_def nrows_def split: xref.splits)

lemma x_rows_put:
  assumes "view_ok st" "length rs = length (x_rows st)"
  shows "x_rows (x_put st rs) = rs" "view_ok (x_put st rs)" "x_ncols (x_put st rs) = x_ncols st"
  using assms
  by (auto simp: view_ok_def x_rows_def x_put_def x_ncols_def nrows_def split: xref.splits)

lemma x_put_put:
  assumes "view_ok st" "length rs = length (x_rows st)"
  shows "x_put (x_put st rs) rs' = x_put st rs'"
  using assms
  by (auto simp: view_ok_def x_rows_def x_put_def nrows_def split: xref.splits)

lemma x_put_same: "x_put st (x_rows st) = st"
proof (cases st)
  case (Pair sx r)
  show ?thesis
  proof (cases r)
    case (View lo n)
    have "take n (drop lo (rws sx)) @ drop (lo + n) (rws sx) = drop lo (rws sx)"
      using append_take_drop_id[of n "drop lo (rws sx)"] by (simp add: add.commute)
    then show ?thesis by (simp add: Pair View x_put_def x_rows_def)
  next
    case (Local a)
    then show ?thesis by (simp add: Pair x_put_def x_rows_def)
  qed
qed

lemma getitem_ok: "0 \<le> i \<Longrightarrow> nat i < length xs \<Longrightarrow> getitem xs i = Inr (xs ! nat i)"
  by (auto simp: getitem_def py_idx_def)

lemma setitem_ok: "0 \<le> i \<Longrightarrow> nat i < length xs \<Longrightarrow> setitem xs i v = Inr (xs[nat i := v])"
  by (auto simp: setitem_def py_idx_def)

lemma x_setitem_ok:
  assumes "0 \<le> i" "nat i < length (x_rows st)" "0 \<le> c" "nat c < length (x_rows st ! nat i)"
  shows "x_setitem st i c v
           = Inr (x_put st ((x_rows st)[nat i := (x_rows st ! nat i)[nat c := v]]))"
  using assms by (simp add: x_setitem_def getitem_ok setitem_ok)

lemma put_lags_length [simp]: "length (put_lags src c lags row) = length row"
  by (induction lags arbitrary: c row) auto

lemma walk_lags_ok:
  assumes "view_ok st" "0 \<le> i" "nat i < length (x_rows st)"
    and "\<forall>lag\<in>set lags.
           (ds \<le> i - lag \<longrightarrow> 0 \<le> i - lag \<and> nat (i - lag) < length fcasts)
         \<and> (\<not> ds \<le> i - lag \<longrightarrow> 0 \<le> start + i - lag
                                  \<and> nat (start + i - lag) < length endog)"
    and "0 \<le> offset + j" "nat (offset + j) + length lags \<le> length (x_rows st ! nat i)"
  shows "walk_lags endog start ds fcasts offset i j lags st
           = Inr (x_put st ((x_rows st)[nat i :=
                    put_lags (lag_source endog fcasts start ds i) (nat (offset + j)) lags
                      (x_rows st ! nat i)]))"
  using assms
proof (induction lags arbitrary: j st)
  case Nil
  then show ?case by (simp add: x_put_same)
next
  case (Cons lag lags)
  let ?rows = "x_rows st"
  let ?v = "lag_source endog fcasts start ds i lag"
  have rd: "(if i - lag \<ge> ds then getitem fcasts (i - lag) else getitem endog (start + (i - lag)))
              = Inr ?v"
    using Cons.prems(4) by (auto simp: lag_source_def getitem_ok add_diff_eq)
  have c: "nat (offset + j) < length (?rows ! nat i)" using Cons.prems(6) by simp
  let ?rows1 = "?rows[nat i := (?rows ! nat i)[nat (offset + j) := ?v]]"
  let ?st1 = "x_put st ?rows1"
  have s1: "x_setitem st i (offset + j) ?v = Inr ?st1"
    using x_setitem_ok[OF Cons.prems(2,3,5) c] .
  have len1: "length ?rows1 = length ?rows" by simp
  have r1: "x_rows ?st1 = ?rows1" "view_ok ?st1"
    using x_rows_put[OF Cons.prems(1) len1] by auto
  have "walk_lags endog start ds fcasts offset i (j + 1) lags ?st1
           = Inr (x_put ?st1 ((x_rows ?st1)[nat i :=
                    put_lags (lag_source endog fcasts start ds i) (nat (offset + (j + 1))) lags
                      (x_rows ?st1 ! nat i)]))"
    using Cons.prems by (intro Cons.IH) (auto simp: r1)
  also have "\<dots> = Inr (x_put st (?rows[nat i :=
                    put_lags (lag_source endog fcasts start ds i) (nat (offset + j)) (lag # lags)
                      (?rows ! nat i)]))"
  proof -
    have "nat (offset + (j + 1)) = Suc (nat (offset + j))" using Cons.prems(5) by simp
    then show ?thesis using Cons.prems(3)
      by (simp add: r1 x_put_put[OF Cons.prems(1) len1])
  qed
  finally show ?case using rd s1 by (simp add: Let_def)
qed


lemma walk_rows_ok:
  assumes "view_ok st" "length fc = length (x_rows st)"
    and "list_all (\<lambda>r. length r = length params) (x_rows st)"
    and "0 \<le> offset" "nat offset + length lags \<le> length params"
    and "\<forall>i\<in>set is. 0 \<le> i \<and> nat i < length (x_rows st)
           \<and> (\<forall>lag\<in>set lags.
                (ds \<le> i - lag \<longrightarrow> 0 \<le> i - lag \<and> nat (i - lag) < length (x_rows st))
              \<and> (\<not> ds \<le> i - lag \<longrightarrow> 0 \<le> start + i - lag
                                       \<and> nat (start + i - lag) < length endog))"
  shows "walk_rows endog lags params start ds offset is (st, fc)
           = Inr (x_put st (fst (fold (walk_step endog lags params start ds (nat offset)) is
                                  (x_rows st, fc))),
                  snd (fold (walk_step endog lags params start ds (nat offset)) is
                         (x_rows st, fc)))"
  using assms
proof (induction "is" arbitrary: st fc)
  case Nil
  then show ?case by (simp add: x_put_same)
next
  case (Cons i "is")
  let ?rows = "x_rows st"
  let ?row = "put_lags (lag_source endog fc start ds i) (nat offset) lags (?rows ! nat i)"
  let ?rows1 = "?rows[nat i := ?row]"
  let ?st1 = "x_put st ?rows1"
  let ?fc1 = "fc[nat i := dotval ?row params]"
  have i: "0 \<le> i" "nat i < length ?rows" using Cons.prems(6) by auto
  have rl: "length (?rows ! nat i) = length params"
    using Cons.prems(3) i by (simp add: list_all_length)
  have wl: "walk_lags endog start ds fc offset i 0 lags st = Inr ?st1"
    using walk_lags_ok[OF Cons.prems(1) i, of lags ds fc start endog offset 0]
      Cons.prems(2,4,5,6) rl by simp
  have len1: "length ?rows1 = length ?rows" by simp
  have r1: "x_rows ?st1 = ?rows1" "view_ok ?st1"
    using x_rows_put[OF Cons.prems(1) len1] by auto
  have g: "getitem (x_rows ?st1) i = Inr ?row" using i by (simp add: r1 getitem_ok)
  have d: "dot ?row params = Inr (dotval ?row params)" using rl by (simp add: dot_def)
  have s: "setitem fc i (dotval ?row params) = Inr ?fc1"
    using i Cons.prems(2) by (simp add: setitem_ok)
  have all1: "list_all (\<lambda>r. length r = length params) ?rows1"
    using Cons.prems(3) rl i by (simp add: list_all_length nth_list_update)
  have ih: "walk_rows endog lags params start ds offset is (?st1, ?fc1)
           = Inr (x_put ?st1 (fst (fold (walk_step endog lags params start ds (nat offset)) is
                                  (x_rows ?st1, ?fc1))),
                  snd (fold (walk_step endog lags params start ds (nat offset)) is
                         (x_rows ?st1, ?fc1)))"
    using Cons.prems(2,4,5,6) all1 r1 by (intro Cons.IH) (auto simp: r1)
  have st: "walk_step endog lags params start ds (nat offset) i (?rows, fc) = (?rows1, ?fc1)"
    by (simp add: walk_step_def Let_def)
  show ?case
    using wl g d s ih by (simp add: st r1 x_put_put[OF Cons.prems(1) len1])
qed

lemma put_lags_cong:
  "\<forall>lag\<in>set lags. src lag = src' lag \<Longrightarrow> put_lags src c lags row = put_lags src' c lags row"
  by (induction lags arbitrary: c row) auto

lemma put_lags_nth:
  "c + length lags \<le> length row \<Longrightarrow> k < length row \<Longrightarrow>
   put_lags src c lags row ! k
     = (if c \<le> k \<and> k < c + length lags then src (lags ! (k - c)) else row ! k)"
proof (induction lags arbitrary: c row)
  case Nil then show ?case by auto
next
  case (Cons lag lags)
  have "put_lags src (Suc c) lags (row[c := src lag]) ! k
      = (if Suc c \<le> k \<and> k < Suc c + length lags then src (lags ! (k - Suc c))
         else row[c := src lag] ! k)"
    using Cons.prems by (intro Cons.IH) auto
  then show ?case using Cons.prems
    by (auto simp: nth_list_update nth_Cons' Suc_diff_Suc split: if_splits)
qed


lemma lag_source_cong:
  assumes "1 \<le> lag" "0 \<le> ds" "\<forall>k. nat ds \<le> k \<and> int k < i \<longrightarrow> fc ! k = fc' ! k"
  shows "lag_source endog fc start ds i lag = lag_source endog fc' start ds i lag"
proof (cases "ds \<le> i - lag")
  case True
  then have "nat ds \<le> nat (i - lag) \<and> int (nat (i - lag)) < i" using assms(1,2) by auto
  then show ?thesis using assms(3) True by (simp add: lag_source_def)
next
  case False then show ?thesis by (simp add: lag_source_def)
qed

lemma walk_fold_inv:
  fixes ds :: int and m :: nat
  assumes "0 \<le> ds" "length fc = length rs" "\<forall>lag\<in>set lags. 1 \<le> lag"
    and "nat ds + m \<le> length rs"
    and "r = fold (walk_step endog lags params start ds offset) [ds .. ds + int m - 1] (rs, fc)"
  shows "length (fst r) = length rs \<and> length (snd r) = length rs
     \<and> (\<forall>i. ds \<le> i \<and> i < ds + int m \<longrightarrow>
           fst r ! nat i = put_lags (lag_source endog (snd r) start ds i) offset lags (rs ! nat i)
         \<and> snd r ! nat i = dotval (fst r ! nat i) params)
     \<and> (\<forall>k<length rs. k < nat ds \<or> nat ds + m \<le> k \<longrightarrow>
           fst r ! k = rs ! k \<and> snd r ! k = fc ! k)"
  using assms(4,5)
proof (induction m arbitrary: r)
  case 0
  have e: "[ds .. ds + int 0 - 1] = []" by simp
  have r: "r = (rs, fc)" using 0(2) unfolding e by simp
  have "\<not> (ds \<le> i \<and> i < ds + int 0)" for i by simp
  then show ?case unfolding r fst_conv snd_conv using assms(2) by blast
next
  case (Suc m)
  let ?step = "walk_step endog lags params start ds offset"
  define r0 where "r0 = fold ?step [ds .. ds + int m - 1] (rs, fc)"
  define i0 where "i0 = ds + int m"
  have le: "nat ds + m \<le> length rs" using Suc.prems by simp
  note ih = Suc.IH[OF le r0_def]
  have ih1: "length (fst r0) = length rs" "length (snd r0) = length rs" using ih by blast+
  have ih2: "fst r0 ! nat i = put_lags (lag_source endog (snd r0) start ds i) offset lags (rs ! nat i)"
    "snd r0 ! nat i = dotval (fst r0 ! nat i) params" if "ds \<le> i" "i < ds + int m" for i
    using ih that by blast+
  have ih3: "fst r0 ! k = rs ! k" "snd r0 ! k = fc ! k"
    if "k < length rs" "k < nat ds \<or> nat ds + m \<le> k" for k
    using ih that by blast+
  have up: "[ds .. ds + int (Suc m) - 1] = [ds .. ds + int m - 1] @ [i0]"
    using upto_rec2[of ds i0] by (simp add: i0_def)
  define row where "row = put_lags (lag_source endog (snd r0) start ds i0) offset lags (fst r0 ! nat i0)"
  define fc' where "fc' = (snd r0)[nat i0 := dotval row params]"
  have r': "r = ((fst r0)[nat i0 := row], fc')"
    unfolding Suc.prems(2) up fold_append comp_apply r0_def[symmetric]
    by (simp add: walk_step_def Let_def row_def fc'_def)
  have n0: "nat i0 = nat ds + m" using assms(1) by (simp add: nat_add_distrib i0_def)
  have i0: "nat i0 < length rs" using Suc.prems n0 by simp
  have unch: "fst r0 ! nat i0 = rs ! nat i0" using ih3(1)[OF i0] n0 by simp
  have same: "\<forall>k. nat ds \<le> k \<and> int k < i \<longrightarrow> snd r0 ! k = fc' ! k" if "i \<le> i0" for i
  proof (intro allI impI)
    fix k assume "nat ds \<le> k \<and> int k < i"
    then have "k \<noteq> nat i0" using that by arith
    then show "snd r0 ! k = fc' ! k" by (simp add: fc'_def)
  qed
  have cong: "put_lags (lag_source endog (snd r0) start ds i) offset lags rw
                = put_lags (lag_source endog fc' start ds i) offset lags rw" if "i \<le> i0" for i rw
  proof (rule put_lags_cong, rule ballI)
    fix lag assume "lag \<in> set lags"
    then have "1 \<le> lag" using assms(3) by blast
    then show "lag_source endog (snd r0) start ds i lag = lag_source endog fc' start ds i lag"
      using assms(1) same[OF that] by (rule lag_source_cong)
  qed
  have row_eq: "row = put_lags (lag_source endog fc' start ds i0) offset lags (rs ! nat i0)"
    unfolding row_def unch by (rule cong) simp
  have A: "length (fst r) = length rs" "length (snd r) = length rs"
    by (simp_all add: r' ih1 fc'_def)
  have B: "fst r ! nat i = put_lags (lag_source endog (snd r) start ds i) offset lags (rs ! nat i)
         \<and> snd r ! nat i = dotval (fst r ! nat i) params" if a: "ds \<le> i \<and> i < ds + int (Suc m)" for i
  proof (cases "i = i0")
    case True
    have "fst r ! nat i0 = row" using i0 by (simp add: r' ih1)
    moreover have "snd r ! nat i0 = dotval row params" using i0 by (simp add: r' fc'_def ih1)
    ultimately show ?thesis using row_eq by (simp add: True r')
  next
    case False
    then have lt: "ds \<le> i" "i < ds + int m" using a by (simp_all add: i0_def)
    then have ne: "nat i \<noteq> nat i0" using assms(1) by (auto simp: i0_def)
    have f: "fst r ! nat i = fst r0 ! nat i" using ne by (simp add: r')
    have s: "snd r ! nat i = snd r0 ! nat i" using ne by (simp add: r' fc'_def)
    have c: "put_lags (lag_source endog (snd r0) start ds i) offset lags (rs ! nat i)
           = put_lags (lag_source endog (snd r) start ds i) offset lags (rs ! nat i)"
      unfolding r' snd_conv by (rule cong) (use lt in \<open>simp add: i0_def\<close>)
    show ?thesis unfolding f s using ih2[OF lt] c by simp
  qed
  have C: "fst r ! k = rs ! k \<and> snd r ! k = fc ! k"
    if k: "k < length rs" "k < nat ds \<or> nat ds + Suc m \<le> k" for k
  proof -
    have ne: "k \<noteq> nat i0" using k(2) n0 by auto
    have "k < nat ds \<or> nat ds + m \<le> k" using k(2) by auto
    from ih3[OF k(1) this] show ?thesis using ne by (simp add: r' fc'_def)
  qed
  show ?case using A B C by blast
qed

section \<open>The prediction walk, characterised\<close>

lemma slice_to_take: "0 \<le> k \<Longrightarrow> slice_to xs k = take (nat k) xs"
  by (simp add: slice_to_def slice_idx_def min_def)

lemma dotval_snoc:
  "length r = length p \<Longrightarrow> dotval (r @ [v]) (p @ [c]) = num_add (dotval r p) (num_mul v c)"
  by (simp add: dotval_def)

lemma upto_hd_range: "[ds .. int n - 1] = [ds .. ds + int (n - nat ds) - 1]" if "0 \<le> ds" "ds \<le> int n"
proof -
  have "ds + int (n - nat ds) = int n" using that by simp
  then show ?thesis by simp
qed

lemma predict_walk_spec:
  fixes m :: "'k ardl"
  assumes vo: "view_ok st"
    and nc: "x_ncols st = length params"
    and rl: "list_all (\<lambda>r. length r = length params) (x_rows st)"
    and off: "ncols (self_deterministic_reg m) + length (self_lags m) \<le> length params"
    and dsd: "dynamic_start m start end dynamic = Inr ds"
    and ds: "0 \<le> ds" "ds \<le> int (length (x_rows st))"
    and en: "start + ds \<le> int (length (data_endog m))"
    and lg: "\<forall>lag\<in>set (self_lags m). 1 \<le> lag \<and> lag \<le> start + ds"
  shows "\<exists>rs fc. predict_walk m params start end dynamic st = Inr (x_put st rs, fc)
     \<and> length fc = length (x_rows st) \<and> length rs = length (x_rows st)
     \<and> (\<forall>i<nat ds. rs ! i = x_rows st ! i \<and> fc ! i = dotval (x_rows st ! i) params)
     \<and> (\<forall>i. ds \<le> i \<and> i < int (length (x_rows st)) \<longrightarrow>
           rs ! nat i = put_lags (lag_source (data_endog m) fc start ds i)
                          (ncols (self_deterministic_reg m)) (self_lags m) (x_rows st ! nat i)
         \<and> fc ! nat i = dotval (rs ! nat i) params)"
proof -
  let ?rows = "x_rows st"
  let ?n = "length ?rows"
  let ?off = "ncols (self_deterministic_reg m)"
  let ?head = "map (\<lambda>r. dotval r params) (take (nat ds) ?rows)"
  let ?fc0 = "?head @ drop (length ?head) (replicate ?n NaN)"
  let ?step = "walk_step (data_endog m) (self_lags m) params start ds ?off"
  define r where "r = fold ?step [ds .. ds + int (?n - nat ds) - 1] (?rows, ?fc0)"
  have l0: "length ?fc0 = ?n" using ds by simp
  have rd: "\<forall>i\<in>set [ds .. int ?n - 1]. 0 \<le> i \<and> nat i < length ?rows
           \<and> (\<forall>lag\<in>set (self_lags m).
                (ds \<le> i - lag \<longrightarrow> 0 \<le> i - lag \<and> nat (i - lag) < length ?rows)
              \<and> (\<not> ds \<le> i - lag \<longrightarrow> 0 \<le> start + i - lag
                                       \<and> nat (start + i - lag) < length (data_endog m)))"
  proof (intro ballI conjI impI)
    fix i assume i: "i \<in> set [ds .. int ?n - 1]"
    then show "0 \<le> i" "nat i < length ?rows" using ds by auto
    fix lag assume "lag \<in> set (self_lags m)"
    then have l: "1 \<le> lag" "lag \<le> start + ds" using lg by auto
    { assume "ds \<le> i - lag"
      then show "0 \<le> i - lag" "nat (i - lag) < length ?rows" using ds i l by auto }
    { assume "\<not> ds \<le> i - lag"
      then show "0 \<le> start + i - lag" "nat (start + i - lag) < length (data_endog m)"
        using ds i l en by auto }
  qed
  have wr: "walk_rows (data_endog m) (self_lags m) params start ds (int ?off) [ds .. int ?n - 1]
              (st, ?fc0) = Inr (x_put st (fst r), snd r)"
    unfolding r_def upto_hd_range[OF ds, symmetric]
    using walk_rows_ok[where offset = "int ?off", OF vo l0 rl _ _ rd] off by simp
  have pw: "predict_walk m params start end dynamic st = Inr (x_put st (fst r), snd r)"
    using wr by (simp add: predict_walk_def dsd matvec_def nc slice_to_take[OF ds(1)] Let_def)
  have le: "nat ds + (?n - nat ds) \<le> length ?rows" using ds by simp
  have lg1: "\<forall>lag\<in>set (self_lags m). 1 \<le> lag" using lg by blast
  note inv = walk_fold_inv[OF ds(1) l0 lg1 le r_def]
  have A: "length (snd r) = ?n" "length (fst r) = ?n" using inv by blast+
  have B: "fst r ! i = ?rows ! i \<and> snd r ! i = dotval (?rows ! i) params" if "i < nat ds" for i
  proof -
    have i: "i < ?n" using that ds by simp
    then have "fst r ! i = ?rows ! i \<and> snd r ! i = ?fc0 ! i" using inv that by blast
    moreover have "?fc0 ! i = dotval (?rows ! i) params" using that i by (simp add: nth_append)
    ultimately show ?thesis by simp
  qed
  have C: "fst r ! nat i = put_lags (lag_source (data_endog m) (snd r) start ds i)
                          ?off (self_lags m) (?rows ! nat i)
         \<and> snd r ! nat i = dotval (fst r ! nat i) params" if "ds \<le> i \<and> i < int ?n" for i
  proof -
    have "ds \<le> i \<and> i < ds + int (?n - nat ds)" using that ds by auto
    then show ?thesis using inv by blast
  qed
  show ?thesis using pw A B C by blast
qed


lemma dotval_last:
  assumes "length row = Suc k" "length params = Suc k"
  shows "dotval (row[k := v]) params
           = num_add (dotval (take k row) (take k params)) (num_mul v (params ! k))"
proof -
  have r: "row[k := v] = take k row @ [v]"
    using assms(1) by (simp add: list_eq_iff_nth_eq nth_append nth_list_update less_Suc_eq)
  have p: "params = take k params @ [params ! k]"
    using assms(2) by (simp add: list_eq_iff_nth_eq nth_append less_Suc_eq)
  have "dotval (take k row @ [v]) (take k params @ [params ! k])
          = num_add (dotval (take k row) (take k params)) (num_mul v (params ! k))"
    using assms by (intro dotval_snoc) simp
  then show ?thesis using r p by simp
qed

lemmas walk_defs =
  predict_walk_def dynamic_start_def parse_dynamic_def matvec_def dot_def dotval_def
  num_add_def num_mul_def x_rows_def x_ncols_def x_put_def x_setitem_def view_ok_def

lemma ar1_dynamic_walk:
  "predict_walk ar1_model [Num 1, Num 2] 1 3 DTrue (self_x ar1_model, View 0 3)
     = Inr ((\<lparr>ncols = 2, rws = [[Num 1, Num 1], [Num 1, Num 3], [Num 1, Num 7], [Num 1, Num 8]]\<rparr>,
             View 0 3),
            [Num 3, Num 7, Num 15])"
  by (simp add: walk_defs ar1_model_def py_defs upto.simps Let_def eval_nat_numeral)

section \<open>Predictions of the example model\<close>

lemmas predict_defs =
  predict_def prepare_prediction_def predict_range_def check_opt_def max_1step_def
  check_oos_def exceeds_def forecasting_x_def pad_x_def wrap_prediction_def

lemma ar1_in_sample_dynamic:
  "predict (\<lambda>s. s) ar1_model [Num 1, Num 2] (Some 2) (Some 3) DTrue None None None None
     = Inr (ar1_model\<lparr>self_x :=
              \<lparr>ncols = 2, rws = [[Num 1, Num 1], [Num 1, Num 2], [Num 1, Num 5], [Num 1, Num 8]]\<rparr>\<rparr>,
            [Num 5, Num 11])"
  by (simp add: predict_defs walk_defs ar1_model_def py_defs upto.simps Let_def eval_nat_numeral)

lemma ar1_rebuild_oos:
  "rebuild_x (\<lambda>s. s) ar1_model 5 4 2 None None None None
     = Inr \<lparr>ncols = 2, rws = [[Num 1, Num 16], [Num 1, NaN]]\<rparr>"
  by (simp add: rebuild_x_def oos_rows_def nan_rows_def ardl_order_def max_order_of.simps
      ar1_model_def const_process_def py_defs upto.simps upt_rec[of _ "numeral _"] upt_rec[of _ "Suc _"]
      Let_def eval_nat_numeral)


lemma ar1_forecast:
  "forecast (\<lambda>s. s) \<lparr>model = ar1_model, res_params = [Num 1, Num 2]\<rparr> 2 None None
     = Inr (\<lparr>model = ar1_model, res_params = [Num 1, Num 2]\<rparr>, [Num 33, Num 67])"
proof -
  have d: "data_orig_exog ar1_model = None" "self_order ar1_model = []"
    "ncols (self_fixed ar1_model) = 0" "self_causal ar1_model" "self_lags ar1_model = [1]"
    "length (data_endog ar1_model) = 5" "self_hold_back ar1_model = 1"
    by (simp_all add: ar1_model_def)
  have fx: "forecasting_x (\<lambda>s. s) ar1_model 5 4 2 None None None None
              = Inr (Local \<lparr>ncols = 2, rws = [[Num 1, Num 16], [Num 1, NaN]]\<rparr>)"
    by (simp add: forecasting_x_def d ar1_rebuild_oos)
  have pw: "predict_walk ar1_model [Num 1, Num 2] 5 4 DFalse
              (self_x ar1_model, Local \<lparr>ncols = 2, rws = [[Num 1, Num 16], [Num 1, NaN]]\<rparr>)
            = Inr ((self_x ar1_model, Local \<lparr>ncols = 2, rws = [[Num 1, Num 16], [Num 1, Num 33]]\<rparr>),
                   [Num 33, Num 67])"
    by (simp add: walk_defs ar1_model_def py_defs upto.simps Let_def eval_nat_numeral)
  have pr: "predict_range (\<lambda>s. s) ar1_model [Num 1, Num 2] 5 4 2 DFalse None None None None
              = Inr (ar1_model, [Num 33, Num 67])"
    by (simp add: predict_range_def check_opt_def max_1step_def check_oos_def exceeds_def d fx pw
        wrap_prediction_def py_defs)
  show ?thesis
    by (simp add: forecast_def results_predict_def predict_def prepare_prediction_def d pr Let_def)
qed

lemma forecast_unfold:
  assumes "1 \<le> steps"
  shows "forecast kstr res steps exog fixed
     = ebind (predict_range kstr (model res) (res_params res)
                (int (length (data_endog (model res))))
                (int (length (data_endog (model res))) - 1) steps DFalse None exog None fixed)
         (\<lambda>(m', p). Inr (res\<lparr>model := m'\<rparr>, p))"
proof -
  have "max (int (length (data_endog (model res))) + steps - 1
               - (int (length (data_endog (model res))) - 1)) 0 = steps"
    using assms by simp
  then show ?thesis using assms
    by (simp add: forecast_def results_predict_def predict_def prepare_prediction_def Let_def)
qed


section \<open>Integer orders\<close>


section \<open>Mapping orders\<close>

lemma not_all_int: "(\<not> list_all is_int vs) = (\<exists>v\<in>set vs. v = OtherV)"
  by (induction vs) (auto simp: is_int_def split: elem.splits)

lemma min_list_less: "xs \<noteq> [] \<Longrightarrow> (min_list xs < (b::int)) = (\<exists>l\<in>set xs. l < b)"
  by (simp add: min_list_Min Min_less_iff)

lemma check_order_seq:
  "check_order (OSeq vs) c =
     (if \<exists>v\<in>set vs. v = OtherV
      then Inl (TypeError ''sequence orders must contain non-negative integer values'')
      else if \<not> distinct (ints_of vs)
      then Inl (ValueError ''sequence orders must contain distinct non-negative values'')
      else if ints_of vs = [] then Inl (ValueError ''min() arg is an empty sequence'')
      else if \<exists>l\<in>set (ints_of vs). l < 0
      then Inl (ValueError ''sequence orders must contain distinct non-negative values'')
      else if c \<and> (\<exists>l\<in>set (ints_of vs). l < 1)
      then Inl (ValueError ''sequence orders must be strictly positive when causal is True'')
      else Inr True)"
proof -
  have d: "(length (remdups (ints_of vs)) \<noteq> length (ints_of vs)) = (\<not> distinct (ints_of vs))"
    by (simp add: length_remdups_eq remdups_id_iff_distinct)
  show ?thesis
    unfolding check_order_def order.case not_all_int Let_def d
    by (auto simp: min_list_less int_of_bool_def)
qed

lemma check_all_find:
  "check_all c m
     = (case find (\<lambda>e. isl (check_order (snd e) c)) m of
          None \<Rightarrow> Inr True
        | Some e \<Rightarrow> check_order (snd e) c)"
proof (induction m)
  case Nil show ?case by simp
next
  case (Cons e m)
  obtain k v where e: "e = (k, v)" by (cases e)
  show ?case
  proof (cases "check_order v c")
    case (Inl err) then show ?thesis by (simp add: e)
  next
    case (Inr b) then show ?thesis using Cons by (simp add: e)
  qed
qed

lemma expand_entry_inline:
  "expand_entry c
     = (\<lambda>(key, v). case v of
                      ONone \<Rightarrow> None
                    | OInt k \<Rightarrow> Some (key, [(if c then 1 else 0) .. k])
                    | ONpInt k \<Rightarrow> None
                    | OSeq vs \<Rightarrow> Some (key, ints_of vs))"
  by (auto simp: expand_entry_def int_of_bool_def fun_eq_iff split: order.splits)

text \<open>
  Claim C8. For a mapping-form order (a dictionary, so its keys are distinct) and data with
  labelled or numbered columns, \<^verbatim>\<open>_format_order\<close> does exactly this. A key of the mapping
  that is no column of the data makes it raise a \<^verbatim>\<open>ValueError\<close> whose message lists the
  offending keys, sorted. Otherwise every value is checked on its own, in the order of the
  mapping, and the first value that breaks its rule makes the call fail with the error of
  that rule: \<^verbatim>\<open>None\<close> always passes; an integer \<open>k\<close> (of Python or of NumPy) fails when
  \<open>k\<close> is below \<open>1\<close> (causal) or \<open>0\<close>; a sequence fails with a \<^verbatim>\<open>TypeError\<close> when an entry is
  no integer, and with a \<^verbatim>\<open>ValueError\<close> when two entries are equal, when it is empty, when
  an entry is negative, or when an entry is below \<open>1\<close> and the model is causal. When all
  values pass, the result holds, for each entry of the mapping in turn, nothing for
  \<^verbatim>\<open>None\<close>, the lags from \<open>1\<close> or \<open>0\<close> to \<open>k\<close> for a Python integer \<open>k\<close>, and the entries of a
  sequence as they are; a column of the data that the mapping does not mention gets no
  entry, and for such columns one \<^verbatim>\<open>SpecificationWarning\<close> is issued that lists them,
  sorted. A value that is a NumPy integer passes the check, but the call then raises a
  \<^verbatim>\<open>TypeError\<close>, since the expansion tests for \<^verbatim>\<open>int\<close> only.
\<close>

theorem mapping_order_checked:
  assumes "distinct (map fst m)"
  shows "format_order kstr (Some ex) (Mapping m) c =
     (if fst ` set m - set (columns ex) \<noteq> {}
      then Inl (ValueError
             (''order dictionary contains keys for exogenous variable(s) that are not contained in exog Extra keys: ''
               @ join '', '' (map kstr (sorted_list_of_set (fst ` set m - set (columns ex)))) @ ''.''))
      else case find (\<lambda>e. isl (check_order (snd e) c)) m of
             Some e \<Rightarrow> Inl (projl (check_order (snd e) c))
           | None \<Rightarrow>
               if \<exists>e\<in>set m. \<exists>k. snd e = ONpInt k
               then Inl (TypeError
                      ([CHR 0x27] @ ''numpy.int64'' @ [CHR 0x27] @ '' object is not iterable''))
               else
                 Inr (List.map_filter
                        (\<lambda>(key, v). case v of
                            ONone \<Rightarrow> None
                          | OInt k \<Rightarrow> Some (key, [(if c then 1 else 0) .. k])
                          | ONpInt k \<Rightarrow> None
                          | OSeq vs \<Rightarrow> Some (key, ints_of vs)) m,
                      if set (columns ex) - fst ` set m \<noteq> {}
                      then [SpecificationWarning
                             (''exog contains variables that are missing from the order dictionary.  Missing keys: ''
                               @ join '', '' (map kstr (sorted_list_of_set (set (columns ex) - fst ` set m)))
                               @ ''.'')]
                      else []))
   \<and> check_order ONone c = Inr True
   \<and> check_order (OInt k) c =
       (if k < (if c then 1 else 0)
        then Inl (ValueError (''integer orders must be at least '' @ (if c then ''1'' else ''0'')
                   @ '' when causal is '' @ (if c then ''True'' else ''False'') @ ''.''))
        else Inr True)
   \<and> check_order (ONpInt k) c = check_order (OInt k) c
   \<and> check_order (OSeq vs) c =
       (if \<exists>v\<in>set vs. v = OtherV
        then Inl (TypeError ''sequence orders must contain non-negative integer values'')
        else if \<not> distinct (ints_of vs)
        then Inl (ValueError ''sequence orders must contain distinct non-negative values'')
        else if ints_of vs = [] then Inl (ValueError ''min() arg is an empty sequence'')
        else if \<exists>l\<in>set (ints_of vs). l < 0
        then Inl (ValueError ''sequence orders must contain distinct non-negative values'')
        else if c \<and> (\<exists>l\<in>set (ints_of vs). l < 1)
        then Inl (ValueError ''sequence orders must be strictly positive when causal is True'')
        else Inr True)
   \<and> fst ` set (List.map_filter
                  (\<lambda>(key, v). case v of
                      ONone \<Rightarrow> None
                    | OInt k \<Rightarrow> Some (key, [(if c then 1 else 0) .. k])
                    | ONpInt k \<Rightarrow> None
                    | OSeq vs \<Rightarrow> Some (key, ints_of vs)) m)
       \<inter> (set (columns ex) - fst ` set m) = {}"
proof -
  have ex1: "{x \<in> set (map fst m). x \<notin> set (columns ex)} = fst ` set m - set (columns ex)"
    by auto
  have mi1: "{x \<in> set (columns ex). x \<notin> set (map fst m)} = set (columns ex) - fst ` set m"
    by auto
  have fin1: "finite (fst ` set m - set (columns ex))" by simp
  have fin2: "finite (set (columns ex) - fst ` set m)" by simp
  have a: "sort (remdups (filter (\<lambda>k. k \<notin> set (columns ex)) (map fst m)))
             = sorted_list_of_set (fst ` set m - set (columns ex))"
    using sort_remdups_filter[of "\<lambda>k. k \<notin> set (columns ex)" "map fst m"] by (simp only: ex1)
  have b: "sort (remdups (filter (\<lambda>k. k \<notin> set (map fst m)) (columns ex)))
             = sorted_list_of_set (set (columns ex) - fst ` set m)"
    using sort_remdups_filter[of "\<lambda>k. k \<notin> set (map fst m)" "columns ex"] by (simp only: mi1)
  have e1: "(sorted_list_of_set (fst ` set m - set (columns ex)) = [])
              = (fst ` set m - set (columns ex) = {})"
    using fin1 by (simp only: sorted_list_of_set_eq_Nil_iff)
  have e2: "(sorted_list_of_set (set (columns ex) - fst ` set m) = [])
              = (set (columns ex) - fst ` set m = {})"
    using fin2 by (simp only: sorted_list_of_set_eq_Nil_iff)
  have np: "list_ex (\<lambda>e. case snd e of ONpInt k \<Rightarrow> True | _ \<Rightarrow> False) m
              = (\<exists>e\<in>set m. \<exists>k. snd e = ONpInt k)"
  proof -
    have "(case v of ONpInt k \<Rightarrow> True | _ \<Rightarrow> False) = (\<exists>k. v = ONpInt k)" for v
      by (cases v) simp_all
    then show ?thesis by (simp add: list_ex_iff)
  qed
  have chk: "ebind (check_all c m) f
      = (case find (\<lambda>e. isl (check_order (snd e) c)) m of
           Some e \<Rightarrow> Inl (projl (check_order (snd e) c))
         | None \<Rightarrow> f True)" for f :: "bool \<Rightarrow> error + (('a \<times> int list) list \<times> warning list)"
  proof (cases "find (\<lambda>e. isl (check_order (snd e) c)) m")
    case None then show ?thesis by (simp add: check_all_find)
  next
    case (Some e)
    then have "isl (check_order (snd e) c)" by (auto simp: find_Some_iff)
    then obtain err where "check_order (snd e) c = Inl err" by (cases "check_order (snd e) c") auto
    then show ?thesis using Some by (simp add: check_all_find)
  qed
  have main: "format_order kstr (Some ex) (Mapping m) c =
     (if fst ` set m - set (columns ex) \<noteq> {}
      then Inl (ValueError
             (''order dictionary contains keys for exogenous variable(s) that are not contained in exog Extra keys: ''
               @ join '', '' (map kstr (sorted_list_of_set (fst ` set m - set (columns ex)))) @ ''.''))
      else case find (\<lambda>e. isl (check_order (snd e) c)) m of
             Some e \<Rightarrow> Inl (projl (check_order (snd e) c))
           | None \<Rightarrow>
               if \<exists>e\<in>set m. \<exists>k. snd e = ONpInt k
               then Inl (TypeError
                      ([CHR 0x27] @ ''numpy.int64'' @ [CHR 0x27] @ '' object is not iterable''))
               else
                 Inr (List.map_filter (expand_entry c) m,
                      if set (columns ex) - fst ` set m \<noteq> {}
                      then [SpecificationWarning
                             (''exog contains variables that are missing from the order dictionary.  Missing keys: ''
                               @ join '', '' (map kstr (sorted_list_of_set (set (columns ex) - fst ` set m)))
                               @ ''.'')]
                      else []))"
  proof -
    have eo: "expand_order c m
       = (if \<exists>e\<in>set m. \<exists>k. snd e = ONpInt k
          then Inl (TypeError
                 ([CHR 0x27] @ ''numpy.int64'' @ [CHR 0x27] @ '' object is not iterable''))
          else Inr (List.map_filter (expand_entry c) m))"
      by (simp only: expand_order_eq[OF assms] np)
    show ?thesis
      unfolding format_order_def option.case ardl_order.case Let_def a b e1 e2 chk
      by (cases "\<exists>e\<in>set m. \<exists>k. snd e = ONpInt k") (simp_all add: eo split: option.splits)
  qed
  have excl: "fst ` set (List.map_filter (expand_entry c) m)
                \<inter> (set (columns ex) - fst ` set m) = {}"
    using expand_keys_subset[of c m] by auto
  have r1: "check_order ONone c = Inr True" by (simp add: check_order_def)
  have r2: "check_order (OInt k) c =
       (if k < (if c then 1 else 0)
        then Inl (ValueError (''integer orders must be at least '' @ (if c then ''1'' else ''0'')
                   @ '' when causal is '' @ (if c then ''True'' else ''False'') @ ''.''))
        else Inr True)"
    by (simp add: check_order_def int_of_bool_def str_bool_def str_int_def str_nat.simps digit_def)
  have r3: "check_order (ONpInt k) c = check_order (OInt k) c" by (simp add: check_order_def)
  show ?thesis
    using main[unfolded expand_entry_inline] excl[unfolded expand_entry_inline] r1 r2 r3
      check_order_seq[of vs c]
    by (intro conjI)
qed

theorem mapping_order_checked_witness:
  "distinct (map fst [(''x'', OInt 1)])
   \<and> format_order (\<lambda>s. s)
       (Some \<lparr>frame = True, columns = [''x'', ''w''], vals = \<lparr>ncols = 2, rws = []\<rparr>\<rparr>)
       (Mapping [(''x'', OInt 1)]) False
     = Inr ([(''x'', [0, 1])],
            [SpecificationWarning
              ''exog contains variables that are missing from the order dictionary.  Missing keys: w.''])
   \<and> distinct (map fst [(''z'', OInt 1), (''a'', ONone)])
   \<and> format_order (\<lambda>s. s)
       (Some \<lparr>frame = True, columns = [''x'', ''w''], vals = \<lparr>ncols = 2, rws = []\<rparr>\<rparr>)
       (Mapping [(''z'', OInt 1), (''a'', ONone)]) False
     = Inl (ValueError
         ''order dictionary contains keys for exogenous variable(s) that are not contained in exog Extra keys: a, z.'')
   \<and> distinct (map fst [(''x'', OSeq [IntV 2, IntV 2]), (''w'', OInt (- 1))])
   \<and> format_order (\<lambda>s. s)
       (Some \<lparr>frame = True, columns = [''x'', ''w''], vals = \<lparr>ncols = 2, rws = []\<rparr>\<rparr>)
       (Mapping [(''x'', OSeq [IntV 2, IntV 2]), (''w'', OInt (- 1))]) False
     = Inl (ValueError ''sequence orders must contain distinct non-negative values'')
   \<and> distinct (map fst [(''x'', ONpInt 1)])
   \<and> format_order (\<lambda>s. s)
       (Some \<lparr>frame = True, columns = [''x'', ''w''], vals = \<lparr>ncols = 2, rws = []\<rparr>\<rparr>)
       (Mapping [(''x'', ONpInt 1)]) False
     = Inl (TypeError ([CHR 0x27] @ ''numpy.int64'' @ [CHR 0x27] @ '' object is not iterable''))"
proof -
  let ?ex = "\<lparr>frame = True, columns = [''x'', ''w''], vals = \<lparr>ncols = 2, rws = []\<rparr>\<rparr>"
  have h1: "distinct (map fst [(''x'', OInt 1)])" by simp
  have h2: "distinct (map fst [(''z'', OInt 1), (''a'', ONone)])" by simp
  have h3: "distinct (map fst [(''x'', OSeq [IntV 2, IntV 2]), (''w'', OInt (- 1))])" by simp
  have h4: "distinct (map fst [(''x'', ONpInt 1)])" by simp
  have s1: "fst ` set [(''x'', OInt 1)] - set [''x'', ''w''] = {}" by simp
  have s2: "sorted_list_of_set (set [''x'', ''w''] - fst ` set [(''x'', OInt 1)]) = [''w'']"
    by code_simp
  have s2': "set [''x'', ''w''] - fst ` set [(''x'', OInt 1)] \<noteq> {}" by simp
  have s3: "sorted_list_of_set (fst ` set [(''z'', OInt 1), (''a'', ONone)] - set [''x'', ''w'']) = [''a'', ''z'']"
    by code_simp
  have s3': "fst ` set [(''z'', OInt 1), (''a'', ONone)] - set [''x'', ''w''] \<noteq> {}" by simp
  have s4: "fst ` set [(''x'', OSeq [IntV 2, IntV 2]), (''w'', OInt (- 1))] - set [''x'', ''w''] = {}"
    by simp
  have s5: "fst ` set [(''x'', ONpInt 1)] - set [''x'', ''w''] = {}" by simp
  have s6: "sorted_list_of_set (set [''x'', ''w''] - fst ` set [(''x'', ONpInt 1)]) = [''w'']"
    by code_simp
  have c1: "check_order (OInt 1) False = Inr True" "check_order (ONpInt 1) False = Inr True"
    "check_order (OSeq [IntV 2, IntV 2]) False
       = Inl (ValueError ''sequence orders must contain distinct non-negative values'')"
    by (simp_all add: check_order_def int_of_bool_def is_int_def)
  have t1: "format_order (\<lambda>s. s) (Some ?ex) (Mapping [(''x'', OInt 1)]) False
     = Inr ([(''x'', [0, 1])],
            [SpecificationWarning
              ''exog contains variables that are missing from the order dictionary.  Missing keys: w.''])"
    using mapping_order_checked [OF h1, of "\<lambda>s. s" ?ex False, THEN conjunct1]
    unfolding exog.simps s1 s2
    using s2' by (simp add: c1 map_filter_def upto.simps)
  have t2: "format_order (\<lambda>s. s) (Some ?ex) (Mapping [(''z'', OInt 1), (''a'', ONone)]) False
     = Inl (ValueError
         ''order dictionary contains keys for exogenous variable(s) that are not contained in exog Extra keys: a, z.'')"
    using mapping_order_checked [OF h2, of "\<lambda>s. s" ?ex False, THEN conjunct1]
    unfolding exog.simps s3
    using s3' by simp
  have t3: "format_order (\<lambda>s. s) (Some ?ex)
       (Mapping [(''x'', OSeq [IntV 2, IntV 2]), (''w'', OInt (- 1))]) False
     = Inl (ValueError ''sequence orders must contain distinct non-negative values'')"
    using mapping_order_checked [OF h3, of "\<lambda>s. s" ?ex False, THEN conjunct1]
    unfolding exog.simps s4
    by (simp add: c1)
  have t4: "format_order (\<lambda>s. s) (Some ?ex) (Mapping [(''x'', ONpInt 1)]) False
     = Inl (TypeError ([CHR 0x27] @ ''numpy.int64'' @ [CHR 0x27] @ '' object is not iterable''))"
    using mapping_order_checked [OF h4, of "\<lambda>s. s" ?ex False, THEN conjunct1]
    unfolding exog.simps s5
    by (simp add: c1)
  show ?thesis using h1 h2 h3 h4 t1 t2 t3 t4 by (intro conjI)
qed

section \<open>The bound on one-step forecasts\<close>

lemma min_lags_of_eq:
  "list_all (\<lambda>e. snd e \<noteq> []) d \<Longrightarrow> min_lags_of d = Inr (map (\<lambda>e. Min (set (snd e))) d)"
proof (induction d)
  case Nil show ?case by simp
next
  case (Cons e d)
  obtain k ls where e: "e = (k, ls)" by (cases e)
  show ?case using Cons by (simp add: e py_min_Min)
qed

lemma Min_concat:
  "d \<noteq> [] \<Longrightarrow> list_all (\<lambda>e. snd e \<noteq> []) d \<Longrightarrow>
   Min (set (map (\<lambda>e. Min (set (snd e))) d)) = Min (set (concat (map snd d)))"
proof (induction d)
  case Nil then show ?case by simp
next
  case (Cons e d)
  show ?case
  proof (cases "d = []")
    case True then show ?thesis by simp
  next
    case False
    have ne: "set (concat (map snd d)) \<noteq> {}" using False Cons.prems(2)
      by (cases d) auto
    have "Min (set (concat (map snd (e # d))))
            = min (Min (set (snd e))) (Min (set (concat (map snd d))))"
      using Cons.prems(2) ne by (simp add: Min_Un)
    moreover have "Min (set (map (\<lambda>e. Min (set (snd e))) (e # d)))
        = min (Min (set (snd e))) (Min (set (map (\<lambda>e. Min (set (snd e))) d)))"
      using False by simp
    ultimately show ?thesis using Cons.IH[OF False] Cons.prems(2) by simp
  qed
qed

lemma max_1step_eq:
  assumes "list_all (\<lambda>e. snd e \<noteq> []) (self_order m)"
  shows "max_1step m = Inr
     (if 0 < ncols (self_fixed m) \<or> \<not> self_causal m then Finite 0
      else if self_lags m = [] \<and> self_order m = [] then Infinity
      else Finite (Min (set (self_lags m @ concat (map snd (self_order m))))))"
proof (cases "0 < ncols (self_fixed m) \<or> \<not> self_causal m")
  case True then show ?thesis by (simp add: max_1step_def)
next
  case False
  note F = False
  show ?thesis
  proof (cases "self_order m = []")
    case True
    then show ?thesis using F by (simp add: max_1step_def py_min_Min)
  next
    case False
    have ne: "set (concat (map snd (self_order m))) \<noteq> {}" using False assms
      by (cases "self_order m") auto
    have a: "min_lags_of (self_order m) = Inr (map (\<lambda>e. Min (set (snd e))) (self_order m))"
      by (rule min_lags_of_eq[OF assms])
    have b: "py_min (map (\<lambda>e. Min (set (snd e))) (self_order m))
               = Inr (Min (set (concat (map snd (self_order m)))))"
      using False Min_concat[OF False assms] by (simp add: py_min_Min)
    show ?thesis
    proof (cases "self_lags m = []")
      case True
      then show ?thesis using F False a b by (simp add: max_1step_def bound_min_def)
    next
      case L: False
      have "Min (set (self_lags m @ concat (map snd (self_order m))))
              = min (Min (set (self_lags m))) (Min (set (concat (map snd (self_order m)))))"
        using L ne by (simp add: Min_Un)
      then show ?thesis using F False L a b
        by (simp add: max_1step_def bound_min_def py_min_Min)
    qed
  qed
qed

lemma isl_ebind: "isl (ebind a f) = (isl a \<or> (\<exists>v. a = Inr v \<and> isl (f v)))"
  by (cases a) simp_all

lemma check_opt_None: "check_opt f a = Inr r \<Longrightarrow> (r = None) = (a = None)"
  by (cases a) (auto simp: check_opt_def split: sum.splits elim: ebind.elims)

lemma check_oos_fails:
  assumes "exceeds num_oos b"
    and "(self_order m \<noteq> [] \<and> exog_oos = None) \<or> (0 < ncols (self_fixed m) \<and> fixed_oos = None)"
  shows "isl (check_oos m b num_oos exog_oos fixed_oos)"
  using assms by (auto simp: check_oos_def isl_ebind)

lemma predict_range_fails:
  assumes "max_1step m = Inr b" "exceeds num_oos b"
    and "(self_order m \<noteq> [] \<and> exog_oos = None) \<or> (0 < ncols (self_fixed m) \<and> fixed_oos = None)"
  shows "isl (predict_range kstr m params start end num_oos dynamic exog exog_oos fixed fixed_oos)"
proof (cases "check_opt (\<lambda>a. check_exog a (data_orig_exog m) True) exog")
  case (Inl e) then show ?thesis by (simp add: predict_range_def)
next
  case (Inr exog')
  note A = Inr
  show ?thesis
  proof (cases "check_opt (\<lambda>a. check_exog a (data_orig_exog m) False) exog_oos")
    case (Inl e) then show ?thesis using A by (simp add: predict_range_def)
  next
    case (Inr exog_oos')
    note B = Inr
    show ?thesis
    proof (cases "check_opt (\<lambda>a. check_fixed a (self_fixed m) True) fixed")
      case (Inl e) then show ?thesis using A B by (simp add: predict_range_def)
    next
      case (Inr fixed')
      note C = Inr
      show ?thesis
      proof (cases "check_opt (\<lambda>a. check_fixed a (self_fixed m) False) fixed_oos")
        case (Inl e) then show ?thesis using A B C by (simp add: predict_range_def)
      next
        case (Inr fixed_oos')
        have "(self_order m \<noteq> [] \<and> exog_oos' = None)
                \<or> (0 < ncols (self_fixed m) \<and> fixed_oos' = None)"
          using assms(3) check_opt_None[OF B] check_opt_None[OF Inr] by auto
        then have "isl (check_oos m b num_oos exog_oos' fixed_oos')"
          using check_oos_fails[OF assms(2)] by blast
        then obtain e where "check_oos m b num_oos exog_oos' fixed_oos' = Inl e"
          by (cases "check_oos m b num_oos exog_oos' fixed_oos'") auto
        then show ?thesis using A B C Inr assms(1) by (simp add: predict_range_def)
      qed
    qed
  qed
qed

text \<open>
  The lag lists of a constructed model are not empty: \<^verbatim>\<open>__init__\<close> takes the minimum of
  each of them.
\<close>

lemma min_lags_of_nonempty:
  "min_lags_of d = Inr ms \<Longrightarrow> list_all (\<lambda>e. snd e \<noteq> []) d"
proof (induction d arbitrary: ms)
  case Nil show ?case by simp
next
  case (Cons e d)
  obtain k ls where e: "e = (k, ls)" by (cases e)
  from Cons.prems obtain v where v: "py_min ls = Inr v"
    by (cases "py_min ls") (simp_all add: e)
  then have ne: "ls \<noteq> []" by (auto simp: py_min_def)
  from Cons.prems v obtain ms' where "min_lags_of d = Inr ms'"
    by (cases "min_lags_of d") (simp_all add: e)
  then show ?case using Cons.IH ne by (simp add: e)
qed

lemma ebind_Inr: "ebind a f = Inr r \<Longrightarrow> \<exists>v. a = Inr v \<and> f v = Inr r"
  by (cases a) simp_all

lemma constructed_order_nonempty:
  assumes "ARDL_init kstr endog ynames la exog ord dets fixed causal hold_back = Inr (m, ws)"
  shows "list_all (\<lambda>e. snd e \<noteq> []) (self_order m)"
proof -
  from ebind_Inr[OF assms[unfolded ARDL_init_def]] obtain u where
    s1: "ebind (case fixed of
              Some f \<Rightarrow>
                let fixed_arr = fixed_vals f in
                if fixed_mismatch (length endog) fixed_arr
                then Inl (ValueError
                       (''fixed must be an (nobs, m) array where nobs matches the ''
                         @ ''number of observations in the endog variable, and all''
                         @ ''values must be finite''))
                else Inr (fixed_arr,
                       case fixed_columns f of
                         Some cs \<Rightarrow> cs
                       | None \<Rightarrow> map (\<lambda>i. ''z.'' @ str_nat i) [0 ..< ncols fixed_arr])
            | None \<Rightarrow> Inr (\<lparr>ncols = 0, rws = replicate (length endog) []\<rparr>, []))
       (\<lambda>(fixed_arr, fixed_names).
     ebind (initialize_model kstr endog ynames exog dets fixed_arr fixed_names causal
              hold_back la ord) (\<lambda>(m, ws).
     if self_order m \<noteq> []
     then ebind (min_lags_of (self_order m)) (\<lambda>min_lags.
          ebind (py_min min_lags) (\<lambda>lo. Inr (m\<lparr>self_causal := (lo > 0)\<rparr>, ws)))
     else Inr (m\<lparr>self_causal := True\<rparr>, ws))) = Inr (m, ws)"
    by blast
  from ebind_Inr[OF s1] obtain fa fn where
    s2: "ebind (initialize_model kstr endog ynames exog dets fa fn causal
              hold_back la ord) (\<lambda>(m, ws).
     if self_order m \<noteq> []
     then ebind (min_lags_of (self_order m)) (\<lambda>min_lags.
          ebind (py_min min_lags) (\<lambda>lo. Inr (m\<lparr>self_causal := (lo > 0)\<rparr>, ws)))
     else Inr (m\<lparr>self_causal := True\<rparr>, ws)) = Inr (m, ws)"
    by auto
  from ebind_Inr[OF s2] obtain m0 ws0 where
    fin: "(if self_order m0 \<noteq> []
           then ebind (min_lags_of (self_order m0)) (\<lambda>min_lags.
                ebind (py_min min_lags) (\<lambda>lo. Inr (m0\<lparr>self_causal := (lo > 0)\<rparr>, ws0)))
           else Inr (m0\<lparr>self_causal := True\<rparr>, ws0)) = Inr (m, ws)"
    by auto
  show ?thesis
  proof (cases "self_order m0 = []")
    case True
    then show ?thesis using fin by auto
  next
    case False
    then obtain ms where ms: "min_lags_of (self_order m0) = Inr ms"
      using fin by (cases "min_lags_of (self_order m0)") simp_all
    then obtain lo where "py_min ms = Inr lo" using fin False
      by (cases "py_min ms") simp_all
    then have "m = m0\<lparr>self_causal := (lo > 0)\<rparr>" using fin False ms by simp
    then show ?thesis using min_lags_of_nonempty[OF ms] by simp
  qed
qed

text \<open>
  Claim C2. In a model whose exogenous lag lists are not empty (as in every constructed
  model), the number of out-of-sample steps that \<^verbatim>\<open>predict\<close> allows without out-of-sample
  data is \<open>0\<close> when the model has fixed regressors or is not causal, and otherwise the
  smallest of all autoregressive and exogenous lags (no bound when there is no lag at
  all). A call that asks for more steps than this bound fails when the model has exogenous
  lags and no \<open>exog_oos\<close> is given, and when it has fixed regressors and no \<open>fixed_oos\<close> is
  given; so for \<^verbatim>\<open>predict\<close> whenever the prepared range has that many steps.
\<close>

theorem one_step_bound_enforced:
  fixes m :: "'k::linorder ardl"
  defines "bnd \<equiv>
     (if 0 < ncols (self_fixed m) \<or> \<not> self_causal m then Finite 0
      else if self_lags m = [] \<and> self_order m = [] then Infinity
      else Finite (Min (set (self_lags m @ concat (map snd (self_order m))))))"
  assumes "list_all (\<lambda>e. snd e \<noteq> []) (self_order m)"
  shows "max_1step m = Inr bnd
    \<and> (exceeds num_oos bnd
         \<and> (self_order m \<noteq> [] \<and> exog_oos = None \<or> 0 < ncols (self_fixed m) \<and> fixed_oos = None)
       \<longrightarrow> isl (predict_range kstr m params start end num_oos dynamic
                  exog exog_oos fixed fixed_oos))
    \<and> (prepare_prediction (length (data_endog m)) start_arg end_arg = Inr (start, end, num_oos)
         \<and> exceeds num_oos bnd
         \<and> (self_order m \<noteq> [] \<and> exog_oos = None \<or> 0 < ncols (self_fixed m) \<and> fixed_oos = None)
       \<longrightarrow> isl (predict kstr m params start_arg end_arg dynamic exog exog_oos fixed fixed_oos))"
proof -
  have b: "max_1step m = Inr bnd" unfolding bnd_def by (rule max_1step_eq[OF assms(2)])
  have r: "isl (predict_range kstr m params start end num_oos dynamic
                  exog exog_oos fixed fixed_oos)"
    if "exceeds num_oos bnd"
      "self_order m \<noteq> [] \<and> exog_oos = None \<or> 0 < ncols (self_fixed m) \<and> fixed_oos = None"
    using predict_range_fails[OF b that(1)] that(2) by blast
  have p: "isl (predict kstr m params start_arg end_arg dynamic exog exog_oos fixed fixed_oos)"
    if "prepare_prediction (length (data_endog m)) start_arg end_arg = Inr (start, end, num_oos)"
      "exceeds num_oos bnd"
      "self_order m \<noteq> [] \<and> exog_oos = None \<or> 0 < ncols (self_fixed m) \<and> fixed_oos = None"
    using r[OF that(2,3)] that(1) by (simp add: predict_def)
  show ?thesis using b r p by blast
qed

theorem one_step_bound_enforced_witness:
  "list_all (\<lambda>e. snd e \<noteq> []) (self_order x_model)
   \<and> max_1step x_model = Inr (Finite 1)
   \<and> exceeds 2 (Finite 1)
   \<and> self_order x_model \<noteq> []
   \<and> prepare_prediction (length (data_endog x_model)) (Some 5) (Some 6) = Inr (5, 4, 2)
   \<and> isl (predict_range (\<lambda>s. s) x_model [Num 1, Num 2, Num 3] 5 4 2 DFalse None None None None)
   \<and> isl (predict (\<lambda>s. s) x_model [Num 1, Num 2, Num 3] (Some 5) (Some 6) DFalse
            None None None None)"
proof -
  have h: "list_all (\<lambda>e. snd e \<noteq> []) (self_order x_model)" by (simp add: x_model_def)
  have p: "prepare_prediction (length (data_endog x_model)) (Some 5) (Some 6) = Inr (5, 4, 2)"
    by (simp add: prepare_prediction_def x_model_def)
  have e: "exceeds 2 (Finite 1)" by (simp add: exceeds_def)
  have v: "(if 0 < ncols (self_fixed x_model) \<or> \<not> self_causal x_model then Finite 0
            else if self_lags x_model = [] \<and> self_order x_model = [] then Infinity
            else Finite (Min (set (self_lags x_model @ concat (map snd (self_order x_model))))))
           = Finite 1"
    by (simp add: x_model_def)
  have o: "self_order x_model \<noteq> []" by (simp add: x_model_def)
  show ?thesis
    using one_step_bound_enforced [OF h, of 2 None None "\<lambda>s. s" "[Num 1, Num 2, Num 3]" 5 4
            DFalse None None "Some 5" "Some 6"]
    unfolding v using h p e o by simp
qed

section \<open>Order selection\<close>

lemma ic_less_simps [simp]:
  "ic_less ICNaN b = False" "ic_less a ICNaN = False"
  "ic_less (ICNum u) (ICNum w) = (u < w)" "ic_less (ICNum u) PosInf = True"
  "ic_less PosInf b = False" "ic_less a NegInf = False"
  "ic_less NegInf (ICNum u) = True" "ic_less NegInf PosInf = True"
  by (cases a; cases b; simp add: ic_less_def)+

lemma ic_less_irrefl: "\<not> ic_less a a"
  by (cases a) simp_all

lemma ic_less_trans: "ic_less a b \<Longrightarrow> ic_less b c \<Longrightarrow> ic_less a c"
  by (cases a; cases b; cases c) simp_all

lemma ic_less_asym: "ic_less a b \<Longrightarrow> \<not> ic_less b a"
  using ic_less_trans ic_less_irrefl by blast

lemma select_loop_spec:
  "select_loop idx xs (lo, sel) = (lo', sel') \<Longrightarrow>
     (sel' = sel \<and> lo' = lo \<and> (\<forall>e\<in>set xs. \<not> ic_less (ic_pick idx (snd e)) lo))
   \<or> (\<exists>pre key v post. xs = pre @ (key, v) # post \<and> sel' = Some key \<and> lo' = ic_pick idx v
        \<and> ic_less (ic_pick idx v) lo
        \<and> (\<forall>e\<in>set pre. \<not> ic_less (ic_pick idx (snd e)) (ic_pick idx v)
                          \<and> ic_pick idx (snd e) \<noteq> ic_pick idx v)
        \<and> (\<forall>e\<in>set post. \<not> ic_less (ic_pick idx (snd e)) (ic_pick idx v)))"
proof (induction xs arbitrary: lo sel)
  case Nil then show ?case by simp
next
  case (Cons x xs)
  obtain k v where x: "x = (k, v)" by (cases x)
  let ?w = "ic_pick idx v"
  show ?case
  proof (cases "ic_less ?w lo")
    case True
    then have "select_loop idx xs (?w, Some k) = (lo', sel')"
      using Cons.prems by (simp add: x)
    from Cons.IH[OF this] show ?thesis
    proof
      assume a: "sel' = Some k \<and> lo' = ?w \<and> (\<forall>e\<in>set xs. \<not> ic_less (ic_pick idx (snd e)) ?w)"
      have "x # xs = [] @ (k, v) # xs \<and> sel' = Some k \<and> lo' = ic_pick idx v
        \<and> ic_less (ic_pick idx v) lo
        \<and> (\<forall>e\<in>set []. \<not> ic_less (ic_pick idx (snd e)) (ic_pick idx v)
                          \<and> ic_pick idx (snd e) \<noteq> ic_pick idx v)
        \<and> (\<forall>e\<in>set xs. \<not> ic_less (ic_pick idx (snd e)) (ic_pick idx v))"
        using a True by (simp add: x)
      then show ?thesis by (intro disjI2 exI)
    next
      assume "\<exists>pre key v' post. xs = pre @ (key, v') # post \<and> sel' = Some key \<and> lo' = ic_pick idx v'
        \<and> ic_less (ic_pick idx v') ?w
        \<and> (\<forall>e\<in>set pre. \<not> ic_less (ic_pick idx (snd e)) (ic_pick idx v')
                          \<and> ic_pick idx (snd e) \<noteq> ic_pick idx v')
        \<and> (\<forall>e\<in>set post. \<not> ic_less (ic_pick idx (snd e)) (ic_pick idx v'))"
      then obtain pre key v' post where b: "xs = pre @ (key, v') # post" "sel' = Some key"
        "lo' = ic_pick idx v'" "ic_less (ic_pick idx v') ?w"
        "\<forall>e\<in>set pre. \<not> ic_less (ic_pick idx (snd e)) (ic_pick idx v')
                          \<and> ic_pick idx (snd e) \<noteq> ic_pick idx v'"
        "\<forall>e\<in>set post. \<not> ic_less (ic_pick idx (snd e)) (ic_pick idx v')"
        by blast
      have 1: "x # xs = (x # pre) @ (key, v') # post" using b(1) by simp
      have 2: "ic_less (ic_pick idx v') lo" using b(4) True ic_less_trans by blast
      have 3: "\<not> ic_less ?w (ic_pick idx v')" using b(4) ic_less_asym by blast
      have 4: "?w \<noteq> ic_pick idx v'" using b(4) ic_less_irrefl by auto
      have 5: "\<forall>e\<in>set (x # pre). \<not> ic_less (ic_pick idx (snd e)) (ic_pick idx v')
                          \<and> ic_pick idx (snd e) \<noteq> ic_pick idx v'"
        using b(5) 3 4 by (simp add: x)
      have "x # xs = (x # pre) @ (key, v') # post \<and> sel' = Some key \<and> lo' = ic_pick idx v'
        \<and> ic_less (ic_pick idx v') lo
        \<and> (\<forall>e\<in>set (x # pre). \<not> ic_less (ic_pick idx (snd e)) (ic_pick idx v')
                          \<and> ic_pick idx (snd e) \<noteq> ic_pick idx v')
        \<and> (\<forall>e\<in>set post. \<not> ic_less (ic_pick idx (snd e)) (ic_pick idx v'))"
        using 1 2 5 b(2,3,6) by (intro conjI)
      then show ?thesis by (intro disjI2 exI)
    qed
  next
    case False
    then have "select_loop idx xs (lo, sel) = (lo', sel')"
      using Cons.prems by (simp add: x)
    from Cons.IH[OF this] show ?thesis
    proof
      assume "sel' = sel \<and> lo' = lo \<and> (\<forall>e\<in>set xs. \<not> ic_less (ic_pick idx (snd e)) lo)"
      then show ?thesis using False by (simp add: x)
    next
      assume "\<exists>pre key v' post. xs = pre @ (key, v') # post \<and> sel' = Some key \<and> lo' = ic_pick idx v'
        \<and> ic_less (ic_pick idx v') lo
        \<and> (\<forall>e\<in>set pre. \<not> ic_less (ic_pick idx (snd e)) (ic_pick idx v')
                          \<and> ic_pick idx (snd e) \<noteq> ic_pick idx v')
        \<and> (\<forall>e\<in>set post. \<not> ic_less (ic_pick idx (snd e)) (ic_pick idx v'))"
      then obtain pre key v' post where b: "xs = pre @ (key, v') # post" "sel' = Some key"
        "lo' = ic_pick idx v'" "ic_less (ic_pick idx v') lo"
        "\<forall>e\<in>set pre. \<not> ic_less (ic_pick idx (snd e)) (ic_pick idx v')
                          \<and> ic_pick idx (snd e) \<noteq> ic_pick idx v'"
        "\<forall>e\<in>set post. \<not> ic_less (ic_pick idx (snd e)) (ic_pick idx v')"
        by blast
      have 1: "x # xs = (x # pre) @ (key, v') # post" using b(1) by simp
      have 3: "\<not> ic_less ?w (ic_pick idx v')" using b(4) False ic_less_trans by blast
      have 4: "?w \<noteq> ic_pick idx v'" using b(4) False by auto
      have 5: "\<forall>e\<in>set (x # pre). \<not> ic_less (ic_pick idx (snd e)) (ic_pick idx v')
                          \<and> ic_pick idx (snd e) \<noteq> ic_pick idx v'"
        using b(5) 3 4 by (simp add: x)
      have "x # xs = (x # pre) @ (key, v') # post \<and> sel' = Some key \<and> lo' = ic_pick idx v'
        \<and> ic_less (ic_pick idx v') lo
        \<and> (\<forall>e\<in>set (x # pre). \<not> ic_less (ic_pick idx (snd e)) (ic_pick idx v')
                          \<and> ic_pick idx (snd e) \<noteq> ic_pick idx v')
        \<and> (\<forall>e\<in>set post. \<not> ic_less (ic_pick idx (snd e)) (ic_pick idx v'))"
        using 1 5 b(2,3,4,6) by (intro conjI)
      then show ?thesis by (intro disjI2 exI)
    qed
  qed
qed

text \<open>
  The selection over a criterion table either finds no value below infinity (no entry
  compares below \<open>PosInf\<close>, and \<^verbatim>\<open>selected_order\<close> is unbound), or it returns the lags and
  orders of an entry of the table such that no entry has a smaller value of the chosen
  criterion, and no entry before it in the order of enumeration has the same value.
\<close>

lemma select_order_first_minimum:
  "case select_order c ics of
     Inl err \<Rightarrow> list_all (\<lambda>e. \<not> ic_less (ic_pick (ic_index c) (snd e)) PosInf) ics
   | Inr (a, d) \<Rightarrow>
       (\<exists>pre key v post.
          ics = pre @ (key, v) # post \<and> a = fst key
          \<and> d = foldl (\<lambda>d (k, v). dict_set d k v) [] (snd key)
          \<and> (\<forall>e\<in>set ics. \<not> ic_less (ic_pick (ic_index c) (snd e)) (ic_pick (ic_index c) v))
          \<and> (\<forall>e\<in>set pre. ic_pick (ic_index c) (snd e) \<noteq> ic_pick (ic_index c) v))"
proof -
  obtain lo' sel' where r: "select_loop (ic_index c) ics (PosInf, None) = (lo', sel')"
    by (cases "select_loop (ic_index c) ics (PosInf, None)")
  from select_loop_spec[OF r] show ?thesis
  proof
    assume "sel' = None \<and> lo' = PosInf
      \<and> (\<forall>e\<in>set ics. \<not> ic_less (ic_pick (ic_index c) (snd e)) PosInf)"
    then show ?thesis using r by (simp add: select_order_def list_all_iff)
  next
    assume "\<exists>pre key v post. ics = pre @ (key, v) # post \<and> sel' = Some key
        \<and> lo' = ic_pick (ic_index c) v
        \<and> ic_less (ic_pick (ic_index c) v) PosInf
        \<and> (\<forall>e\<in>set pre. \<not> ic_less (ic_pick (ic_index c) (snd e)) (ic_pick (ic_index c) v)
                          \<and> ic_pick (ic_index c) (snd e) \<noteq> ic_pick (ic_index c) v)
        \<and> (\<forall>e\<in>set post. \<not> ic_less (ic_pick (ic_index c) (snd e)) (ic_pick (ic_index c) v))"
    then obtain pre key v post where b: "ics = pre @ (key, v) # post" "sel' = Some key"
        "\<forall>e\<in>set pre. \<not> ic_less (ic_pick (ic_index c) (snd e)) (ic_pick (ic_index c) v)
                          \<and> ic_pick (ic_index c) (snd e) \<noteq> ic_pick (ic_index c) v"
        "\<forall>e\<in>set post. \<not> ic_less (ic_pick (ic_index c) (snd e)) (ic_pick (ic_index c) v)"
      by blast
    have all: "\<forall>e\<in>set ics. \<not> ic_less (ic_pick (ic_index c) (snd e)) (ic_pick (ic_index c) v)"
      using b(1,3,4) ic_less_irrefl by auto
    have sel: "select_order c ics = Inr (fst key, foldl (\<lambda>d (k, v). dict_set d k v) [] (snd key))"
      using r b(2) by (simp add: select_order_def)
    have ex: "\<exists>pre' key' v' post'.
          ics = pre' @ (key', v') # post' \<and> fst key = fst key'
          \<and> foldl (\<lambda>d (k, v). dict_set d k v) [] (snd key)
              = foldl (\<lambda>d (k, v). dict_set d k v) [] (snd key')
          \<and> (\<forall>e\<in>set ics. \<not> ic_less (ic_pick (ic_index c) (snd e)) (ic_pick (ic_index c) v'))
          \<and> (\<forall>e\<in>set pre'. ic_pick (ic_index c) (snd e) \<noteq> ic_pick (ic_index c) v')"
      using b(1,3) all by (intro exI[of _ pre] exI[of _ key] exI[of _ v] exI[of _ post]) simp
    show ?thesis unfolding sel by (simp only: sum.case prod.case ex)
  qed
qed

lemmas select_defs =
  ardl_select_order_def select_order_def ic_index_def ic_pick_def perm_to_tuple_def
  nested_key_def col_slice_to_def d_append_def ar_lags_def

lemma x0_base:
  "ARDL_init (\<lambda>s. s) ar1_endog ''y'' (LInt 0) (Some x_data) (Plain (OInt 0)) (no_trend 5)
     None False None = Inr (x0_model, [])"
  by (simp add: init_defs ar1_endog_def x0_model_def x_data_def no_trend_def py_defs
      upto.simps upt_rec[of _ "numeral _"] upt_rec[of _ "Suc _"] str_nat.simps Let_def
      replicate_5)

lemma x0_built:
  "ARDL_init (\<lambda>s. s) ar1_endog ''y'' (LInt 0) (Some x_data) (Mapping [(''x'', OInt 0)])
     (no_trend 5) None False (Some 0) = Inr (x0_model, [])"
  by (simp add: init_defs ar1_endog_def x0_model_def x_data_def no_trend_def py_defs
      upto.simps upt_rec[of _ "numeral _"] upt_rec[of _ "Suc _"] str_nat.simps Let_def
      replicate_5)

lemma glob_single:
  "ardl_select_order nm (\<lambda>s. s) ar1_endog ''y'' 0 (Some x_data) (Plain (OInt 0)) (no_trend 5)
     None False c True None
     = (let s = compute_ics nm [Num 1, Num 2, Num 4, Num 8, Num 16]
                  \<lparr>ncols = 0, rws = [[], [], [], [], []]\<rparr> 0;
            v = (case c of Aic \<Rightarrow> fst s | Bic \<Rightarrow> fst (snd s) | Hqic \<Rightarrow> snd (snd s))
        in if ic_less v PosInf
           then Inr ((x0_model, []), [((LInt 0, [(''x'', OInt 0)]), s)])
           else Inl (UnboundLocalError
                  ''local variable selected_order referenced before assignment''))"
proof -
  obtain a b h where s: "compute_ics nm [Num 1, Num 2, Num 4, Num 8, Num 16]
                  \<lparr>ncols = 0, rws = [[], [], [], [], []]\<rparr> 0 = (a, b, h)"
    by (cases "compute_ics nm [Num 1, Num 2, Num 4, Num 8, Num 16]
                  \<lparr>ncols = 0, rws = [[], [], [], [], []]\<rparr> 0") auto
  have xm: "self_hold_back x0_model = 0" "self_order x0_model = [(''x'', [0])]"
    "self_lags x0_model = []"
    "self_deterministic_reg x0_model = \<lparr>ncols = 0, rws = [[], [], [], [], []]\<rparr>"
    "self_fixed x0_model = \<lparr>ncols = 0, rws = [[], [], [], [], []]\<rparr>"
    "self_endog_reg x0_model = \<lparr>ncols = 0, rws = [[], [], [], [], []]\<rparr>"
    "self_exog x0_model = [(''x'', \<lparr>ncols = 1, rws = [[Num 1], [Num 0], [Num 1], [Num 0], [Num 1]]\<rparr>)]"
    "self_y x0_model = [Num 1, Num 2, Num 4, Num 8, Num 16]"
    by (simp_all add: x0_model_def)
  show ?thesis
    by (cases c)
       (simp_all add: select_defs x0_base x0_built xm s py_defs Let_def
          upt_rec[of _ "numeral _"] upt_rec[of _ "Suc _"])
qed


lemma glob_single_causal:
  "ardl_select_order nm (\<lambda>s. s) ar1_endog ''y'' 0 (Some x_data) (Plain (OInt 1)) (no_trend 5)
     None True c True None
     = (let s = compute_ics nm [Num 2, Num 4, Num 8, Num 16]
                  \<lparr>ncols = 0, rws = [[], [], [], []]\<rparr> 0;
            v = (case c of Aic \<Rightarrow> fst s | Bic \<Rightarrow> fst (snd s) | Hqic \<Rightarrow> snd (snd s))
        in if ic_less v PosInf
           then Inl (ValueError ''integer orders must be at least 1 when causal is True.'')
           else Inl (UnboundLocalError
                  ''local variable selected_order referenced before assignment''))"
proof -
  obtain a b h where s: "compute_ics nm [Num 2, Num 4, Num 8, Num 16]
                  \<lparr>ncols = 0, rws = [[], [], [], []]\<rparr> 0 = (a, b, h)"
    by (cases "compute_ics nm [Num 2, Num 4, Num 8, Num 16]
                  \<lparr>ncols = 0, rws = [[], [], [], []]\<rparr> 0") auto
  show ?thesis
    by (cases c)
       (simp_all add: select_defs init_defs ar1_endog_def x_data_def no_trend_def s py_defs Let_def
          upto.simps upt_rec[of _ "numeral _"] upt_rec[of _ "Suc _"] str_nat.simps replicate_5)
qed

text \<open>
  Claim C5 does not hold of the code. With \<^verbatim>\<open>glob=True\<close> the candidate without any lag
  column gets the key \<open>(0, (x, 0), ...)\<close> (\<^verbatim>\<open>perm_to_tuple\<close> for the empty selection), and
  the model that is returned is built from the key: order \<open>0\<close> of an exogenous variable
  is its lag \<open>0\<close>, not its absence. For the response \<open>1, 2, 4, 8, 16\<close>, one exogenous column
  \<open>x\<close>, no trend, \<^verbatim>\<open>maxlag=0\<close> and \<^verbatim>\<open>maxorder=0\<close>, the table has one entry, scored on a
  matrix without columns, for whatever criterion (the first, second or third value of the
  score for AIC, BIC or HQIC); when its value is below infinity the model returned has the
  regressor \<open>x.L0\<close>. With \<^verbatim>\<open>causal=True\<close> and \<^verbatim>\<open>maxorder=1\<close> the only entry is again the
  empty candidate, and building the model from its key raises a \<^verbatim>\<open>ValueError\<close>.
\<close>

theorem glob_empty_candidate_builds_lag_zero_model:
  "ardl_select_order nm (\<lambda>s. s) ar1_endog ''y'' 0 (Some x_data) (Plain (OInt 0)) (no_trend 5)
     None False c True None
     = (let s = compute_ics nm [Num 1, Num 2, Num 4, Num 8, Num 16]
                  \<lparr>ncols = 0, rws = [[], [], [], [], []]\<rparr> 0;
            v = (case c of Aic \<Rightarrow> fst s | Bic \<Rightarrow> fst (snd s) | Hqic \<Rightarrow> snd (snd s))
        in if ic_less v PosInf
           then Inr ((x0_model, []), [((LInt 0, [(''x'', OInt 0)]), s)])
           else Inl (UnboundLocalError
                  ''local variable selected_order referenced before assignment''))
   \<and> self_order x0_model = [(''x'', [0])] \<and> self_lags x0_model = []
   \<and> self_exog_names x0_model = [''x.L0'']
   \<and> self_x x0_model = \<lparr>ncols = 1, rws = [[Num 1], [Num 0], [Num 1], [Num 0], [Num 1]]\<rparr>
   \<and> ardl_select_order nm (\<lambda>s. s) ar1_endog ''y'' 0 (Some x_data) (Plain (OInt 1)) (no_trend 5)
       None True c True None
     = (let s = compute_ics nm [Num 2, Num 4, Num 8, Num 16]
                  \<lparr>ncols = 0, rws = [[], [], [], []]\<rparr> 0;
            v = (case c of Aic \<Rightarrow> fst s | Bic \<Rightarrow> fst (snd s) | Hqic \<Rightarrow> snd (snd s))
        in if ic_less v PosInf
           then Inl (ValueError ''integer orders must be at least 1 when causal is True.'')
           else Inl (UnboundLocalError
                  ''local variable selected_order referenced before assignment''))"
proof -
  have m: "self_order x0_model = [(''x'', [0])]" "self_lags x0_model = []"
    "self_exog_names x0_model = [''x.L0'']"
    "self_x x0_model = \<lparr>ncols = 1, rws = [[Num 1], [Num 0], [Num 1], [Num 0], [Num 1]]\<rparr>"
    by (simp_all add: x0_model_def)
  show ?thesis using glob_single[of nm c] glob_single_causal[of nm c] m by (intro conjI)
qed

section \<open>Hold-back and the size of the design matrix\<close>

lemma constructed_sizes:
  assumes "ARDL_init kstr endog ynames la exog ord dets fixed causal hold_back = Inr (m, ws)"
  shows "int (nrows (self_x m)) = int (length endog) - self_hold_back m
    \<and> int (length (self_y m)) = int (length endog) - self_hold_back m
    \<and> self_hold_back m = (case hold_back of None \<Rightarrow> self_maxlag m | Some h \<Rightarrow> h)
    \<and> self_maxlag m = Max (set (0 # self_lags m @ concat (map snd (self_order m))))
    \<and> self_maxlag m \<le> self_hold_back m
    \<and> ncols (self_x m) \<le> nrows (self_x m)"
proof -
  from ARDL_init_Inr[OF assms] obtain m0 fa fn r c where
    sr: "setup_regressors (length endog)
       (case hold_back of None \<Rightarrow> max_lag_of (lags_list la) | Some h \<Rightarrow> h) = Inr r"
    and im: "initialize_model kstr endog ynames exog dets fa fn causal hold_back la ord = Inr (m0, ws)"
    and m: "m = m0\<lparr>self_causal := c\<rparr>"
    by blast
  note f = initialize_model_fields[OF im]
  from initialize_model_stages[OF im] obtain reg0 exog_var_names exog_maxlag xfull where
    lm: "lagmat endog (max_lag_of (lags_list la)) False = Inr reg0"
    and er: "(if ncols reg0 \<noteq> length (lags_list la)
      then take_cols reg0 (map (\<lambda>l. l - 1) (lags_list la)) else Inr reg0)
        = Inr (self_endog_reg m0)"
    and fe: "format_exog kstr exog (self_order m0) = Inr (self_exog m0, exog_var_names)"
    and mo: "max_order_of (self_order m0) 0 = Inr exog_maxlag"
    and cs: "column_stack ([in_sample dets, self_endog_reg m0] @ map snd (self_exog m0) @ [fa])
        = Inr xfull"
    and ml: "self_maxlag m0 = max (max_lag_of (lags_list la)) exog_maxlag"
    and sx: "self_x m0 = row_slice_from xfull (self_hold_back m0)"
    by blast
  let ?N = "length endog"
  have nreg: "nrows (self_endog_reg m0) = ?N"
    using er lagmat_Inr(3)[OF lm] by (auto split: if_splits dest: take_cols_Inr(2))
  have nx: "nrows xfull = ?N" using column_stack_Inr(2)[OF cs] nreg by simp
  have l0: "0 \<le> max_lag_of (lags_list la)" "max_lag_of (lags_list la) < int ?N"
    using lagmat_Inr(1,2)[OF lm] by auto
  have em: "exog_maxlag = Max (set (0 # concat (map snd (self_order m0))))"
    using max_order_of_Inr[OF mo] by simp
  have e0: "0 \<le> exog_maxlag" unfolding em by simp
  have eN: "exog_maxlag \<le> int ?N"
  proof (cases "self_order m0 = []")
    case True then show ?thesis using em by simp
  next
    case False
    then obtain b where b: "b \<in> set (map snd (self_exog m0))"
      using format_exog_rows(2)[OF fe mo] by (cases "self_exog m0") auto
    then have "exog_maxlag < int (nrows b)"
      using format_exog_rows(1)[OF fe mo] by (auto simp: list_all_iff)
    moreover have "nrows b = ?N" using column_stack_Inr(2)[OF cs] b nx
      by (auto simp: list_all_iff)
    ultimately show ?thesis by simp
  qed
  have hb0: "0 \<le> self_hold_back m0" using f(9) ml l0 by simp
  have hbN: "self_hold_back m0 \<le> int ?N"
  proof (cases hold_back)
    case None
    then show ?thesis using f(8) ml l0 eN by simp
  next
    case (Some h)
    then show ?thesis using sr f(8) by (simp add: setup_regressors_def split: if_splits)
  qed
  have rows: "int (nrows (self_x m0)) = int ?N - self_hold_back m0"
    using hb0 hbN nx by (simp add: sx row_slice_from_def slice_from_def nrows_def slice_idx_nonneg)
  have ys: "int (length (self_y m0)) = int ?N - self_hold_back m0"
    using hb0 hbN by (simp add: f(11) slice_from_def slice_idx_nonneg)
  have mx: "self_maxlag m0 = Max (set (0 # self_lags m0 @ concat (map snd (self_order m0))))"
  proof (cases "lags_list la = []")
    case True
    then show ?thesis using ml em f(1) by (simp add: max_lag_of_def)
  next
    case False
    then have "max_lag_of (lags_list la) = Max (set (lags_list la))"
      by (cases "lags_list la") (simp_all add: max_lag_of_def Max.set_eq_fold[symmetric])
    moreover have "Max (set (0 # lags_list la @ concat (map snd (self_order m0))))
       = max (Max (set (lags_list la))) (Max (set (0 # concat (map snd (self_order m0)))))"
    proof -
      have "set (0 # lags_list la @ concat (map snd (self_order m0)))
              = set (lags_list la) \<union> set (0 # concat (map snd (self_order m0)))" by auto
      moreover have "Max (set (lags_list la) \<union> set (0 # concat (map snd (self_order m0))))
              = max (Max (set (lags_list la))) (Max (set (0 # concat (map snd (self_order m0)))))"
        using False by (intro Max_Un) simp_all
      ultimately show ?thesis by simp
    qed
    ultimately show ?thesis using ml em f(1) by simp
  qed
  have sel: "self_x m = self_x m0" "self_y m = self_y m0" "self_hold_back m = self_hold_back m0"
    "self_maxlag m = self_maxlag m0" "self_lags m = self_lags m0" "self_order m = self_order m0"
    by (simp_all add: m)
  show ?thesis unfolding sel using rows ys f(8,9,10) mx by simp
qed

lemma constructed_order:
  assumes "ARDL_init kstr endog ynames la exog ord dets fixed causal hold_back = Inr (m, ws)"
  shows "format_order kstr exog ord causal = Inr (self_order m, ws)" "self_lags m = lags_list la"
proof -
  from ARDL_init_Inr[OF assms] obtain m0 fa fn r c where
    im: "initialize_model kstr endog ynames exog dets fa fn causal hold_back la ord = Inr (m0, ws)"
    and m: "m = m0\<lparr>self_causal := c\<rparr>"
    by blast
  show "format_order kstr exog ord causal = Inr (self_order m, ws)" "self_lags m = lags_list la"
    using initialize_model_fields(1,12)[OF im] by (simp_all add: m)
qed

text \<open>
  Claim C9. Every result of the constructor is an error or a model. In a model, the trimmed
  design matrix and the trimmed response have exactly \<open>nobs - hold_back\<close> rows, the
  hold-back is the given one or else the maximum lag (the largest of the autoregressive
  and exogenous lags, \<open>0\<close> without lags), the hold-back is not smaller than the maximum
  lag, and the matrix has no more columns than rows; so a hold-back below the maximum lag
  and a matrix with more columns than rows make the constructor raise. For the hold-back
  this is also stated from the arguments: when the order is accepted and the given
  hold-back is below the largest lag, the constructor returns an error.
\<close>

theorem hold_back_trims_the_sample:
  "(ARDL_init kstr endog ynames la exog ord dets fixed causal hold_back = Inr (m, ws) \<longrightarrow>
      int (nrows (self_x m)) = int (length endog) - self_hold_back m
    \<and> int (length (self_y m)) = int (length endog) - self_hold_back m
    \<and> self_hold_back m = (case hold_back of None \<Rightarrow> self_maxlag m | Some h \<Rightarrow> h)
    \<and> self_maxlag m = Max (set (0 # self_lags m @ concat (map snd (self_order m))))
    \<and> self_maxlag m \<le> self_hold_back m
    \<and> ncols (self_x m) \<le> nrows (self_x m))
   \<and> (format_order kstr exog ord causal = Inr (order, ws') \<and> hold_back = Some h
        \<and> h < Max (set (0 # lags_list la @ concat (map snd order)))
      \<longrightarrow> isl (ARDL_init kstr endog ynames la exog ord dets fixed causal hold_back))"
proof (rule conjI; rule impI)
  assume "ARDL_init kstr endog ynames la exog ord dets fixed causal hold_back = Inr (m, ws)"
  from constructed_sizes[OF this] show
    "int (nrows (self_x m)) = int (length endog) - self_hold_back m
    \<and> int (length (self_y m)) = int (length endog) - self_hold_back m
    \<and> self_hold_back m = (case hold_back of None \<Rightarrow> self_maxlag m | Some h \<Rightarrow> h)
    \<and> self_maxlag m = Max (set (0 # self_lags m @ concat (map snd (self_order m))))
    \<and> self_maxlag m \<le> self_hold_back m
    \<and> ncols (self_x m) \<le> nrows (self_x m)" .
next
  assume a: "format_order kstr exog ord causal = Inr (order, ws') \<and> hold_back = Some h
        \<and> h < Max (set (0 # lags_list la @ concat (map snd order)))"
  show "isl (ARDL_init kstr endog ynames la exog ord dets fixed causal hold_back)"
  proof (cases "ARDL_init kstr endog ynames la exog ord dets fixed causal hold_back")
    case (Inl e) then show ?thesis by simp
  next
    case (Inr r)
    obtain m1 ws1 where r: "r = (m1, ws1)" by (cases r)
    note ok = Inr[unfolded r]
    from constructed_order[OF ok] a have "self_order m1 = order" "self_lags m1 = lags_list la"
      by simp_all
    then show ?thesis using constructed_sizes[OF ok] a by simp
  qed
qed

theorem hold_back_trims_the_sample_witness:
  "ARDL_init (\<lambda>s. s) ar1_endog ''y'' (LInt 1) None (Plain (OInt 0)) (const_process 5)
     None False None = Inr (ar1_model, [])
   \<and> int (nrows (self_x ar1_model)) = int (length ar1_endog) - self_hold_back ar1_model
   \<and> int (length (self_y ar1_model)) = int (length ar1_endog) - self_hold_back ar1_model
   \<and> nrows (self_x ar1_model) = 4 \<and> self_hold_back ar1_model = 1
   \<and> format_order (\<lambda>s. s) None (Plain (OInt 0)) False = Inr ([], [])
   \<and> (0::int) < Max (set (0 # lags_list (LInt 1) @ concat (map snd ([] :: (string \<times> int list) list))))
   \<and> isl (ARDL_init (\<lambda>s. s) ar1_endog ''y'' (LInt 1) None (Plain (OInt 0)) (const_process 5)
            None False (Some 0))"
proof -
  have f: "format_order (\<lambda>s. s) None (Plain (OInt 0)) False
             = Inr ([] :: (string \<times> int list) list, [])"
    by (simp add: format_order_def)
  have l: "(0::int) < Max (set (0 # lags_list (LInt 1)
             @ concat (map snd ([] :: (string \<times> int list) list))))"
    by (simp add: lags_list_def upto.simps)
  have n: "nrows (self_x ar1_model) = 4" "self_hold_back ar1_model = 1"
    by (simp_all add: ar1_model_def nrows_def)
  show ?thesis
    using hold_back_trims_the_sample [of "\<lambda>s. s" ar1_endog "''y''" "LInt 1" None "Plain (OInt 0)"
            "const_process 5" None False None ar1_model "[]" "[]" "[]" 0]
          hold_back_trims_the_sample [of "\<lambda>s. s" ar1_endog "''y''" "LInt 1" None "Plain (OInt 0)"
            "const_process 5" None False "Some 0" ar1_model "[]" "[]" "[]" 0]
          ar1_model_built f l n
    by simp
qed

section \<open>A concrete scenario\<close>

lemma upt_small:
  "[1 ..< Suc (nat 2)] = [1, 2]" "[0 ..< Suc (nat 1)] = [0, 1]"
  "[1 .. 2] = [1, 2::int]" "[0 .. 1] = [0, 1::int]" "[0..<Suc 0] = [0]"
  by (simp_all add: upto.simps upt_rec[of _ "numeral _"] upt_rec[of _ "Suc _"] eval_nat_numeral)

lemma upt_1_3: "[Suc 0 ..< 3] = [Suc 0, 2]"
  by (simp add: upt_rec[of _ "numeral _"] upt_rec[of _ "Suc _"] eval_nat_numeral)

lemma scenario_model:
  assumes "length endog = 100" "length xrows = 100"
  shows "\<exists>m. ARDL_init (\<lambda>s. s) endog ''y'' (LInt 2)
            (Some \<lparr>frame = True, columns = [''x''], vals = \<lparr>ncols = 1, rws = xrows\<rparr>\<rparr>)
            (Plain (OInt 1)) (const_process 100) None False None = Inr (m, [])
     \<and> self_exog_names m = [''const'', ''y.L1'', ''y.L2'', ''x.L0'', ''x.L1'']
     \<and> self_hold_back m = 2 \<and> ncols (self_x m) = 5 \<and> nrows (self_x m) = 98
     \<and> (\<forall>t<98. rws (self_x m) ! t
           = [Num 1, endog ! (t + 1), endog ! t, xrows ! (t + 2) ! 0, xrows ! (t + 1) ! 0])
     \<and> self_order m = [(''x'', [0, 1])] \<and> self_lags m = [1, 2] \<and> \<not> self_causal m
     \<and> ncols (self_fixed m) = 0
     \<and> data_orig_exog m
         = Some \<lparr>frame = True, columns = [''x''], vals = \<lparr>ncols = 1, rws = xrows\<rparr>\<rparr>
     \<and> length (data_endog m) = 100"
  using assms
  by (simp add: ARDL_init_def initialize_model_def setup_regressors_def lags_list_def
      max_lag_of_def format_order_def format_exog_def expand_order_def check_order_def
      const_process_def lagmat_def take_cols_def column_stack_def nrows_def row_slice_from_def
      slice_from_def slice_idx_def exog_col_def index_of_def lag_names_def str_int_def
      int_of_bool_def digit_def py_idx_def py_max_def py_min_def dict_comp_def str_nat.simps
      Let_def upt_small upt_1_3 lag_entry_def col_at_def)

lemma noncausal_forecast_fails:
  assumes "self_order m \<noteq> []" "\<not> self_causal m" "0 < num_oos"
  shows "predict_range kstr m params start end num_oos dynamic None None None None
           = Inl (ValueError (''exog_oos must be provided when out-of-sample ''
                        @ ''observations require values of the exog not in the ''
                        @ ''original sample''))"
  using assms
  by (simp add: predict_range_def check_opt_def max_1step_def check_oos_def exceeds_def)

text \<open>
  Claim C3. A response of 100 observations named \<open>y\<close>, one exogenous variable (a labelled
  column \<open>x\<close> of 100 rows), \<^verbatim>\<open>causal=False\<close>, autoregressive lag \<open>2\<close>, exogenous order \<open>1\<close>
  and the default trend, a constant: the constructor returns a model without a warning;
  its design matrix has the columns \<open>const, y.L1, y.L2, x.L0, x.L1\<close> in this order, by name
  and by content (row \<open>t\<close> of its 98 rows, for observation \<open>t + 2\<close>, holds \<open>1\<close>, the two
  observations of the response before it, and the exogenous variable at it and before it),
  so five parameters are fitted; the hold-back is \<open>2\<close>; and a request for three
  out-of-sample steps without \<open>exog_oos\<close>, through \<^verbatim>\<open>predict\<close> or through \<^verbatim>\<open>forecast\<close>,
  raises a \<^verbatim>\<open>ValueError\<close>, whatever the parameters.
\<close>

theorem scenario_columns_and_failing_forecast:
  assumes "length endog = 100" "length xrows = 100"
  shows "\<exists>m. ARDL_init (\<lambda>s. s) endog ''y'' (LInt 2)
            (Some \<lparr>frame = True, columns = [''x''], vals = \<lparr>ncols = 1, rws = xrows\<rparr>\<rparr>)
            (Plain (OInt 1)) (const_process 100) None False None = Inr (m, [])
     \<and> self_exog_names m = [''const'', ''y.L1'', ''y.L2'', ''x.L0'', ''x.L1'']
     \<and> self_hold_back m = 2 \<and> ncols (self_x m) = 5 \<and> nrows (self_x m) = 98
     \<and> (\<forall>t<98. rws (self_x m) ! t
           = [Num 1, endog ! (t + 1), endog ! t, xrows ! (t + 2) ! 0, xrows ! (t + 1) ! 0])
     \<and> predict (\<lambda>s. s) m params (Some 100) (Some 102) DFalse None None None None
         = Inl (ValueError (''exog_oos must be provided when out-of-sample ''
                        @ ''observations require values of the exog not in the ''
                        @ ''original sample''))
     \<and> forecast (\<lambda>s. s) \<lparr>model = m, res_params = params\<rparr> 3 None None
         = Inl (ValueError (''exog_oos must be provided when out-of-sample ''
                        @ ''observations require values of the exog not in the ''
                        @ ''original sample''))"
proof -
  from scenario_model[OF assms] obtain m where
    m: "ARDL_init (\<lambda>s. s) endog ''y'' (LInt 2)
            (Some \<lparr>frame = True, columns = [''x''], vals = \<lparr>ncols = 1, rws = xrows\<rparr>\<rparr>)
            (Plain (OInt 1)) (const_process 100) None False None = Inr (m, [])"
    and n: "self_exog_names m = [''const'', ''y.L1'', ''y.L2'', ''x.L0'', ''x.L1'']"
      "self_hold_back m = 2" "ncols (self_x m) = 5" "nrows (self_x m) = 98"
    and r: "\<forall>t<98. rws (self_x m) ! t
           = [Num 1, endog ! (t + 1), endog ! t, xrows ! (t + 2) ! 0, xrows ! (t + 1) ! 0]"
    and o: "self_order m = [(''x'', [0, 1])]" "\<not> self_causal m"
    and e: "length (data_endog m) = 100"
    by blast
  have prep: "prepare_prediction 100 (Some 100) (Some 102) = Inr (100, 99, 3)"
    by (simp add: prepare_prediction_def)
  have p: "predict (\<lambda>s. s) m params (Some 100) (Some 102) DFalse None None None None
         = Inl (ValueError (''exog_oos must be provided when out-of-sample ''
                        @ ''observations require values of the exog not in the ''
                        @ ''original sample''))"
    unfolding predict_def e prep
    using noncausal_forecast_fails[of m 3 "\<lambda>s. s" params 100 99 DFalse] o by simp
  have f: "forecast (\<lambda>s. s) \<lparr>model = m, res_params = params\<rparr> 3 None None
         = Inl (ValueError (''exog_oos must be provided when out-of-sample ''
                        @ ''observations require values of the exog not in the ''
                        @ ''original sample''))"
    using p by (simp add: forecast_def results_predict_def e)
  show ?thesis using m n r p f by blast
qed

theorem scenario_columns_and_failing_forecast_witness:
  "length (replicate 100 (Num 1)) = 100 \<and> length (replicate 100 [Num 2]) = 100
   \<and> (\<exists>m. ARDL_init (\<lambda>s. s) (replicate 100 (Num 1)) ''y'' (LInt 2)
            (Some \<lparr>frame = True, columns = [''x''],
                   vals = \<lparr>ncols = 1, rws = replicate 100 [Num 2]\<rparr>\<rparr>)
            (Plain (OInt 1)) (const_process 100) None False None = Inr (m, [])
     \<and> self_exog_names m = [''const'', ''y.L1'', ''y.L2'', ''x.L0'', ''x.L1'']
     \<and> self_hold_back m = 2 \<and> ncols (self_x m) = 5 \<and> nrows (self_x m) = 98
     \<and> (\<forall>t<98. rws (self_x m) ! t
           = [Num 1, replicate 100 (Num 1) ! (t + 1), replicate 100 (Num 1) ! t,
              replicate 100 [Num 2] ! (t + 2) ! 0, replicate 100 [Num 2] ! (t + 1) ! 0])
     \<and> rws (self_x m) ! 0 = [Num 1, Num 1, Num 1, Num 2, Num 2]
     \<and> predict (\<lambda>s. s) m [Num 1, Num 1, Num 1, Num 1, Num 1] (Some 100) (Some 102) DFalse
           None None None None
         = Inl (ValueError (''exog_oos must be provided when out-of-sample ''
                        @ ''observations require values of the exog not in the ''
                        @ ''original sample''))
     \<and> forecast (\<lambda>s. s) \<lparr>model = m, res_params = [Num 1, Num 1, Num 1, Num 1, Num 1]\<rparr> 3
           None None
         = Inl (ValueError (''exog_oos must be provided when out-of-sample ''
                        @ ''observations require values of the exog not in the ''
                        @ ''original sample'')))"
proof -
  have h1: "length (replicate 100 (Num 1)) = 100" by simp
  have h2: "length (replicate 100 [Num 2]) = 100" by simp
  let ?P = "\<lambda>m. ARDL_init (\<lambda>s. s) (replicate 100 (Num 1)) ''y'' (LInt 2)
            (Some \<lparr>frame = True, columns = [''x''],
                   vals = \<lparr>ncols = 1, rws = replicate 100 [Num 2]\<rparr>\<rparr>)
            (Plain (OInt 1)) (const_process 100) None False None = Inr (m, [])
     \<and> self_exog_names m = [''const'', ''y.L1'', ''y.L2'', ''x.L0'', ''x.L1'']
     \<and> self_hold_back m = 2 \<and> ncols (self_x m) = 5 \<and> nrows (self_x m) = 98
     \<and> (\<forall>t<98. rws (self_x m) ! t
           = [Num 1, replicate 100 (Num 1) ! (t + 1), replicate 100 (Num 1) ! t,
              replicate 100 [Num 2] ! (t + 2) ! 0, replicate 100 [Num 2] ! (t + 1) ! 0])
     \<and> predict (\<lambda>s. s) m [Num 1, Num 1, Num 1, Num 1, Num 1] (Some 100) (Some 102) DFalse
           None None None None
         = Inl (ValueError (''exog_oos must be provided when out-of-sample ''
                        @ ''observations require values of the exog not in the ''
                        @ ''original sample''))
     \<and> forecast (\<lambda>s. s) \<lparr>model = m, res_params = [Num 1, Num 1, Num 1, Num 1, Num 1]\<rparr> 3
           None None
         = Inl (ValueError (''exog_oos must be provided when out-of-sample ''
                        @ ''observations require values of the exog not in the ''
                        @ ''original sample''))"
  from scenario_columns_and_failing_forecast [OF h1 h2,
            of "[Num 1, Num 1, Num 1, Num 1, Num 1]"]
  obtain m where m: "?P m" by blast
  then have "\<forall>t<98. rws (self_x m) ! t
           = [Num 1, replicate 100 (Num 1) ! (t + 1), replicate 100 (Num 1) ! t,
              replicate 100 [Num 2] ! (t + 2) ! 0, replicate 100 [Num 2] ! (t + 1) ! 0]"
    by blast
  then have "rws (self_x m) ! 0 = [Num 1, Num 1, Num 1, Num 2, Num 2]" by simp
  then show ?thesis using h1 h2 m by blast
qed
section \<open>Claim C4: the dynamic region\<close>

text \<open>
  Claim C4. Let the forecasting matrix be well formed (its rows as long as the parameter
  vector, the autoregressive columns inside it), let the dynamic region start at offset
  \<open>ds\<close> from \<open>start\<close>, within the matrix and not after the end of the sample, and let every
  autoregressive lag be at least \<open>1\<close> and at most \<open>start + ds\<close>. Then the walk of
  \<^verbatim>\<open>predict\<close> returns, and: before \<open>ds\<close> the rows are untouched and the forecast is the
  product of the row with the parameters; from \<open>ds\<close> on, the forecast of row \<open>i\<close> is the
  product of the rewritten row with the parameters, where the entry for lag \<open>l\<close> is the
  forecast of row \<open>i - l\<close> when \<open>i - l\<close> is at or after \<open>ds\<close> and the observation
  \<open>endog[start + i - l]\<close> otherwise, and every other entry is unchanged. For a model whose
  only lag is \<open>1\<close> and whose other columns are all deterministic, each forecast of the
  dynamic region is the deterministic part plus the coefficient times the previous
  forecast (the last observation before the region, for its first row).
\<close>

theorem dynamic_region_uses_earlier_forecasts:
  fixes m :: "'k ardl"
  assumes vo: "view_ok st"
    and nc: "x_ncols st = length params"
    and rl: "list_all (\<lambda>r. length r = length params) (x_rows st)"
    and off: "ncols (self_deterministic_reg m) + length (self_lags m) \<le> length params"
    and dsd: "dynamic_start m start end dynamic = Inr ds"
    and ds: "0 \<le> ds" "ds \<le> int (length (x_rows st))"
    and en: "start + ds \<le> int (length (data_endog m))"
    and lg: "\<forall>lag\<in>set (self_lags m). 1 \<le> lag \<and> lag \<le> start + ds"
  shows "\<exists>st' fc. predict_walk m params start end dynamic st = Inr (st', fc)
     \<and> length fc = length (x_rows st) \<and> length (x_rows st') = length (x_rows st)
     \<and> (\<forall>i<nat ds. x_rows st' ! i = x_rows st ! i \<and> fc ! i = dotval (x_rows st ! i) params)
     \<and> (\<forall>i. nat ds \<le> i \<and> i < length (x_rows st) \<longrightarrow>
           fc ! i = dotval (x_rows st' ! i) params
         \<and> (\<forall>j<length (self_lags m).
               x_rows st' ! i ! (ncols (self_deterministic_reg m) + j)
                 = (if ds \<le> int i - self_lags m ! j then fc ! nat (int i - self_lags m ! j)
                    else data_endog m ! nat (start + int i - self_lags m ! j)))
         \<and> (\<forall>c<length params.
               c < ncols (self_deterministic_reg m)
               \<or> ncols (self_deterministic_reg m) + length (self_lags m) \<le> c
               \<longrightarrow> x_rows st' ! i ! c = x_rows st ! i ! c))
     \<and> (self_lags m = [1] \<and> length params = ncols (self_deterministic_reg m) + 1 \<longrightarrow>
          (\<forall>i. nat ds \<le> i \<and> i < length (x_rows st) \<longrightarrow>
             fc ! i = num_add (dotval (take (ncols (self_deterministic_reg m)) (x_rows st ! i))
                                 (take (ncols (self_deterministic_reg m)) params))
                        (num_mul (if nat ds < i then fc ! (i - 1)
                                  else data_endog m ! nat (start + int i - 1))
                                 (params ! ncols (self_deterministic_reg m)))))"
proof -
  let ?rows = "x_rows st"
  let ?off = "ncols (self_deterministic_reg m)"
  from predict_walk_spec[OF assms] obtain rs fc where
    pw: "predict_walk m params start end dynamic st = Inr (x_put st rs, fc)"
    and lf: "length fc = length ?rows" and lr: "length rs = length ?rows"
    and stat: "\<forall>i<nat ds. rs ! i = ?rows ! i \<and> fc ! i = dotval (?rows ! i) params"
    and dyn: "\<forall>i. ds \<le> i \<and> i < int (length ?rows) \<longrightarrow>
           rs ! nat i = put_lags (lag_source (data_endog m) fc start ds i) ?off (self_lags m)
                          (?rows ! nat i)
         \<and> fc ! nat i = dotval (rs ! nat i) params"
    by blast
  have xr: "x_rows (x_put st rs) = rs" using x_rows_put(1)[OF vo lr] .
  have row: "rs ! i = put_lags (lag_source (data_endog m) fc start ds (int i)) ?off (self_lags m)
                          (?rows ! i)"
    and fci: "fc ! i = dotval (rs ! i) params"
    if "nat ds \<le> i" "i < length ?rows" for i
  proof -
    have "ds \<le> int i \<and> int i < int (length ?rows)" using that ds by auto
    then show "rs ! i = put_lags (lag_source (data_endog m) fc start ds (int i)) ?off (self_lags m)
                          (?rows ! i)" "fc ! i = dotval (rs ! i) params"
      using dyn[rule_format, of "int i"] by simp_all
  qed
  have len: "length (?rows ! i) = length params" if "i < length ?rows" for i
    using rl that by (simp add: list_all_length)
  have D1: "rs ! i ! (?off + j)
                 = (if ds \<le> int i - self_lags m ! j then fc ! nat (int i - self_lags m ! j)
                    else data_endog m ! nat (start + int i - self_lags m ! j))"
    if "nat ds \<le> i" "i < length ?rows" "j < length (self_lags m)" for i j
    unfolding row[OF that(1,2)]
    using that(3) off len[OF that(2)] by (simp add: put_lags_nth lag_source_def)
  have D2: "rs ! i ! c = ?rows ! i ! c"
    if "nat ds \<le> i" "i < length ?rows" "c < length params"
      "c < ?off \<or> ?off + length (self_lags m) \<le> c" for i c
    unfolding row[OF that(1,2)]
    using that(3,4) off len[OF that(2)] by (auto simp: put_lags_nth)
  have D3: "fc ! i = num_add (dotval (take ?off (?rows ! i)) (take ?off params))
                        (num_mul (if nat ds < i then fc ! (i - 1)
                                  else data_endog m ! nat (start + int i - 1))
                                 (params ! ?off))"
    if i: "nat ds \<le> i" "i < length ?rows" and l1: "self_lags m = [1]"
      and lp: "length params = ?off + 1" for i
  proof -
    have v: "lag_source (data_endog m) fc start ds (int i) 1
               = (if nat ds < i then fc ! (i - 1) else data_endog m ! nat (start + int i - 1))"
      using ds(1) i by (auto simp: lag_source_def nat_diff_distrib)
    have "rs ! i = (?rows ! i)[?off := lag_source (data_endog m) fc start ds (int i) 1]"
      unfolding row[OF i] l1 by simp
    then show ?thesis
      unfolding fci[OF i] v using dotval_last[of "?rows ! i" ?off params] len[OF i(2)] lp
      by simp
  qed
  show ?thesis
    apply (rule exI[of _ "x_put st rs"], rule exI[of _ fc])
    unfolding xr
    apply (intro conjI allI impI)
    using pw lf lr stat fci D1 D2 D3 by auto
qed


theorem dynamic_region_uses_earlier_forecasts_witness:
  "forecasting_x (\<lambda>s. s) ar1_model 1 3 0 None None None None = Inr (View 0 3)
   \<and> dynamic_start ar1_model 1 3 DTrue = Inr 0
   \<and> predict_walk ar1_model [Num 1, Num 2] 1 3 DTrue (self_x ar1_model, View 0 3)
       = Inr ((\<lparr>ncols = 2,
                rws = [[Num 1, Num 1], [Num 1, Num 3], [Num 1, Num 7], [Num 1, Num 8]]\<rparr>,
               View 0 3),
              [Num 3, Num 7, Num 15])
   \<and> (\<exists>st' fc.
         predict_walk ar1_model [Num 1, Num 2] 1 3 DTrue (self_x ar1_model, View 0 3)
           = Inr (st', fc)
       \<and> fc ! 0 = num_add (Num 1) (num_mul (data_endog ar1_model ! 0) (Num 2))
       \<and> fc ! 1 = num_add (Num 1) (num_mul (fc ! 0) (Num 2))
       \<and> fc ! 2 = num_add (Num 1) (num_mul (fc ! 1) (Num 2)))"
proof -
  let ?st = "(self_x ar1_model, View 0 3)"
  let ?p = "[Num 1, Num 2]"
  have fx: "forecasting_x (\<lambda>s. s) ar1_model 1 3 0 None None None None = Inr (View 0 3)"
    by (simp add: forecasting_x_def pad_x_def ar1_model_def py_defs Let_def)
  have rows: "x_rows ?st = [[Num 1, Num 1], [Num 1, Num 2], [Num 1, Num 4]]"
    by (simp add: x_rows_def ar1_model_def)
  have h1: "view_ok ?st" by (simp add: view_ok_def ar1_model_def nrows_def)
  have h2: "x_ncols ?st = length ?p" by (simp add: x_ncols_def ar1_model_def)
  have h3: "list_all (\<lambda>r. length r = length ?p) (x_rows ?st)" by (simp add: rows)
  have h4: "ncols (self_deterministic_reg ar1_model) + length (self_lags ar1_model) \<le> length ?p"
    by (simp add: ar1_model_def)
  have h5: "dynamic_start ar1_model 1 3 DTrue = Inr 0"
    by (simp add: dynamic_start_def parse_dynamic_def ar1_model_def)
  have h6: "(0::int) \<le> 0" "0 \<le> int (length (x_rows ?st))" by simp_all
  have h7: "1 + 0 \<le> int (length (data_endog ar1_model))" by (simp add: ar1_model_def)
  have h8: "\<forall>lag\<in>set (self_lags ar1_model). 1 \<le> lag \<and> lag \<le> 1 + 0"
    by (simp add: ar1_model_def)
  have l: "self_lags ar1_model = [1]"
    "length ?p = ncols (self_deterministic_reg ar1_model) + 1"
    "ncols (self_deterministic_reg ar1_model) = 1"
    by (simp_all add: ar1_model_def)
  from dynamic_region_uses_earlier_forecasts[OF h1 h2 h3 h4 h5 h6 h7 h8]
  obtain st' fc where
    pw: "predict_walk ar1_model ?p 1 3 DTrue ?st = Inr (st', fc)"
    and rec: "\<forall>i. nat 0 \<le> i \<and> i < length (x_rows ?st) \<longrightarrow>
             fc ! i = num_add (dotval (take (ncols (self_deterministic_reg ar1_model)) (x_rows ?st ! i))
                                 (take (ncols (self_deterministic_reg ar1_model)) ?p))
                        (num_mul (if nat 0 < i then fc ! (i - 1)
                                  else data_endog ar1_model ! nat (1 + int i - 1))
                                 (?p ! ncols (self_deterministic_reg ar1_model)))"
    using l(1,2) by blast
  have d: "dotval [Num 1] [Num 1] = Num 1" by (simp add: dotval_def num_add_def num_mul_def)
  have "fc ! 0 = num_add (Num 1) (num_mul (data_endog ar1_model ! 0) (Num 2))"
    using rec[rule_format, of 0] by (simp add: rows l(3) d)
  moreover have "fc ! 1 = num_add (Num 1) (num_mul (fc ! 0) (Num 2))"
    using rec[rule_format, of 1] by (simp add: rows l(3) d)
  moreover have "fc ! 2 = num_add (Num 1) (num_mul (fc ! 1) (Num 2))"
    using rec[rule_format, of 2] by (simp add: rows l(3) d)
  ultimately show ?thesis using fx h5 ar1_dynamic_walk pw by blast
qed

section \<open>Claim C10: the forecast method\<close>

text \<open>
  Claim C10, as amended. For \<open>steps \<ge> 1\<close>, \<^verbatim>\<open>forecast(steps, exog, fixed)\<close> is
  \<^verbatim>\<open>predict(start=nobs, end=nobs+steps-1, dynamic=False, exog_oos=exog, fixed_oos=fixed)\<close>,
  which predicts the range that starts at \<open>nobs\<close>, has no in-sample part (\<open>end = nobs - 1\<close>)
  and \<open>steps\<close> out-of-sample steps. With \<^verbatim>\<open>dynamic=False\<close> the dynamic region of that call
  starts at offset \<open>end + 1 - start = 0\<close>, its first row: on a well-formed forecasting
  matrix, with lags between \<open>1\<close> and \<open>nobs\<close>, the walk returns, every forecast is the
  product of the rewritten row with the parameters, and the entry for lag \<open>l\<close> of row \<open>i\<close>
  is the forecast of row \<open>i - l\<close> when \<open>l \<le> i\<close> (an earlier out-of-sample forecast) and
  the observation \<open>endog[nobs + i - l]\<close> otherwise.
\<close>

theorem forecast_is_predict_with_dynamic_start_at_first_forecast:
  fixes res :: "'k::linorder ardl_results"
  assumes st: "1 \<le> steps"
    and vo: "view_ok st"
    and nc: "x_ncols st = length params"
    and rl: "list_all (\<lambda>r. length r = length params) (x_rows st)"
    and off: "ncols (self_deterministic_reg (model res)) + length (self_lags (model res))
                \<le> length params"
    and lg: "\<forall>lag\<in>set (self_lags (model res)).
               1 \<le> lag \<and> lag \<le> int (length (data_endog (model res)))"
  shows "forecast kstr res steps exog fixed
           = results_predict kstr res (Some (int (length (data_endog (model res)))))
               (Some (int (length (data_endog (model res))) + steps - 1)) DFalse
               None exog None fixed
     \<and> forecast kstr res steps exog fixed
           = ebind (predict_range kstr (model res) (res_params res)
                      (int (length (data_endog (model res))))
                      (int (length (data_endog (model res))) - 1) steps DFalse
                      None exog None fixed)
               (\<lambda>(m', p). Inr (res\<lparr>model := m'\<rparr>, p))
     \<and> dynamic_start (model res) (int (length (data_endog (model res))))
           (int (length (data_endog (model res))) - 1) DFalse = Inr 0
     \<and> (\<exists>st' fc.
           predict_walk (model res) params (int (length (data_endog (model res))))
             (int (length (data_endog (model res))) - 1) DFalse st = Inr (st', fc)
         \<and> length fc = length (x_rows st)
         \<and> (\<forall>i<length (x_rows st).
               fc ! i = dotval (x_rows st' ! i) params
             \<and> (\<forall>j<length (self_lags (model res)).
                   x_rows st' ! i ! (ncols (self_deterministic_reg (model res)) + j)
                     = (if self_lags (model res) ! j \<le> int i
                        then fc ! nat (int i - self_lags (model res) ! j)
                        else data_endog (model res)
                               ! nat (int (length (data_endog (model res))) + int i
                                        - self_lags (model res) ! j)))))"
proof -
  let ?m = "model res"
  let ?nobs = "int (length (data_endog ?m))"
  let ?off = "ncols (self_deterministic_reg ?m)"
  let ?rows = "x_rows st"
  have A: "forecast kstr res steps exog fixed
           = results_predict kstr res (Some ?nobs) (Some (?nobs + steps - 1)) DFalse
               None exog None fixed"
    by (simp add: forecast_def Let_def)
  note B = forecast_unfold[OF st, of kstr res exog fixed]
  have C: "dynamic_start ?m ?nobs (?nobs - 1) DFalse = Inr 0"
    by (simp add: dynamic_start_def)
  have lg': "\<forall>lag\<in>set (self_lags ?m). 1 \<le> lag \<and> lag \<le> ?nobs + 0" using lg by simp
  have en: "?nobs + 0 \<le> int (length (data_endog ?m))" by simp
  from predict_walk_spec[OF vo nc rl off C _ _ en lg'] obtain rs fc where
    pw: "predict_walk ?m params ?nobs (?nobs - 1) DFalse st = Inr (x_put st rs, fc)"
    and lf: "length fc = length ?rows" and lr: "length rs = length ?rows"
    and dyn: "\<forall>i. 0 \<le> i \<and> i < int (length ?rows) \<longrightarrow>
           rs ! nat i = put_lags (lag_source (data_endog ?m) fc ?nobs 0 i) ?off (self_lags ?m)
                          (?rows ! nat i)
         \<and> fc ! nat i = dotval (rs ! nat i) params"
    by auto
  have xr: "x_rows (x_put st rs) = rs" using x_rows_put(1)[OF vo lr] .
  have row: "rs ! i = put_lags (lag_source (data_endog ?m) fc ?nobs 0 (int i)) ?off (self_lags ?m)
                          (?rows ! i)"
    and fci: "fc ! i = dotval (rs ! i) params" if "i < length ?rows" for i
    using dyn[rule_format, of "int i"] that by simp_all
  have len: "length (?rows ! i) = length params" if "i < length ?rows" for i
    using rl that by (simp add: list_all_length)
  have D: "rs ! i ! (?off + j)
             = (if self_lags ?m ! j \<le> int i then fc ! nat (int i - self_lags ?m ! j)
                else data_endog ?m ! nat (?nobs + int i - self_lags ?m ! j))"
    if "i < length ?rows" "j < length (self_lags ?m)" for i j
    unfolding row[OF that(1)]
    using that(2) off len[OF that(1)] by (simp add: put_lags_nth lag_source_def)
  have E: "\<exists>st' fc.
           predict_walk ?m params ?nobs (?nobs - 1) DFalse st = Inr (st', fc)
         \<and> length fc = length ?rows
         \<and> (\<forall>i<length ?rows.
               fc ! i = dotval (x_rows st' ! i) params
             \<and> (\<forall>j<length (self_lags ?m).
                   x_rows st' ! i ! (?off + j)
                     = (if self_lags ?m ! j \<le> int i
                        then fc ! nat (int i - self_lags ?m ! j)
                        else data_endog ?m ! nat (?nobs + int i - self_lags ?m ! j))))"
    apply (rule exI[of _ "x_put st rs"], rule exI[of _ fc])
    unfolding xr
    apply (intro conjI allI impI)
    using pw lf fci D by auto
  show ?thesis using A B C E by (intro conjI)
qed

theorem forecast_is_predict_with_dynamic_start_at_first_forecast_witness:
  "(1::int) \<le> 2
   \<and> forecast (\<lambda>s. s) \<lparr>model = ar1_model, res_params = [Num 1, Num 2]\<rparr> 2 None None
       = results_predict (\<lambda>s. s) \<lparr>model = ar1_model, res_params = [Num 1, Num 2]\<rparr>
           (Some 5) (Some 6) DFalse None None None None
   \<and> dynamic_start ar1_model 5 4 DFalse = Inr 0
   \<and> (\<exists>st' fc.
         predict_walk ar1_model [Num 1, Num 2] 5 4 DFalse
           (self_x ar1_model, Local \<lparr>ncols = 2, rws = [[Num 1, Num 16], [Num 1, NaN]]\<rparr>)
           = Inr (st', fc)
       \<and> length fc = 2
       \<and> x_rows st' ! 0 ! 1 = data_endog ar1_model ! 4
       \<and> x_rows st' ! 1 ! 1 = fc ! 0)"
proof -
  let ?res = "\<lparr>model = ar1_model, res_params = [Num 1, Num 2]\<rparr>"
  let ?st = "(self_x ar1_model, Local \<lparr>ncols = 2, rws = [[Num 1, Num 16], [Num 1, NaN]]\<rparr>)"
  let ?p = "[Num 1, Num 2]"
  have d: "length (data_endog ar1_model) = 5" "self_lags ar1_model = [1]"
    "ncols (self_deterministic_reg ar1_model) = 1"
    by (simp_all add: ar1_model_def)
  have rows: "x_rows ?st = [[Num 1, Num 16], [Num 1, NaN]]" by (simp add: x_rows_def)
  have h1: "(1::int) \<le> 2" by simp
  have h2: "view_ok ?st" by (simp add: view_ok_def)
  have h3: "x_ncols ?st = length ?p" by (simp add: x_ncols_def)
  have h4: "list_all (\<lambda>r. length r = length ?p) (x_rows ?st)" by (simp add: rows)
  have h5: "ncols (self_deterministic_reg (model ?res)) + length (self_lags (model ?res))
              \<le> length ?p" by (simp add: d)
  have h6: "\<forall>lag\<in>set (self_lags (model ?res)).
              1 \<le> lag \<and> lag \<le> int (length (data_endog (model ?res)))" by (simp add: d)
  note t = forecast_is_predict_with_dynamic_start_at_first_forecast[OF h1 h2 h3 h4 h5 h6,
      of "\<lambda>s. s" None None]
  from t have a: "forecast (\<lambda>s. s) ?res 2 None None
       = results_predict (\<lambda>s. s) ?res (Some 5) (Some 6) DFalse None None None None"
    by (simp add: d)
  from t have b: "dynamic_start ar1_model 5 4 DFalse = Inr 0" by (simp add: d)
  from t obtain st' fc where
    pw: "predict_walk ar1_model ?p 5 4 DFalse ?st = Inr (st', fc)"
    and lf: "length fc = 2"
    and e: "\<forall>i<2. \<forall>j<1. x_rows st' ! i ! (1 + j)
                     = (if [1] ! j \<le> int i then fc ! nat (int i - [1] ! j)
                        else data_endog ar1_model ! nat (5 + int i - [1] ! j))"
    by (auto simp: d rows)
  have "x_rows st' ! 0 ! 1 = data_endog ar1_model ! 4" using e[rule_format, of 0 0] by simp
  moreover have "x_rows st' ! 1 ! 1 = fc ! 0" using e[rule_format, of 1 0] by simp
  ultimately show ?thesis using h1 a b pw lf by blast
qed

text \<open>
  The claim as first stated (the method performs static prediction only, so that no earlier
  out-of-sample forecast enters a later autoregressive entry) fails on the model
  \<^verbatim>\<open>ARDL(y, 1)\<close> of the five observations with parameters \<open>(1, 2)\<close>: two steps are forecast
  as \<open>33\<close> and \<open>67 = 1 + 2 * 33\<close>, the second from the first, while the forecasting matrix
  holds NaN in that entry and its product with the parameters is \<open>(33, NaN)\<close>.
\<close>

theorem forecast_substitutes_earlier_forecasts:
  "forecast (\<lambda>s. s) \<lparr>model = ar1_model, res_params = [Num 1, Num 2]\<rparr> 2 None None
     = Inr (\<lparr>model = ar1_model, res_params = [Num 1, Num 2]\<rparr>, [Num 33, Num 67])
   \<and> rebuild_x (\<lambda>s. s) ar1_model 5 4 2 None None None None
       = Inr \<lparr>ncols = 2, rws = [[Num 1, Num 16], [Num 1, NaN]]\<rparr>
   \<and> matvec 2 [[Num 1, Num 16], [Num 1, NaN]] [Num 1, Num 2] = Inr [Num 33, NaN]
   \<and> Num 67 = num_add (num_mul (Num 1) (Num 1)) (num_mul (Num 33) (Num 2))"
  using ar1_forecast ar1_rebuild_oos
  by (simp add: matvec_def dotval_def num_add_def num_mul_def)

section \<open>Claim C1: prediction and the stored design matrix\<close>

text \<open>
  Claim C1 does not hold of the code. The model \<^verbatim>\<open>ARDL(y, 1)\<close> of the five observations
  \<open>1, 2, 4, 8, 16\<close> is what the constructor returns, with the rows \<open>(1, 1)\<close>, \<open>(1, 2)\<close>,
  \<open>(1, 4)\<close>, \<open>(1, 8)\<close> in \<^verbatim>\<open>_x\<close>. With parameters \<open>(1, 2)\<close> the call
  \<^verbatim>\<open>predict(params, start=2, end=3, dynamic=True)\<close> returns \<open>5\<close> and \<open>11\<close> and leaves a model
  whose third row is \<open>(1, 5)\<close>: the forecasting matrix is a view of \<^verbatim>\<open>_x\<close> (no padding is
  needed, so \<^verbatim>\<open>pad_x\<close> returns its argument), and the walk writes the first forecast into
  it. A later static prediction of observation \<open>3\<close> is \<open>11\<close> on the model left behind and
  \<open>9\<close> on the model as constructed.
\<close>

theorem predict_dynamic_in_sample_overwrites_design:
  "ARDL_init (\<lambda>s. s) ar1_endog ''y'' (LInt 1) None (Plain (OInt 0)) (const_process 5)
     None False None = Inr (ar1_model, [])
   \<and> rws (self_x ar1_model) = [[Num 1, Num 1], [Num 1, Num 2], [Num 1, Num 4], [Num 1, Num 8]]
   \<and> (\<exists>m'. predict (\<lambda>s. s) ar1_model [Num 1, Num 2] (Some 2) (Some 3) DTrue None None None None
              = Inr (m', [Num 5, Num 11])
          \<and> rws (self_x m') = [[Num 1, Num 1], [Num 1, Num 2], [Num 1, Num 5], [Num 1, Num 8]]
          \<and> m' \<noteq> ar1_model
          \<and> predict (\<lambda>s. s) ar1_model [Num 1, Num 2] (Some 3) (Some 3) DFalse None None None None
              = Inr (ar1_model, [Num 9])
          \<and> predict (\<lambda>s. s) m' [Num 1, Num 2] (Some 3) (Some 3) DFalse None None None None
              = Inr (m', [Num 11]))"
proof -
  let ?m' = "ar1_model\<lparr>self_x :=
              \<lparr>ncols = 2, rws = [[Num 1, Num 1], [Num 1, Num 2], [Num 1, Num 5], [Num 1, Num 8]]\<rparr>\<rparr>"
  have a: "rws (self_x ar1_model) = [[Num 1, Num 1], [Num 1, Num 2], [Num 1, Num 4], [Num 1, Num 8]]"
    by (simp add: ar1_model_def)
  have b: "rws (self_x ?m') = [[Num 1, Num 1], [Num 1, Num 2], [Num 1, Num 5], [Num 1, Num 8]]"
    by simp
  have ne: "?m' \<noteq> ar1_model"
  proof
    assume "?m' = ar1_model"
    then have "rws (self_x ?m') = rws (self_x ar1_model)" by simp
    then show False unfolding a b by simp
  qed
  have p1: "predict (\<lambda>s. s) ar1_model [Num 1, Num 2] (Some 3) (Some 3) DFalse None None None None
              = Inr (ar1_model, [Num 9])"
    by (simp add: predict_defs walk_defs ar1_model_def py_defs upto.simps Let_def eval_nat_numeral)
  have p2: "predict (\<lambda>s. s) ?m' [Num 1, Num 2] (Some 3) (Some 3) DFalse None None None None
              = Inr (?m', [Num 11])"
    by (simp add: predict_defs walk_defs ar1_model_def py_defs upto.simps Let_def eval_nat_numeral)
  show ?thesis
    using ar1_model_built a b ne p1 p2 ar1_in_sample_dynamic by blast
qed



end
